(* ===== verification/Go_Base.thy ===== *)
theory Go_Base
  imports Main "HOL-Library.Word" "HOL-Library.Monad_Syntax"
begin

text \<open>
  Prelude of the development: Go's fixed-width integers as machine words, little-endian
  byte encoding (\<open>encoding/binary\<close>), slices as lists with an explicit panic outcome, errors
  as values, and the input/output monad in which the stateful code is written.

  \<^item> \<open>byte\<close>, \<open>u16\<close>, \<open>u32\<close>, \<open>u64\<close> are Go's unsigned types and \<open>goint\<close> is Go's 64-bit
    \<open>int\<close> (read with \<open>sint\<close>); arithmetic on them wraps as in Go.
  \<^item> \<open>go_error\<close> holds the error values: a wrapped error keeps the format string of the
    \<open>fmt.Errorf\<close> call and its arguments.
  \<^item> \<open>('s, 'a) io\<close> is a computation on a state \<open>'s\<close>; \<open>None\<close> is a computation that does not
    return, \<open>Panic\<close> a run-time panic, \<open>Err\<close> a non-nil error, \<open>Ok\<close> a nil error.
    \<open>try_io msg m k\<close> is the Go idiom
    \<open>x, err := m(); if err != nil { return fmt.Errorf(msg, err) }; k(x)\<close>.
\<close>

unbundle bit_operations_syntax

named_theorems wire_simps \<open>unfolding the wire encoders into little-endian dwords\<close>
named_theorems wire_len \<open>lengths of the wire encodings\<close>
named_theorems io_simps \<open>evaluation of the input/output combinators\<close>

section \<open>Machine integers and bytes\<close>

type_synonym byte = "8 word"
type_synonym u16 = "16 word"
type_synonym u32 = "32 word"
type_synonym u64 = "64 word"
type_synonym goint = "64 word"
type_synonym bytes = "8 word list"

definition le16 :: "u16 \<Rightarrow> bytes" where
  "le16 v = [ucast v, ucast (drop_bit 8 v)]"

definition le32 :: "u32 \<Rightarrow> bytes" where
  "le32 v = [ucast v, ucast (drop_bit 8 v), ucast (drop_bit 16 v), ucast (drop_bit 24 v)]"

definition le64 :: "u64 \<Rightarrow> bytes" where
  "le64 v = [ucast v, ucast (drop_bit 8 v), ucast (drop_bit 16 v), ucast (drop_bit 24 v),
     ucast (drop_bit 32 v), ucast (drop_bit 40 v), ucast (drop_bit 48 v), ucast (drop_bit 56 v)]"

text \<open>The readers of \<open>binary.LittleEndian\<close>: they panic on a short slice, so every caller in
  the model passes a slice whose length is checked or fixed.\<close>

definition get16 :: "bytes \<Rightarrow> u16" where
  "get16 b = ucast (b ! 0) OR push_bit 8 (ucast (b ! 1))"

definition get32 :: "bytes \<Rightarrow> u32" where
  "get32 b = ucast (b ! 0) OR push_bit 8 (ucast (b ! 1)) OR push_bit 16 (ucast (b ! 2))
     OR push_bit 24 (ucast (b ! 3))"

definition get64 :: "bytes \<Rightarrow> u64" where
  "get64 b = ucast (b ! 0) OR push_bit 8 (ucast (b ! 1)) OR push_bit 16 (ucast (b ! 2))
     OR push_bit 24 (ucast (b ! 3)) OR push_bit 32 (ucast (b ! 4)) OR push_bit 40 (ucast (b ! 5))
     OR push_bit 48 (ucast (b ! 6)) OR push_bit 56 (ucast (b ! 7))"

lemma length_le [simp, wire_len]:
  "length (le16 v) = 2" "length (le32 w) = 4" "length (le64 x) = 8"
  by (simp_all add: le16_def le32_def le64_def)

lemma get16_le16 [simp]: "get16 (le16 v @ r) = v"
  by (rule bit_word_eqI) (auto simp: get16_def le16_def bit_simps)

text \<open>A byte of a word, moved back to its place, contributes exactly its own eight bits.\<close>

lemma bit_byte_lane:
  fixes v :: "'a::len word"
  assumes "k + 8 \<le> LENGTH('a)"
  shows "bit (push_bit k (ucast (ucast (drop_bit k v) :: byte)) :: 'a word) n
    \<longleftrightarrow> k \<le> n \<and> n < k + 8 \<and> bit v n"
proof (cases "k \<le> n \<and> n < k + 8")
  case True
  then have "k + (n - k) = n" "n - k < 8" "n < LENGTH('a)" using assms by auto
  with True show ?thesis by (simp add: bit_simps)
next
  case False
  then show ?thesis by (auto simp: bit_simps)
qed

lemma get32_le32 [simp]: "get32 (le32 v @ r) = v"
proof (rule bit_word_eqI)
  fix n assume "n < LENGTH(32)"
  then show "bit (get32 (le32 v @ r)) n = bit v n"
    using bit_byte_lane[of 0 v n]
    by (simp add: get32_def le32_def bit_or_iff bit_byte_lane) (auto simp: bit_simps)
qed

lemma get64_le64 [simp]: "get64 (le64 v @ r) = v"
proof (rule bit_word_eqI)
  fix n assume "n < LENGTH(64)"
  then show "bit (get64 (le64 v @ r)) n = bit v n"
    using bit_byte_lane[of 0 v n]
    by (simp add: get64_def le64_def bit_or_iff bit_byte_lane) (auto simp: bit_simps)
qed

lemma not_bit_byte [simp]: "8 \<le> m \<Longrightarrow> \<not> bit (a :: byte) m"
  using bit_imp_le_length[of a m] by auto

text \<open>The other direction: four bytes are recovered from the dword they spell.\<close>

lemma le32_get32 [simp]: "le32 (get32 (a # b # c # d # r)) = [a, b, c, d]"
proof -
  have lane: "ucast (drop_bit k (get32 (a # b # c # d # r))) = x"
    if "(k, x) \<in> {(0, a), (8, b), (16, c), (24, d)}" for k and x :: byte
    using that by (auto intro!: bit_word_eqI simp: get32_def bit_simps)
  show ?thesis
    using lane[of 0 a] lane[of 8 b] lane[of 16 c] lane[of 24 d] by (simp add: le32_def)
qed

lemma le64_get64 [simp]: "le64 (get64 (a # b # c # d # e # f # g # h # r)) = [a, b, c, d, e, f, g, h]"
proof -
  have lane: "ucast (drop_bit k (get64 (a # b # c # d # e # f # g # h # r))) = x"
    if "(k, x) \<in> {(0, a), (8, b), (16, c), (24, d), (32, e), (40, f), (48, g), (56, h)}" for k and x :: byte
    using that by (auto intro!: bit_word_eqI simp: get64_def bit_simps)
  show ?thesis
    using lane[of 0 a] lane[of 8 b] lane[of 16 c] lane[of 24 d] lane[of 32 e] lane[of 40 f]
      lane[of 48 g] lane[of 56 h] by (simp add: le64_def)
qed

lemma le32_get32_take: "4 \<le> length b \<Longrightarrow> le32 (get32 (take 4 b)) = take 4 b"
  by (auto simp: numeral_eq_Suc Suc_le_length_iff)

lemma le64_get64_take: "8 \<le> length b \<Longrightarrow> le64 (get64 (take 8 b)) = take 8 b"
  by (auto simp: numeral_eq_Suc Suc_le_length_iff)

lemma get_le_alone [simp]: "get16 (le16 v) = v" "get32 (le32 w) = w" "get64 (le64 x) = x"
  using get16_le16[of v "[]"] get32_le32[of w "[]"] get64_le64[of x "[]"] by simp_all

text \<open>A 64-bit value sent as two dwords, low half first.\<close>

lemma join_halves:
  fixes v :: u64
  shows "ucast (ucast v :: u32) OR push_bit 32 (ucast (ucast (drop_bit 32 v) :: u32)) = v"
proof (rule bit_word_eqI)
  fix n assume "n < LENGTH(64)"
  then show "bit (ucast (ucast v :: u32) OR push_bit 32 (ucast (ucast (drop_bit 32 v) :: u32)) :: u64) n
      = bit v n"
    by (cases "n < 32") (auto simp: bit_simps)
qed

lemma ucast_u64_u32 [simp]: "ucast (ucast (x :: u32) :: u64) = x"
  by (rule bit_word_eqI) (auto simp: bit_simps)

lemma unat_of_nat_u32 [simp]: "n < 2 ^ 32 \<Longrightarrow> unat (of_nat n :: u32) = n"
  by (simp add: unat_of_nat take_bit_nat_eq_self)

lemma unat_u32_less [simp]: "unat (w :: u32) < 4294967296"
  using unsigned_less[of w, where 'a = nat] by simp

lemma unat_minus1_u32 [simp]: "unat (- 1 :: u32) = 4294967295"
  by (simp add: unsigned_minus_1_eq_mask mask_eq_exp_minus_1)

lemma unat_of_nat_u64 [simp]: "n < 2 ^ 64 \<Longrightarrow> unat (of_nat n :: u64) = n"
  by (simp add: unat_of_nat take_bit_nat_eq_self)

section \<open>Errors, results and the input/output monad\<close>

datatype farg = ANum int | AStr string | ABytes bytes | ABool bool | AErr go_error
and go_error = EOF | ErrUnexpectedEOF | Errno nat | Errorf string "farg list"

datatype 'a res = Ok 'a | Err go_error | Panic

type_synonym ('s, 'a) io = "'s \<Rightarrow> ('a res \<times> 's) option"

definition return_io :: "'a \<Rightarrow> ('s, 'a) io" where
  "return_io x = (\<lambda>s. Some (Ok x, s))"

definition fail_io :: "go_error \<Rightarrow> ('s, 'a) io" where
  "fail_io e = (\<lambda>s. Some (Err e, s))"

definition panic_io :: "('s, 'a) io" where
  "panic_io = (\<lambda>s. Some (Panic, s))"

definition try_with :: "(go_error \<Rightarrow> go_error) \<Rightarrow> ('s, 'a) io \<Rightarrow> ('a \<Rightarrow> ('s, 'b) io) \<Rightarrow> ('s, 'b) io" where
  "try_with wrap m k = (\<lambda>s. case m s of
     None \<Rightarrow> None
   | Some (Ok x, s') \<Rightarrow> k x s'
   | Some (Err e, s') \<Rightarrow> Some (Err (wrap e), s')
   | Some (Panic, s') \<Rightarrow> Some (Panic, s'))"

definition errorf1 :: "string \<Rightarrow> go_error \<Rightarrow> go_error" where
  "errorf1 fmt e = Errorf fmt [AErr e]"

abbreviation try_io :: "string \<Rightarrow> ('s, 'a) io \<Rightarrow> ('a \<Rightarrow> ('s, 'b) io) \<Rightarrow> ('s, 'b) io" where
  "try_io fmt \<equiv> try_with (errorf1 fmt)"

abbreviation bind_io :: "('s, 'a) io \<Rightarrow> ('a \<Rightarrow> ('s, 'b) io) \<Rightarrow> ('s, 'b) io" where
  "bind_io \<equiv> try_with id"

text \<open>The other idiom, for functions that return a result beside the error:
  \<open>x, err := m(); if err != nil { return h(err) }; k(x)\<close>.\<close>

definition check_io :: "('s, 'a) io \<Rightarrow> (go_error \<Rightarrow> ('s, 'b) io) \<Rightarrow> ('a \<Rightarrow> ('s, 'b) io) \<Rightarrow> ('s, 'b) io" where
  "check_io m h k = (\<lambda>s. case m s of
     None \<Rightarrow> None
   | Some (Ok x, s') \<Rightarrow> k x s'
   | Some (Err e, s') \<Rightarrow> h e s'
   | Some (Panic, s') \<Rightarrow> Some (Panic, s'))"

lemma io_apply [simp, io_simps]:
  "return_io x s = Some (Ok x, s)" "fail_io e s = Some (Err e, s)" "panic_io s = Some (Panic, s)"
  by (simp_all add: return_io_def fail_io_def panic_io_def)

lemma try_with_Ok [simp, io_simps]: "m s = Some (Ok x, s') \<Longrightarrow> try_with w m k s = k x s'"
  by (simp add: try_with_def)

lemma try_with_Err [simp, io_simps]:
  "m s = Some (Err e, s') \<Longrightarrow> try_with w m k s = Some (Err (w e), s')"
  by (simp add: try_with_def)

lemma try_with_Panic [simp, io_simps]: "m s = Some (Panic, s') \<Longrightarrow> try_with w m k s = Some (Panic, s')"
  by (simp add: try_with_def)

text \<open>Inversion of a successful run: the first computation succeeded and so did the rest.\<close>

lemma try_with_OkE:
  assumes "try_with w m k s = Some (Ok y, t)"
  obtains x s' where "m s = Some (Ok x, s')" "k x s' = Some (Ok y, t)"
  using assms by (auto simp: try_with_def split: option.splits prod.splits res.splits)

text \<open>A run that ends without an error passed every check: no handler returns a nil error.\<close>

lemma check_io_OkE:
  assumes "check_io m h k s = Some (Ok (r, None), t)" "\<And>e s' r t. h e s' \<noteq> Some (Ok (r, None), t)"
  obtains x s' where "m s = Some (Ok x, s')" "k x s' = Some (Ok (r, None), t)"
  using assms by (auto simp: check_io_def split: option.splits prod.splits res.splits)

text \<open>
  Total correctness of a computation: it returns, and its outcome and final state satisfy \<open>Q\<close>.
\<close>

definition wp :: "('s, 'a) io \<Rightarrow> ('a res \<Rightarrow> 's \<Rightarrow> bool) \<Rightarrow> 's \<Rightarrow> bool" where
  "wp m Q s \<longleftrightarrow> (case m s of None \<Rightarrow> False | Some (r, s') \<Rightarrow> Q r s')"

lemma wp_run: "wp m Q s \<longleftrightarrow> (\<exists>r s'. m s = Some (r, s') \<and> Q r s')"
  by (auto simp: wp_def split: option.splits)

lemma wp_return [simp]: "wp (return_io x) Q s \<longleftrightarrow> Q (Ok x) s"
  by (simp add: wp_def)

lemma wp_fail [simp]: "wp (fail_io e) Q s \<longleftrightarrow> Q (Err e) s"
  by (simp add: wp_def)

lemma wp_try: "wp (try_with w m k) Q s \<longleftrightarrow>
    wp m (\<lambda>r s'. case r of Ok x \<Rightarrow> wp (k x) Q s' | Err e \<Rightarrow> Q (Err (w e)) s' | Panic \<Rightarrow> Q Panic s') s"
  by (auto simp: wp_def try_with_def split: option.splits prod.splits res.splits)

lemma wp_mono: "wp m P s \<Longrightarrow> (\<And>r s'. P r s' \<Longrightarrow> Q r s') \<Longrightarrow> wp m Q s"
  by (auto simp: wp_def split: option.splits)

text \<open>Sequential composition when the first computation is known to succeed.\<close>

lemma wp_try_Ok:
  assumes "wp m (\<lambda>r s'. \<exists>x. r = Ok x \<and> P x s') s" "\<And>x s'. P x s' \<Longrightarrow> wp (k x) Q s'"
  shows "wp (try_with w m k) Q s"
  unfolding wp_try using assms by (elim wp_mono) auto

lemma wp_try_Err:
  assumes "wp m (\<lambda>r s'. \<exists>e. r = Err e \<and> P e s') s" "\<And>e s'. P e s' \<Longrightarrow> Q (Err (w e)) s'"
  shows "wp (try_with w m k) Q s"
  unfolding wp_try using assms by (elim wp_mono) auto

section \<open>Slices\<close>

text \<open>\<open>xs[lo:hi]\<close>; \<open>None\<close> is the run-time panic of a bound out of range.\<close>

definition go_slice :: "nat \<Rightarrow> nat \<Rightarrow> 'a list \<Rightarrow> 'a list option" where
  "go_slice lo hi xs = (if lo \<le> hi \<and> hi \<le> length xs then Some (take (hi - lo) (drop lo xs)) else None)"

text \<open>\<open>copy(m[off:], src)\<close> with \<open>src\<close> already cut to the space left.\<close>

definition blit :: "nat \<Rightarrow> 'a list \<Rightarrow> 'a list \<Rightarrow> 'a list" where
  "blit off src m = take off m @ src @ drop (off + length src) m"

lemma length_blit [simp]: "off + length src \<le> length m \<Longrightarrow> length (blit off src m) = length m"
  by (simp add: blit_def)

lemma nth_blit:
  assumes "off + length src \<le> length m" "i < length m"
  shows "blit off src m ! i = (if off \<le> i \<and> i < off + length src then src ! (i - off) else m ! i)"
  using assms by (auto simp: blit_def nth_append)

lemma blit_Nil [simp]: "blit off [] m = m"
  by (simp add: blit_def)

lemma sub_blit [simp]:
  assumes "off + length src \<le> length m"
  shows "take (length src) (drop off (blit off src m)) = src"
  using assms by (simp add: blit_def)

text \<open>A window that a write does not touch reads as before.\<close>

lemma sub_blit_other:
  assumes "off + length src \<le> length m" "a + n \<le> length m" "a + n \<le> off \<or> off + length src \<le> a"
  shows "take n (drop a (blit off src m)) = take n (drop a m)"
  using assms by (intro nth_equalityI) (auto simp: nth_blit)

end
