(* ===== verification/Codec.thy ===== *)
theory Codec
  imports Go_Base
begin

text \<open>
  Encoders and decoders of byte streams. \<open>codec\<close> is the contract between the program's
  encoders and a reader of the wire: what was encoded is decoded back and the rest of the
  stream is left untouched. Its lemmas (injectivity, unique decoding of a sequence) are
  proved once here; every encoder of the program is an interpretation of it.
\<close>

section \<open>Decoders\<close>

definition dec32 :: "bytes \<Rightarrow> (u32 \<times> bytes) option" where
  "dec32 b = (if length b < 4 then None else Some (get32 b, drop 4 b))"

definition dec64 :: "bytes \<Rightarrow> (u64 \<times> bytes) option" where
  "dec64 b = (if length b < 8 then None else Some (get64 b, drop 8 b))"

definition dec_raw :: "nat \<Rightarrow> bytes \<Rightarrow> (bytes \<times> bytes) option" where
  "dec_raw n b = (if length b < n then None else Some (take n b, drop n b))"

fun dec_many :: "(bytes \<Rightarrow> ('a \<times> bytes) option) \<Rightarrow> nat \<Rightarrow> bytes \<Rightarrow> ('a list \<times> bytes) option" where
  "dec_many dec 0 b = Some ([], b)"
| "dec_many dec (Suc n) b = do {
     (x, b1) \<leftarrow> dec b;
     (xs, b2) \<leftarrow> dec_many dec n b1;
     Some (x # xs, b2) }"

section \<open>The contract\<close>

locale codec =
  fixes enc :: "'a \<Rightarrow> bytes"
    and dec :: "bytes \<Rightarrow> ('a \<times> bytes) option"
    and ok :: "'a \<Rightarrow> bool"
  assumes dec_enc: "ok x \<Longrightarrow> dec (enc x @ r) = Some (x, r)"
begin

lemma dec_enc_alone: "ok x \<Longrightarrow> dec (enc x) = Some (x, [])"
  using dec_enc[of x "[]"] by simp

lemma enc_append_inj:
  assumes "ok x" "ok y" "enc x @ r = enc y @ q"
  shows "x = y \<and> r = q"
proof -
  have "Some (x, r) = dec (enc y @ q)"
    using assms(1) dec_enc[of x r] by (simp only: assms(3))
  also have "\<dots> = Some (y, q)" by (rule dec_enc[OF assms(2)])
  finally show ?thesis by simp
qed

lemma dec_many_concat:
  assumes "\<forall>x\<in>set xs. ok x"
  shows "dec_many dec (length xs) (concat (map enc xs) @ r) = Some (xs, r)"
  using assms by (induction xs) (simp_all add: dec_enc)

end

text \<open>When no encoding is empty, a whole session determines the sequence of messages.\<close>

locale framed_codec = codec +
  assumes enc_nonempty: "ok x \<Longrightarrow> enc x \<noteq> []"
begin

lemma session_inj:
  assumes "\<forall>x\<in>set xs. ok x" "\<forall>y\<in>set ys. ok y" "concat (map enc xs) = concat (map enc ys)"
  shows "xs = ys"
  using assms
proof (induction xs arbitrary: ys)
  case Nil
  then show ?case using enc_nonempty by (cases ys) auto
next
  case (Cons x xs)
  then obtain y ys' where ys: "ys = y # ys'"
    using enc_nonempty[of x] by (cases ys) auto
  have "x = y \<and> concat (map enc xs) = concat (map enc ys')"
    using Cons.prems by (intro enc_append_inj) (simp_all only: ys list.map concat.simps list.set_intros)
  with Cons.IH[of ys'] Cons.prems(1,2) ys show ?case by simp
qed

end

section \<open>Fixed-width integers\<close>

interpretation c32: framed_codec le32 dec32 "\<lambda>_. True"
  by unfold_locales (simp_all add: dec32_def flip: length_0_conv)

interpretation c64: framed_codec le64 dec64 "\<lambda>_. True"
  by unfold_locales (simp_all add: dec64_def flip: length_0_conv)

lemmas dec_le [simp] = c32.dec_enc[simplified] c64.dec_enc[simplified]
  c32.dec_enc_alone[simplified] c64.dec_enc_alone[simplified]

lemma dec_raw_append [simp]: "length xs = n \<Longrightarrow> dec_raw n (xs @ r) = Some (xs, r)"
  by (simp add: dec_raw_def)

text \<open>A block of dwords, read back by position.\<close>

lemma length_concat_le32 [simp]: "length (concat (map le32 ws)) = 4 * length ws"
  by (induction ws) auto

lemma get32_nth_dword:
  "i < length ws \<Longrightarrow> get32 (take 4 (drop (i * 4) (concat (map le32 ws)))) = ws ! i"
proof (induction ws arbitrary: i)
  case (Cons w ws)
  then show ?case by (cases i) (auto simp: add.commute)
qed simp

end
