(* ===== verification/Vtest_Wire.thy ===== *)
theory Vtest_Wire
  imports Codec
begin

text \<open>
  The vtest wire format: the constants of \<open>vtest/protocol.go\<close> and \<open>vtest/venus.go\<close> and every
  \<open>encode*\<close> function of \<open>vtest/client.go\<close> and \<open>vtest/venus.go\<close>, as functions from their
  arguments to the bytes they build. The second half states what the server reads (the layouts
  quoted in the comments of those files) as a parser, and shows that the encoders and the
  parser are inverse to each other on every command, alone and in a session.
\<close>

section \<open>Constants\<close>

definition hdrSize :: nat where "hdrSize = 2"
definition hdrBytes :: nat where "hdrBytes = hdrSize * 4"

definition VcmdGetCaps :: u32 where "VcmdGetCaps = 1"
definition VcmdResourceCreate :: u32 where "VcmdResourceCreate = 2"
definition VcmdResourceUnref :: u32 where "VcmdResourceUnref = 3"
definition VcmdTransferGet :: u32 where "VcmdTransferGet = 4"
definition VcmdTransferPut :: u32 where "VcmdTransferPut = 5"
definition VcmdSubmitCmd :: u32 where "VcmdSubmitCmd = 6"
definition VcmdResourceBusyWait :: u32 where "VcmdResourceBusyWait = 7"
definition VcmdCreateRenderer :: u32 where "VcmdCreateRenderer = 8"
definition VcmdGetCaps2 :: u32 where "VcmdGetCaps2 = 9"
definition VcmdPingProtocolVersion :: u32 where "VcmdPingProtocolVersion = 10"
definition VcmdProtocolVersion :: u32 where "VcmdProtocolVersion = 11"
definition VcmdResourceCreate2 :: u32 where "VcmdResourceCreate2 = 12"
definition VcmdTransferGet2 :: u32 where "VcmdTransferGet2 = 13"
definition VcmdTransferPut2 :: u32 where "VcmdTransferPut2 = 14"
definition VcmdGetParam :: u32 where "VcmdGetParam = 15"
definition VcmdGetCapset :: u32 where "VcmdGetCapset = 16"
definition VcmdContextInit :: u32 where "VcmdContextInit = 17"
definition VcmdResourceCreateBlob :: u32 where "VcmdResourceCreateBlob = 18"
definition VcmdSyncCreate :: u32 where "VcmdSyncCreate = 19"
definition VcmdSyncUnref :: u32 where "VcmdSyncUnref = 20"
definition VcmdSyncRead :: u32 where "VcmdSyncRead = 21"
definition VcmdSyncWrite :: u32 where "VcmdSyncWrite = 22"
definition VcmdSyncWait :: u32 where "VcmdSyncWait = 23"
definition VcmdSubmitCmd2 :: u32 where "VcmdSubmitCmd2 = 24"

lemmas vcmd_ids [wire_simps] =
  VcmdGetCaps_def VcmdResourceCreate_def VcmdResourceUnref_def VcmdTransferGet_def
  VcmdTransferPut_def VcmdSubmitCmd_def VcmdResourceBusyWait_def VcmdCreateRenderer_def
  VcmdGetCaps2_def VcmdPingProtocolVersion_def VcmdProtocolVersion_def VcmdResourceCreate2_def
  VcmdTransferGet2_def VcmdTransferPut2_def VcmdGetParam_def VcmdGetCapset_def
  VcmdContextInit_def VcmdResourceCreateBlob_def VcmdSyncCreate_def VcmdSyncUnref_def
  VcmdSyncRead_def VcmdSyncWrite_def VcmdSyncWait_def VcmdSubmitCmd2_def

definition VtestProtocolVersion :: u32 where "VtestProtocolVersion = 2"
definition DefaultSocketName :: string where "DefaultSocketName = ''/tmp/.virgl_test''"
definition vcmdResCreateSize :: u32 where "vcmdResCreateSize = 10"
definition vcmdTransferHdrSize :: u32 where "vcmdTransferHdrSize = 11"
definition vcmdProtocolVersionSize :: u32 where "vcmdProtocolVersionSize = 1"

definition VtestProtocolVersionVenus :: u32 where "VtestProtocolVersionVenus = 3"
definition VcmdParamMaxTimelineCount :: u32 where "VcmdParamMaxTimelineCount = 1"
definition CapsetVenus :: u32 where "CapsetVenus = 4"
definition BlobTypeGuest :: u32 where "BlobTypeGuest = 1"
definition BlobTypeHost3D :: u32 where "BlobTypeHost3D = 2"
definition BlobTypeHost3DGuest :: u32 where "BlobTypeHost3DGuest = 3"
definition BlobFlagMappable :: u32 where "BlobFlagMappable = push_bit 0 1"
definition BlobFlagShareable :: u32 where "BlobFlagShareable = push_bit 1 1"
definition BlobFlagCrossDevice :: u32 where "BlobFlagCrossDevice = push_bit 2 1"
definition SubmitCmd2FlagRingIdx :: u32 where "SubmitCmd2FlagRingIdx = push_bit 0 1"
definition vcmdGetParamSize :: u32 where "vcmdGetParamSize = 1"
definition vcmdGetCapsetSize :: u32 where "vcmdGetCapsetSize = 2"
definition vcmdContextInitSize :: u32 where "vcmdContextInitSize = 1"
definition vcmdResCreateBlobSize :: u32 where "vcmdResCreateBlobSize = 6"
definition submitCmd2BatchDwords :: nat where "submitCmd2BatchDwords = 8"

lemmas size_consts [wire_simps] =
  vcmdResCreateSize_def vcmdTransferHdrSize_def vcmdProtocolVersionSize_def vcmdGetParamSize_def
  vcmdGetCapsetSize_def vcmdContextInitSize_def vcmdResCreateBlobSize_def submitCmd2BatchDwords_def

section \<open>Strings as byte slices\<close>

text \<open>\<open>[]byte(s)\<close> and \<open>string(b)\<close>: a Go string is a sequence of bytes.\<close>

definition go_bytes :: "string \<Rightarrow> bytes" where
  "go_bytes s = map (\<lambda>c. of_nat (of_char c)) s"

definition go_string :: "bytes \<Rightarrow> string" where
  "go_string b = map (\<lambda>x. char_of (unat x)) b"

lemma length_go_bytes [simp, wire_len]: "length (go_bytes s) = length s"
  by (simp add: go_bytes_def)

lemma go_string_go_bytes [simp]: "go_string (go_bytes s) = s"
proof -
  have "char_of (unat (of_nat (of_char c) :: byte)) = c" for c :: char
    by (simp add: unat_of_nat take_bit_nat_eq_self)
  then show ?thesis by (simp add: go_bytes_def go_string_def comp_def)
qed

section \<open>Encoders of client.go\<close>

record ResourceCreateArgs =
  rc_Handle :: u32
  rc_Target :: u32
  rc_Format :: u32
  rc_Bind :: u32
  rc_Width :: u32
  rc_Height :: u32
  rc_Depth :: u32
  rc_ArraySize :: u32
  rc_LastLevel :: u32
  rc_NrSamples :: u32

record TransferGetArgs =
  tg_Handle :: u32
  tg_Level :: u32
  tg_Stride :: u32
  tg_LayerStride :: u32
  tg_X :: u32
  tg_Y :: u32
  tg_Z :: u32
  tg_Width :: u32
  tg_Height :: u32
  tg_Depth :: u32
  tg_DataSize :: u32

definition encodeHeader :: "u32 \<Rightarrow> u32 \<Rightarrow> bytes" where
  "encodeHeader lengthDwords cmdID = le32 lengthDwords @ le32 cmdID"

definition encodePingProtocolVersion :: bytes where
  "encodePingProtocolVersion = encodeHeader 0 VcmdPingProtocolVersion"

definition encodeProtocolVersion :: "u32 \<Rightarrow> bytes" where
  "encodeProtocolVersion version =
     encodeHeader vcmdProtocolVersionSize VcmdProtocolVersion @ le32 version"

definition encodeCreateRenderer :: "string \<Rightarrow> bytes" where
  "encodeCreateRenderer name = (let raw = go_bytes name in
     encodeHeader (of_nat (length raw)) VcmdCreateRenderer @ raw)"

definition encodeResourceCreate :: "ResourceCreateArgs \<Rightarrow> bytes" where
  "encodeResourceCreate a = encodeHeader vcmdResCreateSize VcmdResourceCreate
     @ le32 (rc_Handle a) @ le32 (rc_Target a) @ le32 (rc_Format a) @ le32 (rc_Bind a)
     @ le32 (rc_Width a) @ le32 (rc_Height a) @ le32 (rc_Depth a) @ le32 (rc_ArraySize a)
     @ le32 (rc_LastLevel a) @ le32 (rc_NrSamples a)"

definition encodeSubmitCmd :: "bytes \<Rightarrow> bytes res" where
  "encodeSubmitCmd cmdBuf =
     (if length cmdBuf mod 4 \<noteq> 0
      then Err (Errorf ''vtest: submit cmd buffer length %d not a multiple of 4'' [ANum (int (length cmdBuf))])
      else Ok (encodeHeader (of_nat (length cmdBuf div 4)) VcmdSubmitCmd @ cmdBuf))"

text \<open>The eleven transfer dwords, shared by the put and the get command.\<close>

definition transfer_fields :: "TransferGetArgs \<Rightarrow> bytes" where
  "transfer_fields a =
     le32 (tg_Handle a) @ le32 (tg_Level a) @ le32 (tg_Stride a) @ le32 (tg_LayerStride a)
     @ le32 (tg_X a) @ le32 (tg_Y a) @ le32 (tg_Z a) @ le32 (tg_Width a) @ le32 (tg_Height a)
     @ le32 (tg_Depth a) @ le32 (tg_DataSize a)"

definition encodeTransferPut :: "TransferGetArgs \<Rightarrow> bytes \<Rightarrow> bytes" where
  "encodeTransferPut a data = (let totalDwords = vcmdTransferHdrSize + of_nat (length data) div 4 in
     encodeHeader totalDwords VcmdTransferPut @ transfer_fields a @ data)"

definition encodeTransferGet :: "TransferGetArgs \<Rightarrow> bytes" where
  "encodeTransferGet a = encodeHeader vcmdTransferHdrSize VcmdTransferGet @ transfer_fields a"

section \<open>Encoders of venus.go\<close>

definition encodeGetParam :: "u32 \<Rightarrow> bytes" where
  "encodeGetParam param = encodeHeader vcmdGetParamSize VcmdGetParam @ le32 param"

definition encodeGetCapset :: "u32 \<Rightarrow> u32 \<Rightarrow> bytes" where
  "encodeGetCapset capsetID version =
     encodeHeader vcmdGetCapsetSize VcmdGetCapset @ le32 capsetID @ le32 version"

definition encodeContextInit :: "u32 \<Rightarrow> bytes" where
  "encodeContextInit capsetID = encodeHeader vcmdContextInitSize VcmdContextInit @ le32 capsetID"

definition encodeResourceCreateBlob :: "u32 \<Rightarrow> u32 \<Rightarrow> u64 \<Rightarrow> u64 \<Rightarrow> bytes" where
  "encodeResourceCreateBlob blobType flags sz blobID =
     encodeHeader vcmdResCreateBlobSize VcmdResourceCreateBlob
     @ le32 blobType @ le32 flags
     @ le32 (ucast sz) @ le32 (ucast (drop_bit 32 sz))
     @ le32 (ucast blobID) @ le32 (ucast (drop_bit 32 blobID))"

record SubmitCmd2Sync =
  sy_ID :: u32
  sy_Value :: u64

record SubmitCmd2Batch =
  sb_Flags :: u32
  sb_RingIdx :: u32
  sb_Syncs :: "SubmitCmd2Sync list"
  sb_CmdData :: bytes

definition encodeSync :: "SubmitCmd2Sync \<Rightarrow> bytes" where
  "encodeSync s = le32 (sy_ID s) @ le32 (ucast (sy_Value s)) @ le32 (ucast (drop_bit 32 (sy_Value s)))"

definition encodeSubmitCmd2 :: "SubmitCmd2Batch \<Rightarrow> bytes res" where
  "encodeSubmitCmd2 batch =
     (if length (sb_CmdData batch) mod 4 \<noteq> 0
      then Err (Errorf ''vtest: submit_cmd2 cmd data length %d not dword-aligned''
                  [ANum (int (length (sb_CmdData batch)))])
      else
        let headerDwords = (of_nat (1 + submitCmd2BatchDwords) :: u32);
            cmdDwords = of_nat (length (sb_CmdData batch) div 4);
            syncDwords = of_nat (length (sb_Syncs batch) * 3);
            totalDwords = headerDwords + cmdDwords + syncDwords;
            cmdOffset = headerDwords;
            syncOffset = cmdOffset + cmdDwords
        in Ok (encodeHeader totalDwords VcmdSubmitCmd2
             @ le32 1
             @ le32 (sb_Flags batch) @ le32 cmdOffset @ le32 cmdDwords @ le32 syncOffset
             @ le32 (of_nat (length (sb_Syncs batch))) @ le32 (sb_RingIdx batch) @ le32 0 @ le32 0
             @ sb_CmdData batch
             @ concat (map encodeSync (sb_Syncs batch))))"

section \<open>What the server reads\<close>

text \<open>
  The commands as the server sees them, and the parser the documented layouts describe: two
  header dwords (length, command id), then the payload. The length is a byte count for
  \<open>CREATE_RENDERER\<close> and a dword count otherwise; the put command block-reads \<open>DATA_SIZE\<close>
  bytes; a \<open>SUBMIT_CMD2\<close> payload is indexed by the dword offsets of its batch header.
\<close>

datatype vcmd =
    CmdCreateRenderer string
  | CmdPing
  | CmdProtocolVersion u32
  | CmdResourceCreate ResourceCreateArgs
  | CmdSubmit bytes
  | CmdTransferPut TransferGetArgs bytes
  | CmdTransferGet TransferGetArgs
  | CmdGetParam u32
  | CmdGetCapset u32 u32
  | CmdContextInit u32
  | CmdResourceCreateBlob u32 u32 u64 u64
  | CmdSubmit2 SubmitCmd2Batch

definition res_bytes :: "bytes res \<Rightarrow> bytes" where
  "res_bytes r = (case r of Ok b \<Rightarrow> b | _ \<Rightarrow> [])"

fun encode_vcmd :: "vcmd \<Rightarrow> bytes" where
  "encode_vcmd (CmdCreateRenderer name) = encodeCreateRenderer name"
| "encode_vcmd CmdPing = encodePingProtocolVersion"
| "encode_vcmd (CmdProtocolVersion v) = encodeProtocolVersion v"
| "encode_vcmd (CmdResourceCreate a) = encodeResourceCreate a"
| "encode_vcmd (CmdSubmit b) = res_bytes (encodeSubmitCmd b)"
| "encode_vcmd (CmdTransferPut a d) = encodeTransferPut a d"
| "encode_vcmd (CmdTransferGet a) = encodeTransferGet a"
| "encode_vcmd (CmdGetParam p) = encodeGetParam p"
| "encode_vcmd (CmdGetCapset i v) = encodeGetCapset i v"
| "encode_vcmd (CmdContextInit c) = encodeContextInit c"
| "encode_vcmd (CmdResourceCreateBlob t f s b) = encodeResourceCreateBlob t f s b"
| "encode_vcmd (CmdSubmit2 b) = res_bytes (encodeSubmitCmd2 b)"

fun vcmd_ok :: "vcmd \<Rightarrow> bool" where
  "vcmd_ok (CmdCreateRenderer name) = (length name < 2 ^ 32)"
| "vcmd_ok (CmdSubmit b) = (length b mod 4 = 0 \<and> length b div 4 < 2 ^ 32)"
| "vcmd_ok (CmdTransferPut a d) = (unat (tg_DataSize a) = length d)"
| "vcmd_ok (CmdSubmit2 b) = (length (sb_CmdData b) mod 4 = 0 \<and>
     9 + length (sb_CmdData b) div 4 + length (sb_Syncs b) * 3 < 2 ^ 32)"
| "vcmd_ok _ = True"

definition dec_pair64 :: "bytes \<Rightarrow> (u64 \<times> bytes) option" where
  "dec_pair64 b = do {
     (lo, b1) \<leftarrow> dec32 b; (hi, b2) \<leftarrow> dec32 b1;
     Some (ucast lo OR push_bit 32 (ucast hi), b2) }"

definition dec_res_create :: "bytes \<Rightarrow> (ResourceCreateArgs \<times> bytes) option" where
  "dec_res_create b = do {
     (ws, r) \<leftarrow> dec_many dec32 10 b;
     Some (\<lparr>rc_Handle = ws ! 0, rc_Target = ws ! 1, rc_Format = ws ! 2, rc_Bind = ws ! 3,
       rc_Width = ws ! 4, rc_Height = ws ! 5, rc_Depth = ws ! 6, rc_ArraySize = ws ! 7,
       rc_LastLevel = ws ! 8, rc_NrSamples = ws ! 9\<rparr>, r) }"

definition dec_transfer :: "bytes \<Rightarrow> (TransferGetArgs \<times> bytes) option" where
  "dec_transfer b = do {
     (ws, r) \<leftarrow> dec_many dec32 11 b;
     Some (\<lparr>tg_Handle = ws ! 0, tg_Level = ws ! 1, tg_Stride = ws ! 2, tg_LayerStride = ws ! 3,
       tg_X = ws ! 4, tg_Y = ws ! 5, tg_Z = ws ! 6, tg_Width = ws ! 7, tg_Height = ws ! 8,
       tg_Depth = ws ! 9, tg_DataSize = ws ! 10\<rparr>, r) }"

definition dec_sync :: "bytes \<Rightarrow> (SubmitCmd2Sync \<times> bytes) option" where
  "dec_sync b = do {
     (i, b1) \<leftarrow> dec32 b; (v, b2) \<leftarrow> dec_pair64 b1;
     Some (\<lparr>sy_ID = i, sy_Value = v\<rparr>, b2) }"

text \<open>The single batch of a \<open>SUBMIT_CMD2\<close> payload, located by its own offsets.\<close>

definition dec_batch :: "bytes \<Rightarrow> SubmitCmd2Batch option" where
  "dec_batch p = do {
     (ws, _) \<leftarrow> dec_many dec32 9 p;
     if ws ! 0 \<noteq> 1 then None else do {
       (cmd, _) \<leftarrow> dec_raw (4 * unat (ws ! 3)) (drop (4 * unat (ws ! 2)) p);
       (syncs, _) \<leftarrow> dec_many dec_sync (unat (ws ! 5)) (drop (4 * unat (ws ! 4)) p);
       Some \<lparr>sb_Flags = ws ! 1, sb_RingIdx = ws ! 6, sb_Syncs = syncs, sb_CmdData = cmd\<rparr> } }"

definition parse_payload :: "u32 \<Rightarrow> u32 \<Rightarrow> bytes \<Rightarrow> (vcmd \<times> bytes) option" where
  "parse_payload len cmd b =
    (if cmd = VcmdCreateRenderer then do { (n, r) \<leftarrow> dec_raw (unat len) b; Some (CmdCreateRenderer (go_string n), r) }
     else if cmd = VcmdPingProtocolVersion \<and> len = 0 then Some (CmdPing, b)
     else if cmd = VcmdProtocolVersion \<and> len = 1 then do { (v, r) \<leftarrow> dec32 b; Some (CmdProtocolVersion v, r) }
     else if cmd = VcmdResourceCreate \<and> len = 10 then do { (a, r) \<leftarrow> dec_res_create b; Some (CmdResourceCreate a, r) }
     else if cmd = VcmdSubmitCmd then do { (d, r) \<leftarrow> dec_raw (4 * unat len) b; Some (CmdSubmit d, r) }
     else if cmd = VcmdTransferPut then do {
       (a, b1) \<leftarrow> dec_transfer b; (d, r) \<leftarrow> dec_raw (unat (tg_DataSize a)) b1; Some (CmdTransferPut a d, r) }
     else if cmd = VcmdTransferGet \<and> len = 11 then do { (a, r) \<leftarrow> dec_transfer b; Some (CmdTransferGet a, r) }
     else if cmd = VcmdGetParam \<and> len = 1 then do { (p, r) \<leftarrow> dec32 b; Some (CmdGetParam p, r) }
     else if cmd = VcmdGetCapset \<and> len = 2 then do {
       (i, b1) \<leftarrow> dec32 b; (v, r) \<leftarrow> dec32 b1; Some (CmdGetCapset i v, r) }
     else if cmd = VcmdContextInit \<and> len = 1 then do { (c, r) \<leftarrow> dec32 b; Some (CmdContextInit c, r) }
     else if cmd = VcmdResourceCreateBlob \<and> len = 6 then do {
       (t, b1) \<leftarrow> dec32 b; (f, b2) \<leftarrow> dec32 b1; (s, b3) \<leftarrow> dec_pair64 b2; (i, r) \<leftarrow> dec_pair64 b3;
       Some (CmdResourceCreateBlob t f s i, r) }
     else if cmd = VcmdSubmitCmd2 then do {
       (p, r) \<leftarrow> dec_raw (4 * unat len) b; x \<leftarrow> dec_batch p; Some (CmdSubmit2 x, r) }
     else None)"

definition parse_vcmd :: "bytes \<Rightarrow> (vcmd \<times> bytes) option" where
  "parse_vcmd b = do { (len, b1) \<leftarrow> dec32 b; (cmd, b2) \<leftarrow> dec32 b1; parse_payload len cmd b2 }"

section \<open>Round trips\<close>

text \<open>Eleven or fewer dwords read back one after the other.\<close>

lemma dec_many_le32:
  "length ws = n \<Longrightarrow> dec_many dec32 n (concat (map le32 ws) @ r) = Some (ws, r)"
  using c32.dec_many_concat[of ws r] by auto

lemma dec_many_Suc:
  "dec_many dec (Suc n) b = do { (x, b1) \<leftarrow> dec b; (xs, b2) \<leftarrow> dec_many dec n b1; Some (x # xs, b2) }"
  by simp

lemma dec_many_numeral [simp]:
  "dec_many dec (numeral k) b = do {
     (x, b1) \<leftarrow> dec b; (xs, b2) \<leftarrow> dec_many dec (pred_numeral k) b1; Some (x # xs, b2) }"
  by (simp only: numeral_eq_Suc dec_many_Suc)

lemma dec_pair64_le [simp]:
  "dec_pair64 (le32 (ucast v) @ le32 (ucast (drop_bit 32 v)) @ r) = Some (v, r)"
  by (simp add: dec_pair64_def join_halves)

lemma dec_res_create_enc [simp]:
  "dec_res_create (drop 8 (encodeResourceCreate a) @ r) = Some (a, r)"
  by (simp add: dec_res_create_def encodeResourceCreate_def encodeHeader_def)

lemma dec_transfer_enc [simp]: "dec_transfer (transfer_fields a @ r) = Some (a, r)"
  by (simp add: dec_transfer_def transfer_fields_def)

lemma length_transfer_fields [simp, wire_len]: "length (transfer_fields a) = 44"
  by (simp add: transfer_fields_def)

lemma length_encodeSync [simp, wire_len]: "length (encodeSync s) = 12"
  by (simp add: encodeSync_def)

interpretation sync_codec: framed_codec encodeSync dec_sync "\<lambda>_. True"
  by unfold_locales (simp_all add: dec_sync_def encodeSync_def flip: length_0_conv)

lemma parse_vcmd_header [simp]: "parse_vcmd (encodeHeader l c @ p) = parse_payload l c p"
  by (simp add: parse_vcmd_def encodeHeader_def)

lemma length_encodeHeader [simp, wire_len]: "length (encodeHeader l c) = 8"
  by (simp add: encodeHeader_def)

lemma unat_plus_small:
  "a + b < 2 ^ 32 \<Longrightarrow> unat (of_nat a + of_nat b :: u32) = a + b"
  using unat_of_nat_u32[of "a + b"] by (simp only: of_nat_add)

text \<open>The batch header of \<open>encodeSubmitCmd2\<close> points at the command stream and at the syncs.\<close>

lemma dec_batch_payload:
  assumes "length cmd mod 4 = 0" "9 + length cmd div 4 + length syncs * 3 < 2 ^ 32"
  shows "dec_batch (le32 1 @ le32 flags @ le32 (of_nat 9) @ le32 (of_nat (length cmd div 4))
      @ le32 (of_nat 9 + of_nat (length cmd div 4)) @ le32 (of_nat (length syncs)) @ le32 idx
      @ le32 0 @ le32 0 @ cmd @ concat (map encodeSync syncs))
    = Some \<lparr>sb_Flags = flags, sb_RingIdx = idx, sb_Syncs = syncs, sb_CmdData = cmd\<rparr>"
    (is "dec_batch ?p = _")
proof -
  have sizes: "unat (of_nat (length cmd div 4) :: u32) = length cmd div 4"
    "unat (of_nat 9 + of_nat (length cmd div 4) :: u32) = 9 + length cmd div 4"
    "unat (of_nat (length syncs) :: u32) = length syncs"
    using assms(2) by (simp_all add: unat_plus_small del: of_nat_numeral)
  have len: "4 * (length cmd div 4) = length cmd" using assms(1) by auto
  have sync: "dec_many dec_sync (length syncs) (concat (map encodeSync syncs)) = Some (syncs, [])"
    using sync_codec.dec_many_concat[of syncs "[]"] by simp
  show ?thesis
    by (simp add: dec_batch_def sizes len sync del: of_nat_numeral)
qed

lemma parse_encode_create: "length name < 2 ^ 32 \<Longrightarrow>
    parse_vcmd (encodeCreateRenderer name @ r) = Some (CmdCreateRenderer name, r)"
  by (simp add: encodeCreateRenderer_def Let_def parse_payload_def)

lemma length_syncs [simp, wire_len]: "length (concat (map encodeSync syncs)) = 12 * length syncs"
  by (induction syncs) auto

lemma parse_encode_submit2:
  assumes "vcmd_ok (CmdSubmit2 b)"
  shows "parse_vcmd (res_bytes (encodeSubmitCmd2 b) @ r) = Some (CmdSubmit2 b, r)"
proof -
  let ?c = "sb_CmdData b" and ?y = "sb_Syncs b"
  from assms have al: "length ?c mod 4 = 0" and bound: "9 + length ?c div 4 + length ?y * 3 < 2 ^ 32"
    by simp_all
  have total: "unat (of_nat 9 + of_nat (length ?c div 4) + of_nat (length ?y * 3) :: u32)
      = 9 + length ?c div 4 + length ?y * 3"
    using bound unat_of_nat_u32[OF bound] by (simp only: of_nat_add)
  have len: "4 * (length ?c div 4) = length ?c" using al by auto
  define p where "p = le32 1 @ le32 (sb_Flags b) @ le32 (of_nat 9) @ le32 (of_nat (length ?c div 4))
      @ le32 (of_nat 9 + of_nat (length ?c div 4)) @ le32 (of_nat (length ?y)) @ le32 (sb_RingIdx b)
      @ le32 0 @ le32 0 @ ?c @ concat (map encodeSync ?y)"
  have enc: "res_bytes (encodeSubmitCmd2 b) =
      encodeHeader (of_nat 9 + of_nat (length ?c div 4) + of_nat (length ?y * 3)) VcmdSubmitCmd2 @ p"
    by (simp add: encodeSubmitCmd2_def al res_bytes_def Let_def submitCmd2BatchDwords_def p_def
        del: of_nat_numeral of_nat_mult)
  have "length p = 36 + length ?c + 12 * length ?y" by (simp add: p_def)
  moreover have "dec_batch p = Some b"
    using dec_batch_payload[OF al bound, of "sb_Flags b" "sb_RingIdx b"] by (simp only: p_def) simp
  ultimately show ?thesis
    by (simp only: enc append_assoc parse_vcmd_header) (simp add: parse_payload_def vcmd_ids total len
        del: of_nat_numeral of_nat_mult)
qed

lemma parse_encode_fixed:
  "parse_vcmd (encodePingProtocolVersion @ r) = Some (CmdPing, r)"
  "parse_vcmd (encodeProtocolVersion v @ r) = Some (CmdProtocolVersion v, r)"
  "parse_vcmd (encodeTransferGet a @ r) = Some (CmdTransferGet a, r)"
  "parse_vcmd (encodeGetParam p @ r) = Some (CmdGetParam p, r)"
  "parse_vcmd (encodeGetCapset i v @ r) = Some (CmdGetCapset i v, r)"
  "parse_vcmd (encodeContextInit c @ r) = Some (CmdContextInit c, r)"
  "parse_vcmd (encodeResourceCreateBlob t f s d @ r) = Some (CmdResourceCreateBlob t f s d, r)"
  by (simp_all add: encodePingProtocolVersion_def encodeProtocolVersion_def encodeTransferGet_def
      encodeGetParam_def encodeGetCapset_def encodeContextInit_def encodeResourceCreateBlob_def
      parse_payload_def wire_simps)

lemma parse_encode_resource: "parse_vcmd (encodeResourceCreate a @ r) = Some (CmdResourceCreate a, r)"
  using dec_res_create_enc[of a r]
  by (simp add: encodeResourceCreate_def parse_payload_def wire_simps)

lemma parse_encode_submit:
  "length b mod 4 = 0 \<Longrightarrow> length b div 4 < 2 ^ 32 \<Longrightarrow>
    parse_vcmd (res_bytes (encodeSubmitCmd b) @ r) = Some (CmdSubmit b, r)"
  by (auto simp: encodeSubmitCmd_def res_bytes_def parse_payload_def vcmd_ids)

lemma parse_encode_put:
  "unat (tg_DataSize a) = length d \<Longrightarrow>
    parse_vcmd (encodeTransferPut a d @ r) = Some (CmdTransferPut a d, r)"
  by (simp add: encodeTransferPut_def Let_def parse_payload_def vcmd_ids)

lemmas parse_encode = parse_encode_create parse_encode_submit2 parse_encode_fixed
  parse_encode_resource parse_encode_submit parse_encode_put

text \<open>The encoders of the program satisfy the codec contract against the server's parser.\<close>

interpretation vtest_codec: framed_codec encode_vcmd parse_vcmd vcmd_ok
proof unfold_locales
  fix x r assume "vcmd_ok x"
  then show "parse_vcmd (encode_vcmd x @ r) = Some (x, r)"
    by (cases x) (simp_all add: parse_encode)
next
  fix x assume ok: "vcmd_ok x"
  show "encode_vcmd x \<noteq> []"
  proof
    assume "encode_vcmd x = []"
    moreover have "parse_vcmd (encode_vcmd x @ []) = Some (x, [])"
      using ok by (cases x) (simp_all only: parse_encode encode_vcmd.simps vcmd_ok.simps)
    ultimately show False by (simp add: parse_vcmd_def dec32_def)
  qed
qed

section \<open>Properties of the wire format\<close>

text \<open>C3. Every command the client can encode is read back by the server's parser with the
  same id and the same arguments, and the parser stops exactly where the next command begins.
  The side condition \<open>vcmd_ok\<close> says that the counts fit their 32-bit fields, that command
  buffers are whole dwords, and that an upload announces its true size.\<close>

theorem vtest_parse_encode:
  assumes "vcmd_ok c"
  shows "parse_vcmd (encode_vcmd c @ rest) = Some (c, rest)"
  using assms by (rule vtest_codec.dec_enc)

theorem vtest_parse_encode_witness:
  "vcmd_ok (CmdSubmit2 \<lparr>sb_Flags = 1, sb_RingIdx = 0, sb_Syncs = [\<lparr>sy_ID = 7, sy_Value = 2 ^ 40\<rparr>],
      sb_CmdData = [1, 2, 3, 4]\<rparr>) \<and>
   parse_vcmd (encode_vcmd (CmdSubmit2 \<lparr>sb_Flags = 1, sb_RingIdx = 0,
      sb_Syncs = [\<lparr>sy_ID = 7, sy_Value = 2 ^ 40\<rparr>], sb_CmdData = [1, 2, 3, 4]\<rparr>) @ [9])
   = Some (CmdSubmit2 \<lparr>sb_Flags = 1, sb_RingIdx = 0, sb_Syncs = [\<lparr>sy_ID = 7, sy_Value = 2 ^ 40\<rparr>],
      sb_CmdData = [1, 2, 3, 4]\<rparr>, [9])"
  by (rule conjI, simp, rule vtest_parse_encode, simp)

text \<open>A whole session is unambiguous: the bytes of a sequence of commands, sent back to
  back, decode into that sequence, and no other sequence of commands has the same bytes.\<close>

theorem vtest_session_decodes:
  assumes "\<forall>c\<in>set cs. vcmd_ok c"
  shows "dec_many parse_vcmd (length cs) (concat (map encode_vcmd cs)) = Some (cs, []) \<and>
    (\<forall>ds. (\<forall>d\<in>set ds. vcmd_ok d) \<longrightarrow>
      concat (map encode_vcmd cs) = concat (map encode_vcmd ds) \<longrightarrow> cs = ds)"
proof (intro conjI allI impI)
  show "dec_many parse_vcmd (length cs) (concat (map encode_vcmd cs)) = Some (cs, [])"
    using vtest_codec.dec_many_concat[OF assms, of "[]"] by (simp only: append_Nil2)
next
  fix ds assume "\<forall>d\<in>set ds. vcmd_ok d" "concat (map encode_vcmd cs) = concat (map encode_vcmd ds)"
  then show "cs = ds" by (rule vtest_codec.session_inj[OF assms])
qed

theorem vtest_session_decodes_witness:
  "let cs = [CmdCreateRenderer ''abc'', CmdPing, CmdSubmit [1, 2, 3, 4]] in
    dec_many parse_vcmd (length cs) (concat (map encode_vcmd cs)) = Some (cs, [])"
  unfolding Let_def by (rule conjunct1[OF vtest_session_decodes]) simp

text \<open>The commands whose header counts payload dwords, with payloads that are whole dwords.\<close>

fun dword_framed :: "vcmd \<Rightarrow> bool" where
  "dword_framed (CmdCreateRenderer _) = False"
| "dword_framed (CmdTransferPut _ d) = (length d mod 4 = 0)"
| "dword_framed _ = True"

text \<open>An upload of a payload that fits the \<open>DATA_SIZE\<close> field keeps its dword count exact.\<close>

lemma put_total_dwords:
  fixes n :: nat
  assumes "n < 2 ^ 32"
  shows "unat (11 + of_nat n div 4 :: u32) = 11 + n div 4"
proof -
  have "unat (of_nat n div 4 :: u32) = n div 4"
    using assms by (simp add: unat_div unat_of_nat take_bit_nat_eq_self)
  moreover have "n div 4 < 2 ^ 30" using assms by auto
  ultimately show ?thesis by (simp add: unat_word_ariths)
qed

text \<open>For every command framed in dwords, the length field of the header is the number of
  dwords that follow the header: a server that skips an unknown command by its length stays
  in step with the stream.\<close>

theorem header_counts_payload:
  assumes "vcmd_ok c" "dword_framed c"
  shows "4 * unat (get32 (encode_vcmd c)) + hdrBytes = length (encode_vcmd c)"
proof (cases c)
  case (CmdTransferPut a d)
  have "length d < 2 ^ 32"
    using assms CmdTransferPut unat_u32_less[of "tg_DataSize a"] by simp
  with assms CmdTransferPut show ?thesis
    by (auto simp: encodeTransferPut_def Let_def encodeHeader_def hdrBytes_def hdrSize_def
        vcmdTransferHdrSize_def put_total_dwords)
next
  case (CmdSubmit2 b)
  let ?c = "sb_CmdData b" and ?y = "sb_Syncs b"
  have "unat (of_nat (9 + length ?c div 4 + length ?y * 3) :: u32) = 9 + length ?c div 4 + length ?y * 3"
    using assms CmdSubmit2 by (intro unat_of_nat_u32) simp
  with assms CmdSubmit2 show ?thesis
    by (auto simp: encodeSubmitCmd2_def res_bytes_def Let_def encodeHeader_def hdrBytes_def
        hdrSize_def submitCmd2BatchDwords_def)
qed (use assms in \<open>auto simp: encodePingProtocolVersion_def encodeProtocolVersion_def
      encodeResourceCreate_def encodeSubmitCmd_def encodeTransferGet_def encodeGetParam_def
      encodeGetCapset_def encodeContextInit_def encodeResourceCreateBlob_def encodeHeader_def
      res_bytes_def hdrBytes_def hdrSize_def size_consts\<close>)

theorem header_counts_payload_witness:
  "vcmd_ok (CmdSubmit [1, 2, 3, 4]) \<and> dword_framed (CmdSubmit [1, 2, 3, 4]) \<and>
   4 * unat (get32 (encode_vcmd (CmdSubmit [1, 2, 3, 4]))) + hdrBytes
     = length (encode_vcmd (CmdSubmit [1, 2, 3, 4]))"
  using header_counts_payload[of "CmdSubmit [1, 2, 3, 4]"] by simp

text \<open>C19. \<open>encodeTransferPut\<close> does not check that the data is a whole number of dwords: for any
  other size its header announces fewer bytes than the packet carries.\<close>

theorem transfer_put_header_truncates:
  assumes "length d mod 4 \<noteq> 0" "length d < 2 ^ 32"
  shows "4 * unat (get32 (encodeTransferPut a d)) + hdrBytes < length (encodeTransferPut a d)"
proof -
  have "4 * (length d div 4) < length d" using assms(1) by presburger
  then show ?thesis
    by (simp add: encodeTransferPut_def Let_def encodeHeader_def hdrBytes_def hdrSize_def
        vcmdTransferHdrSize_def put_total_dwords[OF assms(2)])
qed

theorem transfer_put_header_truncates_witness:
  "\<forall>a. 4 * unat (get32 (encodeTransferPut a [1, 2, 3, 4, 5])) + hdrBytes
     < length (encodeTransferPut a [1, 2, 3, 4, 5])"
  by (intro allI transfer_put_header_truncates) simp_all

text \<open>The two command-buffer encoders refuse exactly the buffers that are not whole dwords,
  and otherwise carry the buffer verbatim.\<close>

theorem submit_encoders_check_alignment:
  "((\<exists>e. encodeSubmitCmd b = Err e) \<longleftrightarrow> length b mod 4 \<noteq> 0)
   \<and> ((\<exists>e. encodeSubmitCmd2 x = Err e) \<longleftrightarrow> length (sb_CmdData x) mod 4 \<noteq> 0)
   \<and> encodeSubmitCmd b \<noteq> Panic \<and> encodeSubmitCmd2 x \<noteq> Panic"
  by (simp add: encodeSubmitCmd_def encodeSubmitCmd2_def Let_def)

end
