(* ===== verification/Venus_CS.thy ===== *)
theory Venus_CS
  imports Vtest_Wire
begin

text \<open>
  The Venus command-stream encoders of \<open>vtest/venuscs.go\<close>: the \<open>csBuilder\<close> primitives and the
  three command streams built from them. A builder is the byte slice it holds. The layouts
  quoted in the comments of that file are stated as decoders, and each encoder is shown to be
  an instance of the \<open>codec\<close> contract; every stream is a whole number of dwords.
\<close>

section \<open>The builder\<close>

type_synonym csBuilder = bytes

definition cmdTypeVkCreateInstance :: u32 where "cmdTypeVkCreateInstance = 0"
definition cmdTypeVkSetReplyCommandStreamMESA :: u32 where "cmdTypeVkSetReplyCommandStreamMESA = 178"
definition cmdTypeVkCreateRingMESA :: u32 where "cmdTypeVkCreateRingMESA = 188"
definition CmdGenerateReplyBit :: u32 where "CmdGenerateReplyBit = 1"
definition styRingCreateInfoMESA :: u32 where "styRingCreateInfoMESA = 1000384000"
definition styInstanceCreateInfo :: u32 where "styInstanceCreateInfo = 1"
definition styApplicationInfo :: u32 where "styApplicationInfo = 0"

definition cs_u32 :: "u32 \<Rightarrow> csBuilder \<Rightarrow> csBuilder" where
  "cs_u32 v e = e @ le32 v"

text \<open>An \<open>int32\<close> is its 32-bit pattern; the conversion \<open>uint32(v)\<close> keeps the bits.\<close>

definition cs_i32 :: "u32 \<Rightarrow> csBuilder \<Rightarrow> csBuilder" where
  "cs_i32 v e = cs_u32 v e"

definition cs_u64 :: "u64 \<Rightarrow> csBuilder \<Rightarrow> csBuilder" where
  "cs_u64 v e = e @ le64 v"

definition simplePointer :: "bool \<Rightarrow> csBuilder \<Rightarrow> csBuilder" where
  "simplePointer present e = (if present then cs_u64 1 e else cs_u64 0 e)"

definition pad_len :: "nat \<Rightarrow> nat" where
  "pad_len n = (4 - n mod 4) mod 4"

lemma pad_len_Suc:
  assumes "n mod 4 \<noteq> 0"
  shows "pad_len n = Suc (pad_len (Suc n))"
proof -
  have "n mod 4 < 4" by simp
  with assms consider "n mod 4 = 1" | "n mod 4 = 2" | "n mod 4 = 3" by linarith
  then show ?thesis by cases (simp_all add: mod_Suc pad_len_def)
qed

lemma pad_len_total: "n + pad_len n = 4 * ((n + 3) div 4)"
proof -
  obtain q r where n: "n = 4 * q + r" "r < 4"
    using mult_div_mod_eq[of 4 n] by (metis mod_less_divisor zero_less_numeral)
  then consider "r = 0" | "r = 1" | "r = 2" | "r = 3" by linarith
  then show ?thesis using n(1) by cases (simp_all add: pad_len_def mod_Suc)
qed

text \<open>The loop \<open>for len(b)%4 != 0 { b = append(b, 0) }\<close>, used by the string encoder and by every
  ring submission.\<close>

function padDword :: "bytes \<Rightarrow> bytes" where
  "padDword b = (if length b mod 4 \<noteq> 0 then padDword (b @ [0]) else b)"
  by pat_completeness auto
termination
  by (relation "measure (\<lambda>b. pad_len (length b))") (simp_all add: pad_len_Suc)

declare padDword.simps [simp del]

definition strOrEmpty :: "string \<Rightarrow> csBuilder \<Rightarrow> csBuilder" where
  "strOrEmpty s e =
     (if s = [] then cs_u64 0 e
      else padDword (cs_u64 (of_nat (length s + 1)) e @ go_bytes s @ [0]))"

definition cs_str :: "string \<Rightarrow> csBuilder \<Rightarrow> csBuilder" where
  "cs_str s e = (let withNUL = replicate (nat (int (length s + 1 + 3) AND NOT 3)) 0 in
     cs_u64 (of_nat (length s + 1)) e @ blit 0 (go_bytes s) withNUL)"

section \<open>The command streams\<close>

record RingCreateInfoMESA =
  ri_Flags :: u32
  ri_ResourceID :: u32
  ri_Offset :: u64
  ri_Size :: u64
  ri_IdleTimeout :: u64
  ri_HeadOffset :: u64
  ri_TailOffset :: u64
  ri_StatusOffset :: u64
  ri_BufferOffset :: u64
  ri_BufferSize :: u64
  ri_ExtraOffset :: u64
  ri_ExtraSize :: u64

definition EncodeVkCreateRingMESACS :: "u64 \<Rightarrow> RingCreateInfoMESA \<Rightarrow> bytes" where
  "EncodeVkCreateRingMESACS ring info = (
     let e = cs_i32 cmdTypeVkCreateRingMESA [];
         e = cs_u32 0 e;
         e = cs_u64 ring e;
         e = simplePointer True e;
         e = cs_i32 styRingCreateInfoMESA e;
         e = simplePointer False e;
         e = cs_u32 (ri_Flags info) e;
         e = cs_u32 (ri_ResourceID info) e;
         e = cs_u64 (ri_Offset info) e;
         e = cs_u64 (ri_Size info) e;
         e = cs_u64 (ri_IdleTimeout info) e;
         e = cs_u64 (ri_HeadOffset info) e;
         e = cs_u64 (ri_TailOffset info) e;
         e = cs_u64 (ri_StatusOffset info) e;
         e = cs_u64 (ri_BufferOffset info) e;
         e = cs_u64 (ri_BufferSize info) e;
         e = cs_u64 (ri_ExtraOffset info) e
     in cs_u64 (ri_ExtraSize info) e)"

definition EncodeMinimalVkCreateInstanceCS ::
    "u32 \<Rightarrow> string \<Rightarrow> string \<Rightarrow> u64 \<Rightarrow> u64 \<Rightarrow> bytes" where
  "EncodeMinimalVkCreateInstanceCS cmdFlags appName engineName apiVersion instanceHandle = (
     let e = cs_i32 cmdTypeVkCreateInstance [];
         e = cs_u32 cmdFlags e;
         e = simplePointer True e;
         e = cs_i32 styInstanceCreateInfo e;
         e = simplePointer False e;
         e = cs_u32 0 e;
         e = simplePointer True e;
         e = cs_i32 styApplicationInfo e;
         e = simplePointer False e;
         e = strOrEmpty appName e;
         e = cs_u32 0 e;
         e = strOrEmpty engineName e;
         e = cs_u32 0 e;
         e = cs_u32 (ucast apiVersion) e;
         e = cs_u32 0 e;
         e = cs_u64 0 e;
         e = cs_u32 0 e;
         e = cs_u64 0 e;
         e = simplePointer False e;
         e = simplePointer (instanceHandle \<noteq> 0) e
     in if instanceHandle \<noteq> 0 then cs_u64 instanceHandle e else e)"

definition EncodeVkSetReplyCommandStreamMESACS :: "u32 \<Rightarrow> u64 \<Rightarrow> u64 \<Rightarrow> bytes" where
  "EncodeVkSetReplyCommandStreamMESACS resourceID offset sz = (
     let e = cs_i32 cmdTypeVkSetReplyCommandStreamMESA [];
         e = cs_u32 0 e;
         e = simplePointer True e;
         e = cs_u32 resourceID e;
         e = cs_u64 offset e
     in cs_u64 sz e)"

section \<open>Padding\<close>

lemma padDword_replicate: "padDword b = b @ replicate (pad_len (length b)) 0"
proof (induction b rule: padDword.induct)
  case (1 b)
  show ?case
  proof (cases "length b mod 4 = 0")
    case True
    then show ?thesis by (simp add: padDword.simps pad_len_def)
  next
    case False
    with "1" pad_len_Suc[of "length b"] show ?thesis by (simp add: padDword.simps[of b])
  qed
qed

lemma length_padDword: "length (padDword b) = 4 * ((length b + 3) div 4)"
  by (simp add: padDword_replicate pad_len_total)

lemma padDword_aligned [simp]: "length b mod 4 = 0 \<Longrightarrow> padDword b = b"
  by (simp add: padDword.simps)

lemma padDword_dword [simp]: "length (padDword b) mod 4 = 0"
  by (simp add: length_padDword)

lemma padDword_append: "length e mod 4 = 0 \<Longrightarrow> padDword (e @ b) = e @ padDword b"
  by (simp add: padDword_replicate pad_len_def mod_add_left_eq[of "length e", symmetric])

lemma andnot3: "(k :: int) AND NOT 3 = 4 * (k div 4)"
proof -
  have "bit (k AND NOT (mask 2)) n = bit (push_bit 2 (drop_bit 2 k)) n" for n
    by (cases "2 \<le> n") (auto simp: bit_simps dest!: le_Suc_ex)
  then have "k AND NOT (mask 2) = push_bit 2 (drop_bit 2 k)" by (intro bit_eqI) simp
  then show ?thesis by (simp add: push_bit_eq_mult drop_bit_eq_div mask_eq_exp_minus_1)
qed

lemmas cs_defs = cs_u32_def cs_i32_def cs_u64_def simplePointer_def

section \<open>Decoders of the documented layouts\<close>

definition dec_cs_str :: "bytes \<Rightarrow> (string \<times> bytes) option" where
  "dec_cs_str b = do {
     (n, b1) \<leftarrow> dec64 b;
     if n = 0 then Some ([], b1)
     else do {
       (s, b2) \<leftarrow> dec_raw (unat n) b1;
       (_, b3) \<leftarrow> dec_raw (pad_len (unat n)) b2;
       Some (go_string (butlast s), b3) } }"

definition guard_eq :: "'a \<Rightarrow> ('a \<times> bytes) option \<Rightarrow> bytes option" where
  "guard_eq want r = do { (got, b) \<leftarrow> r; if got = want then Some b else None }"

definition dec_create_ring :: "bytes \<Rightarrow> ((u64 \<times> RingCreateInfoMESA) \<times> bytes) option" where
  "dec_create_ring b = do {
     b \<leftarrow> guard_eq cmdTypeVkCreateRingMESA (dec32 b);
     b \<leftarrow> guard_eq 0 (dec32 b);
     (ring, b) \<leftarrow> dec64 b;
     b \<leftarrow> guard_eq 1 (dec64 b);
     b \<leftarrow> guard_eq styRingCreateInfoMESA (dec32 b);
     b \<leftarrow> guard_eq 0 (dec64 b);
     (fl, b) \<leftarrow> dec32 b;
     (res, b) \<leftarrow> dec32 b;
     (ws, b) \<leftarrow> dec_many dec64 10 b;
     Some ((ring, \<lparr>ri_Flags = fl, ri_ResourceID = res, ri_Offset = ws ! 0, ri_Size = ws ! 1,
       ri_IdleTimeout = ws ! 2, ri_HeadOffset = ws ! 3, ri_TailOffset = ws ! 4,
       ri_StatusOffset = ws ! 5, ri_BufferOffset = ws ! 6, ri_BufferSize = ws ! 7,
       ri_ExtraOffset = ws ! 8, ri_ExtraSize = ws ! 9\<rparr>), b) }"

definition dec_set_reply :: "bytes \<Rightarrow> ((u32 \<times> u64 \<times> u64) \<times> bytes) option" where
  "dec_set_reply b = do {
     b \<leftarrow> guard_eq cmdTypeVkSetReplyCommandStreamMESA (dec32 b);
     b \<leftarrow> guard_eq 0 (dec32 b);
     b \<leftarrow> guard_eq 1 (dec64 b);
     (res, b) \<leftarrow> dec32 b;
     (off, b) \<leftarrow> dec64 b;
     (sz, b) \<leftarrow> dec64 b;
     Some ((res, off, sz), b) }"

definition dec_create_instance :: "bytes \<Rightarrow> ((u32 \<times> string \<times> string \<times> u32 \<times> u64) \<times> bytes) option" where
  "dec_create_instance b = do {
     b \<leftarrow> guard_eq cmdTypeVkCreateInstance (dec32 b);
     (flags, b) \<leftarrow> dec32 b;
     b \<leftarrow> guard_eq 1 (dec64 b);
     b \<leftarrow> guard_eq styInstanceCreateInfo (dec32 b);
     b \<leftarrow> guard_eq 0 (dec64 b);
     b \<leftarrow> guard_eq 0 (dec32 b);
     b \<leftarrow> guard_eq 1 (dec64 b);
     b \<leftarrow> guard_eq styApplicationInfo (dec32 b);
     b \<leftarrow> guard_eq 0 (dec64 b);
     (app, b) \<leftarrow> dec_cs_str b;
     b \<leftarrow> guard_eq 0 (dec32 b);
     (eng, b) \<leftarrow> dec_cs_str b;
     b \<leftarrow> guard_eq 0 (dec32 b);
     (api, b) \<leftarrow> dec32 b;
     b \<leftarrow> guard_eq 0 (dec32 b);
     b \<leftarrow> guard_eq 0 (dec64 b);
     b \<leftarrow> guard_eq 0 (dec32 b);
     b \<leftarrow> guard_eq 0 (dec64 b);
     b \<leftarrow> guard_eq 0 (dec64 b);
     (present, b) \<leftarrow> dec64 b;
     (h, b) \<leftarrow> (if present = 0 then Some (0, b) else dec64 b);
     Some ((flags, app, eng, api, h), b) }"

lemma guard_eq_Some [simp]: "guard_eq w (Some (w, b)) = Some b"
  by (simp add: guard_eq_def)

text \<open>The bytes \<open>strOrEmpty\<close> appends to a builder that is a whole number of dwords.\<close>

definition str_bytes :: "string \<Rightarrow> bytes" where
  "str_bytes s = (if s = [] then le64 0
     else le64 (of_nat (length s + 1)) @ go_bytes s @ 0 # replicate (pad_len (length s + 1)) 0)"

lemma strOrEmpty_bytes:
  assumes "length e mod 4 = 0"
  shows "strOrEmpty s e = e @ str_bytes s"
proof (cases "s = []")
  case True
  then show ?thesis by (simp add: strOrEmpty_def str_bytes_def cs_u64_def)
next
  case False
  have "padDword ((e @ le64 (of_nat (length s + 1))) @ go_bytes s @ [0])
      = (e @ le64 (of_nat (length s + 1))) @ padDword (go_bytes s @ [0])"
    using assms by (intro padDword_append) (simp, presburger)
  with False show ?thesis
    by (simp add: strOrEmpty_def str_bytes_def cs_u64_def padDword_replicate)
qed

lemma str_bytes_dword [simp]: "length (str_bytes s) mod 4 = 0"
  using pad_len_total[of "length s + 1"] by (simp add: str_bytes_def)

lemma dec_cs_str_bytes [simp]:
  assumes "length s + 1 < 2 ^ 64"
  shows "dec_cs_str (str_bytes s @ r) = Some (s, r)"
proof -
  have "unat (of_nat (length s + 1) :: u64) = length s + 1" using assms by (rule unat_of_nat_u64)
  moreover from this have "(of_nat (length s + 1) :: u64) \<noteq> 0" by (metis add_is_0 one_neq_zero unsigned_0)
  ultimately show ?thesis
    using dec_raw_append[of "go_bytes s @ [0]" "length s + 1" "replicate (pad_len (length s + 1)) 0 @ r"]
    by (simp add: dec_cs_str_def str_bytes_def del: of_nat_add of_nat_Suc)
qed

text \<open>The instance stream as one block of fields: the builder is a whole number of dwords before
  each string, so both strings are padded on their own.\<close>

lemma create_instance_bytes:
  "EncodeMinimalVkCreateInstanceCS fl app eng api h =
     le32 cmdTypeVkCreateInstance @ le32 fl @ le64 1 @ le32 styInstanceCreateInfo @ le64 0 @ le32 0
     @ le64 1 @ le32 styApplicationInfo @ le64 0 @ str_bytes app @ le32 0 @ str_bytes eng @ le32 0
     @ le32 (ucast api) @ le32 0 @ le64 0 @ le32 0 @ le64 0 @ le64 0
     @ (if h \<noteq> 0 then le64 1 @ le64 h else le64 0)"
proof -
  let ?pre = "le32 cmdTypeVkCreateInstance @ le32 fl @ le64 1 @ le32 styInstanceCreateInfo @ le64 0
     @ le32 0 @ le64 1 @ le32 styApplicationInfo @ le64 0 @ str_bytes app @ le32 0"
  have "length ?pre mod 4 = 0"
    using str_bytes_dword[of app] by (simp only: length_append length_le) presburger
  then have "strOrEmpty eng ?pre = ?pre @ str_bytes eng" by (rule strOrEmpty_bytes)
  then show ?thesis
    by (simp add: EncodeMinimalVkCreateInstanceCS_def Let_def cs_defs strOrEmpty_bytes)
qed

lemma create_ring_bytes:
  "EncodeVkCreateRingMESACS ring info =
     le32 cmdTypeVkCreateRingMESA @ le32 0 @ le64 ring @ le64 1 @ le32 styRingCreateInfoMESA @ le64 0
     @ le32 (ri_Flags info) @ le32 (ri_ResourceID info) @ le64 (ri_Offset info) @ le64 (ri_Size info)
     @ le64 (ri_IdleTimeout info) @ le64 (ri_HeadOffset info) @ le64 (ri_TailOffset info)
     @ le64 (ri_StatusOffset info) @ le64 (ri_BufferOffset info) @ le64 (ri_BufferSize info)
     @ le64 (ri_ExtraOffset info) @ le64 (ri_ExtraSize info)"
  by (simp add: EncodeVkCreateRingMESACS_def Let_def cs_defs)

lemma set_reply_bytes:
  "EncodeVkSetReplyCommandStreamMESACS res off sz =
     le32 cmdTypeVkSetReplyCommandStreamMESA @ le32 0 @ le64 1 @ le32 res @ le64 off @ le64 sz"
  by (simp add: EncodeVkSetReplyCommandStreamMESACS_def Let_def cs_defs)

lemma dec_create_ring_enc:
  "dec_create_ring (EncodeVkCreateRingMESACS ring info @ r) = Some ((ring, info), r)"
  by (simp add: create_ring_bytes dec_create_ring_def)

lemma dec_set_reply_enc:
  "dec_set_reply (EncodeVkSetReplyCommandStreamMESACS res off sz @ r) = Some ((res, off, sz), r)"
  by (simp add: set_reply_bytes dec_set_reply_def)

lemma dec_create_instance_enc:
  assumes "length app + 1 < 2 ^ 64" "length eng + 1 < 2 ^ 64"
  shows "dec_create_instance (EncodeMinimalVkCreateInstanceCS fl app eng api h @ r)
    = Some ((fl, app, eng, ucast api, h), r)"
  by (simp add: create_instance_bytes dec_create_instance_def dec_cs_str_bytes[OF assms(1)] dec_cs_str_bytes[OF assms(2)])

lemma stream_nonempty [simp]:
  "EncodeVkCreateRingMESACS ring info \<noteq> []" "EncodeVkSetReplyCommandStreamMESACS res off sz \<noteq> []"
  "EncodeMinimalVkCreateInstanceCS fl app eng api h \<noteq> []"
  by (simp_all add: create_ring_bytes set_reply_bytes create_instance_bytes le32_def)

interpretation ring_cs: framed_codec "\<lambda>(ring, info). EncodeVkCreateRingMESACS ring info" dec_create_ring "\<lambda>_. True"
  by unfold_locales (clarsimp simp only: prod.case dec_create_ring_enc, clarsimp)

interpretation set_reply_cs: framed_codec "\<lambda>(res, off, sz). EncodeVkSetReplyCommandStreamMESACS res off sz"
    dec_set_reply "\<lambda>_. True"
  by unfold_locales (clarsimp simp only: prod.case dec_set_reply_enc, clarsimp)

interpretation instance_cs: framed_codec
    "\<lambda>(fl, app, eng, api, h). EncodeMinimalVkCreateInstanceCS fl app eng (ucast (api :: u32)) h"
    dec_create_instance "\<lambda>(fl, app, eng, api, h). length app + 1 < 2 ^ 64 \<and> length eng + 1 < 2 ^ 64"
  by unfold_locales (clarsimp simp: dec_create_instance_enc, clarsimp)

section \<open>Properties of the command streams\<close>

text \<open>C23. The ring-registration stream decodes to the ring handle and to every field of the
  \<open>VkRingCreateInfoMESA\<close>, the reply-stream command to its resource, offset and size, each at
  the position the Mesa layout gives it.\<close>

theorem ring_streams_decode:
  "dec_create_ring (EncodeVkCreateRingMESACS ring info @ rest) = Some ((ring, info), rest) \<and>
   dec_set_reply (EncodeVkSetReplyCommandStreamMESACS res off sz @ rest) = Some ((res, off, sz), rest)"
  using ring_cs.dec_enc[of "(ring, info)" rest] set_reply_cs.dec_enc[of "(res, off, sz)" rest] by simp

text \<open>The \<open>vkCreateInstance\<close> stream decodes to its flags, both names, the low 32 bits of
  the API version and the instance handle (absent exactly when it is 0).\<close>

theorem create_instance_stream_decodes:
  assumes "length app + 1 < 2 ^ 64" "length eng + 1 < 2 ^ 64"
  shows "dec_create_instance (EncodeMinimalVkCreateInstanceCS fl app eng api h @ rest)
    = Some ((fl, app, eng, ucast api, h), rest)"
  using assms by (rule dec_create_instance_enc)

theorem create_instance_stream_decodes_witness:
  "dec_create_instance (EncodeMinimalVkCreateInstanceCS 1 ''app'' [] 4194304 9 @ [1])
    = Some ((1, ''app'', [], 4194304, 9), [1])"
  using create_instance_stream_decodes[of "''app''" "[]" 1 4194304 9 "[1]"] by simp

text \<open>Every command stream, and every padded one, is a whole number of dwords, so the
  \<open>SUBMIT_CMD2\<close> encoder and the ring accept it.\<close>

theorem streams_are_dwords:
  "length (EncodeVkCreateRingMESACS ring info) mod 4 = 0 \<and>
   length (EncodeVkSetReplyCommandStreamMESACS res off sz) mod 4 = 0 \<and>
   length (EncodeMinimalVkCreateInstanceCS fl app eng api h) mod 4 = 0 \<and>
   length (padDword b) mod 4 = 0 \<and> take (length b) (padDword b) = b \<and> length (padDword b) < length b + 4"
proof -
  have "length (if h \<noteq> 0 then le64 1 @ le64 h else le64 0) mod 4 = 0" by simp
  then have inst: "length (EncodeMinimalVkCreateInstanceCS fl app eng api h) mod 4 = 0"
    using str_bytes_dword[of app] str_bytes_dword[of eng]
    by (simp only: create_instance_bytes length_append length_le dvd_eq_mod_eq_0[symmetric]
        dvd_add_right_iff dvd_add dvd_triv_left) (intro dvd_add; simp)
  have "pad_len (length b) < 4" by (simp add: pad_len_def)
  with inst show ?thesis
    by (simp add: EncodeVkCreateRingMESACS_def EncodeVkSetReplyCommandStreamMESACS_def Let_def cs_defs)
      (simp add: padDword_replicate)
qed

text \<open>The two string encoders agree: on a builder that is a whole number of dwords,
  padding the whole buffer (\<open>strOrEmpty\<close>) and padding the string alone (\<open>str\<close>) give the same
  bytes for every non-empty string.\<close>

theorem string_encoders_agree:
  assumes "length e mod 4 = 0" "s \<noteq> []"
  shows "strOrEmpty s e = cs_str s e"
proof -
  have "nat (int (length s + 1 + 3) AND NOT 3) = 4 * ((length s + 1 + 3) div 4)"
    by (metis andnot3 nat_int of_nat_div of_nat_mult of_nat_numeral)
  also have "\<dots> = length s + 1 + pad_len (length s + 1)"
    using pad_len_total[of "length s + 1"] by simp
  finally show ?thesis
    using assms by (simp add: strOrEmpty_bytes str_bytes_def cs_str_def cs_u64_def blit_def
        replicate_add del: of_nat_add replicate_Suc) simp
qed

theorem string_encoders_agree_witness:
  "strOrEmpty ''venus'' [1, 2, 3, 4] = cs_str ''venus'' [1, 2, 3, 4]"
  by (rule string_encoders_agree) simp_all

end
