(* ===== verification/Go_Float.thy ===== *)
theory Go_Float
  imports Go_Base "HOL-Library.Log_Nat"
begin

text \<open>
  Go's floating-point arithmetic on finite values. A \<open>float32\<close> or \<open>float64\<close> is the rational it
  denotes; \<open>rnd32\<close> and \<open>rnd64\<close> round an exact result to the format, to nearest with ties to
  even, subnormals included. Results of the modelled code stay far from the overflow threshold,
  and no infinity or NaN arises from finite inputs there. A Go compiler may fuse a
  multiplication and an addition into one rounding; the code that is exposed to this takes a
  flag for it and its theorems hold for both.
\<close>

section \<open>Rounding to an integer\<close>

definition rne :: "rat \<Rightarrow> int" where
  "rne x = (let f = \<lfloor>x\<rfloor>; d = x - of_int f in
     if d < 1 / 2 then f else if 1 / 2 < d then f + 1 else if even f then f else f + 1)"

lemma rne_error: "\<bar>of_int (rne x) - x\<bar> \<le> 1 / 2"
  using floor_correct[of x] by (auto simp: rne_def Let_def abs_le_iff algebra_simps; linarith)

lemma rne_of_int [simp]: "rne (of_int k) = k"
  by (simp add: rne_def)

section \<open>Rounding to a format\<close>

text \<open>The binary exponent of a positive rational.\<close>

definition ilog2 :: "rat \<Rightarrow> int" where
  "ilog2 x = (case quotient_of x of (a, b) \<Rightarrow>
     let k = bitlen a - bitlen b in if 2 powi k \<le> x then k else k - 1)"

definition rnd :: "int \<Rightarrow> int \<Rightarrow> rat \<Rightarrow> rat" where
  "rnd prec emin x = (if x = 0 then 0
     else let u = 2 powi (max (ilog2 \<bar>x\<bar>) emin - (prec - 1)) in of_int (rne (x / u)) * u)"

definition rnd32 :: "rat \<Rightarrow> rat" where "rnd32 = rnd 24 (- 126)"
definition rnd64 :: "rat \<Rightarrow> rat" where "rnd64 = rnd 53 (- 1022)"

lemma ilog2_le:
  assumes "0 < x"
  shows "2 powi ilog2 x \<le> x"
proof -
  obtain a b where q: "quotient_of x = (a, b)" by (cases "quotient_of x")
  have b: "0 < b" and x: "x = of_int a / of_int b"
    using quotient_of_denom_pos[OF q] quotient_of_div[OF q] by auto
  have a: "0 < a" using assms b unfolding x by (simp add: zero_less_divide_iff)
  have la: "2 ^ nat (bitlen a - 1) \<le> a" and lb: "b < 2 ^ nat (bitlen b)"
    using bitlen_bounds[OF a] bitlen_bounds[OF b] by auto
  have pos: "0 < bitlen a" "0 < bitlen b" using a b bitlen_nonneg[of a] bitlen_nonneg[of b] bitlen_eq_zero_iff[of a] bitlen_eq_zero_iff[of b] by linarith+
  have "(2 :: rat) powi ((bitlen a - 1) - bitlen b) = 2 powi (bitlen a - 1) / 2 powi bitlen b"
    by (rule power_int_diff) simp
  then have "(2 :: rat) powi (bitlen a - bitlen b - 1) = 2 ^ nat (bitlen a - 1) / 2 ^ nat (bitlen b)"
    using pos by (simp add: power_int_def algebra_simps)
  also have "\<dots> \<le> of_int a / of_int b"
  proof (rule frac_le)
    show "(2 :: rat) ^ nat (bitlen a - 1) \<le> of_int a"
      using la by (metis of_int_le_iff of_int_numeral of_int_power)
    show "of_int b \<le> (2 :: rat) ^ nat (bitlen b)"
      using lb by (metis less_imp_le of_int_le_iff of_int_numeral of_int_power)
  qed (use a b in auto)
  finally show ?thesis unfolding x[symmetric] ilog2_def by (simp add: q Let_def)
qed

text \<open>The rounding error is at most half a unit in the last place.\<close>

lemma rnd_error:
  assumes "x \<noteq> 0"
  shows "\<bar>rnd prec emin x - x\<bar> \<le> 2 powi (max (ilog2 \<bar>x\<bar>) emin - prec)"
proof -
  define u where "u = (2 :: rat) powi (max (ilog2 \<bar>x\<bar>) emin - (prec - 1))"
  have u: "0 < u" by (simp add: u_def)
  have "rnd prec emin x - x = (of_int (rne (x / u)) - x / u) * u"
    using u assms by (simp add: rnd_def Let_def flip: u_def) (simp add: algebra_simps)
  then have "\<bar>rnd prec emin x - x\<bar> = \<bar>of_int (rne (x / u)) - x / u\<bar> * u"
    using u by (simp add: abs_mult)
  also have "\<dots> \<le> 1 / 2 * u" using rne_error[of "x / u"] u by (intro mult_right_mono) auto
  also have "\<dots> = 2 powi (max (ilog2 \<bar>x\<bar>) emin - prec)"
    by (simp add: u_def power_int_diff power_int_add field_simps)
  finally show ?thesis .
qed

lemma rnd_error_below:
  assumes "0 \<le> x" "x < 2 powi k" "emin \<le> k - 1"
  shows "\<bar>rnd prec emin x - x\<bar> \<le> 2 powi (k - 1 - prec)"
proof (cases "x = 0")
  case False
  with assms(1) have "2 powi ilog2 x \<le> x" by (intro ilog2_le) simp
  with assms(2) have "(2 :: rat) powi ilog2 x < 2 powi k" by linarith
  then have "ilog2 x < k" using power_int_increasing[of k "ilog2 x" "2 :: rat"] by force
  then have "max (ilog2 \<bar>x\<bar>) emin - prec \<le> k - 1 - prec" using assms by simp
  then have "(2 :: rat) powi (max (ilog2 \<bar>x\<bar>) emin - prec) \<le> 2 powi (k - 1 - prec)"
    by (intro power_int_increasing) auto
  with rnd_error[OF False, of prec emin] show ?thesis by linarith
qed (simp add: rnd_def)

section \<open>UNORM encoding\<close>

text \<open>\<open>byte(f*255 + 0.5)\<close> on \<open>float32\<close>, clamped, as the readback of the cleared image expects it.\<close>

definition enc_unorm :: "bool \<Rightarrow> rat \<Rightarrow> byte" where
  "enc_unorm fma f = (if f \<le> 0 then 0 else if 1 \<le> f then 255
     else of_int \<lfloor>rnd32 ((if fma then f * 255 else rnd32 (f * 255)) + 1 / 2)\<rfloor>)"

lemma enc_unorm_near:
  assumes "0 \<le> f" "f \<le> 1"
  shows "\<bar>of_int (uint (enc_unorm fma f)) - f * 255\<bar> \<le> 1 / 2 + 1 / 2 ^ 16"
proof (cases "f = 0 \<or> f = 1")
  case False
  with assms have f: "0 < f" "f < 1" by auto
  define p where "p = (if fma then f * 255 else rnd32 (f * 255))"
  define y where "y = rnd32 (p + 1 / 2)"
  have bound: "\<bar>rnd32 z - z\<bar> \<le> 1 / 131072" if "0 \<le> z" "z < 256" for z
    using rnd_error_below[of z 8 "- 126" 24] that by (simp add: rnd32_def power_int_def power_divide)
  have p: "\<bar>p - f * 255\<bar> \<le> 1 / 131072" using f bound[of "f * 255"] by (auto simp: p_def)
  with f have "0 \<le> p + 1 / 2" "p + 1 / 2 < 256" by linarith+
  with bound have "\<bar>y - (p + 1 / 2)\<bar> \<le> 1 / 131072" unfolding y_def by blast
  with p have y: "\<bar>y - (f * 255 + 1 / 2)\<bar> \<le> 1 / 65536" by linarith
  then have "0 \<le> y" "y < 256" using f by linarith+
  then have fl: "0 \<le> \<lfloor>y\<rfloor>" "\<lfloor>y\<rfloor> < 256" by (simp_all add: floor_less_iff)
  have "enc_unorm fma f = of_int \<lfloor>y\<rfloor>" using f by (simp add: enc_unorm_def y_def p_def)
  with fl have "uint (enc_unorm fma f) = \<lfloor>y\<rfloor>" by (simp add: uint_word_of_int)
  moreover have "of_int \<lfloor>y\<rfloor> \<le> y" "y < of_int \<lfloor>y\<rfloor> + 1" by (rule of_int_floor_le) linarith
  moreover have "(1 :: rat) / 2 ^ 16 = 1 / 65536" by simp
  ultimately show ?thesis using y by linarith
qed (auto simp: enc_unorm_def)

end
