(* ===== verification/Clear_CS.thy ===== *)
theory Clear_CS
  imports Venus_CS Go_Float
begin

text \<open>
  Data of the clear-image driver, \<open>vtest/venusclear_linux.go\<close>: its command and enum constants,
  the result record, the \<open>vkGetDeviceQueue2\<close> stream the file encodes by hand, and the interface
  of the external package \<open>clearcs\<close>. The package's encoders and decoders are pure functions of
  their arguments; they are the fields of the record \<open>clearcs\<close>, a parameter of every definition
  that uses them. The structures passed to them have the fields the driver sets; a structure with
  one to three fields is passed field by field, and a nil slice or empty structure is left out.
\<close>

section \<open>Constants\<close>

type_synonym i32 = "32 word"

definition ctCreateInstance :: i32 where "ctCreateInstance = 0"
definition ctEnumeratePhysDevices :: i32 where "ctEnumeratePhysDevices = 2"
definition ctGetPhysDevMemoryProps :: i32 where "ctGetPhysDevMemoryProps = 8"
definition ctGetPhysDevQueueFamily :: i32 where "ctGetPhysDevQueueFamily = 7"
definition ctCreateDevice :: i32 where "ctCreateDevice = 11"
definition ctGetDeviceQueue2 :: i32 where "ctGetDeviceQueue2 = 155"
definition ctCreateImage :: i32 where "ctCreateImage = 54"
definition ctGetImageMemoryReqs :: i32 where "ctGetImageMemoryReqs = 31"
definition ctAllocateMemory :: i32 where "ctAllocateMemory = 21"
definition ctBindImageMemory :: i32 where "ctBindImageMemory = 29"
definition ctCreateCommandPool :: i32 where "ctCreateCommandPool = 85"
definition ctAllocateCommandBuffers :: i32 where "ctAllocateCommandBuffers = 88"
definition ctBeginCommandBuffer :: i32 where "ctBeginCommandBuffer = 90"
definition ctEndCommandBuffer :: i32 where "ctEndCommandBuffer = 91"
definition ctQueueSubmit :: i32 where "ctQueueSubmit = 18"
definition ctCreateFence :: i32 where "ctCreateFence = 35"
definition ctWaitForFences :: i32 where "ctWaitForFences = 39"

lemmas ct_defs = ctCreateInstance_def ctEnumeratePhysDevices_def ctGetPhysDevMemoryProps_def
  ctGetPhysDevQueueFamily_def ctCreateDevice_def ctGetDeviceQueue2_def ctCreateImage_def
  ctGetImageMemoryReqs_def ctAllocateMemory_def ctBindImageMemory_def ctCreateCommandPool_def
  ctAllocateCommandBuffers_def ctBeginCommandBuffer_def ctEndCommandBuffer_def ctQueueSubmit_def
  ctCreateFence_def ctWaitForFences_def

definition vkFormatR8G8B8A8UNORM :: u32 where "vkFormatR8G8B8A8UNORM = 37"
definition vkImageType2D :: u32 where "vkImageType2D = 1"
definition vkImageTilingLinear :: u32 where "vkImageTilingLinear = 1"
definition vkSharingModeExclusive :: u32 where "vkSharingModeExclusive = 0"
definition vkImageLayoutUndefined :: u32 where "vkImageLayoutUndefined = 0"
definition vkImageLayoutGeneral :: u32 where "vkImageLayoutGeneral = 1"
definition vkImageUsageTransferDstBit :: u32 where "vkImageUsageTransferDstBit = 0x2"
definition vkImageAspectColorBit :: u32 where "vkImageAspectColorBit = 0x1"
definition vkSampleCount1Bit :: u32 where "vkSampleCount1Bit = 0x1"
definition vkAccessTransferWriteBit :: u32 where "vkAccessTransferWriteBit = 0x1000"
definition vkPipelineStageTopOfPipe :: u32 where "vkPipelineStageTopOfPipe = 0x1"
definition vkPipelineStageTransfer :: u32 where "vkPipelineStageTransfer = 0x1000"
definition vkMemoryPropertyHostVisible :: u32 where "vkMemoryPropertyHostVisible = 0x2"
definition vkMemoryPropertyHostCoherent :: u32 where "vkMemoryPropertyHostCoherent = 0x4"
definition vkCommandBufferUsageOneTime :: u32 where "vkCommandBufferUsageOneTime = 0x1"
definition vkQueueFamilyIgnored :: u32 where "vkQueueFamilyIgnored = 0xFFFFFFFF"

definition stDeviceQueueInfo2 :: u32 where "stDeviceQueueInfo2 = 1000145003"
definition stDeviceQueueTimelineMESA :: u32 where "stDeviceQueueTimelineMESA = 1000384005"
definition queueSyncRingIdx :: u32 where "queueSyncRingIdx = 1"

section \<open>The result record\<close>

record ClearImageResult =
  NegotiatedVersion :: u32
  MaxTimelineCount :: u32
  CapsetLen :: nat
  RingBlobResID :: u32
  ReplyBlobResID :: u32
  Instance :: u64
  PhysDevCount :: u32
  PhysDev :: u64
  MemTypeCount :: u32
  MemTypeIndex :: u32
  MemTypeFlags :: u32
  QueueFamCount :: u32
  QueueFamilyIdx :: u32
  Device :: u64
  Queue :: u64
  Image :: u64
  MemReqSize :: u64
  MemReqAlign :: u64
  MemReqBits :: u32
  Memory :: u64
  CmdPool :: u64
  CmdBuf :: u64
  Fence :: u64
  ResCreateInstance :: i32
  ResCreateDevice :: i32
  ResCreateImage :: i32
  ResAllocMemory :: i32
  ResBindImage :: i32
  ResCreatePool :: i32
  ResAllocCmdBuf :: i32
  ResBeginCmdBuf :: i32
  ResEndCmdBuf :: i32
  ResCreateFence :: i32
  ResQueueSubmit :: i32
  ResWaitForFences :: i32
  Trace :: "(string \<times> farg list) list"
  ClearColor :: "rat list"
  MemBlobResID :: u32
  ReadbackDone :: bool
  FirstTexel :: bytes
  ExpectTexel :: bytes
  TexelsChecked :: nat
  TexelsRed :: nat
  ReadbackPass :: bool

text \<open>\<open>&ClearImageResult{ClearColor: clear}\<close>\<close>

definition clear_zero :: "rat list \<Rightarrow> ClearImageResult" where
  "clear_zero clear = \<lparr>NegotiatedVersion = 0, MaxTimelineCount = 0, CapsetLen = 0, RingBlobResID = 0,
     ReplyBlobResID = 0, Instance = 0, PhysDevCount = 0, PhysDev = 0, MemTypeCount = 0, MemTypeIndex = 0,
     MemTypeFlags = 0, QueueFamCount = 0, QueueFamilyIdx = 0, Device = 0, Queue = 0, Image = 0,
     MemReqSize = 0, MemReqAlign = 0, MemReqBits = 0, Memory = 0, CmdPool = 0, CmdBuf = 0, Fence = 0,
     ResCreateInstance = 0, ResCreateDevice = 0, ResCreateImage = 0, ResAllocMemory = 0, ResBindImage = 0,
     ResCreatePool = 0, ResAllocCmdBuf = 0, ResBeginCmdBuf = 0, ResEndCmdBuf = 0, ResCreateFence = 0,
     ResQueueSubmit = 0, ResWaitForFences = 0, Trace = [], ClearColor = clear, MemBlobResID = 0,
     ReadbackDone = False, FirstTexel = [0, 0, 0, 0], ExpectTexel = [0, 0, 0, 0], TexelsChecked = 0,
     TexelsRed = 0, ReadbackPass = False\<rparr>"

section \<open>The interface of clearcs\<close>

record VkInstanceCreateInfo = ici_ApiVersion :: u32

record VkDeviceQueueCreateInfo =
  dq_QueueFamilyIndex :: u32
  dq_QueueCount :: u32
  dq_PQueuePriorities :: "rat list"

record VkDeviceCreateInfo =
  dc_QueueCreateInfoCount :: u32
  dc_PQueueCreateInfos :: "VkDeviceQueueCreateInfo list"

record VkImageCreateInfo =
  im_ImageType :: u32
  im_Format :: u32
  im_Width :: u32
  im_Height :: u32
  im_Depth :: u32
  im_MipLevels :: u32
  im_ArrayLayers :: u32
  im_Samples :: u32
  im_Tiling :: u32
  im_Usage :: u32
  im_SharingMode :: u32
  im_InitialLayout :: u32

record VkMemoryRequirements =
  rq_Size :: u64
  rq_Alignment :: u64
  rq_MemoryTypeBits :: u32

record VkPhysicalDeviceMemoryProperties =
  mp_MemoryTypeCount :: u32
  mp_MemoryTypes :: "u32 list"

record VkImageSubresourceRange =
  sr_AspectMask :: u32
  sr_BaseMipLevel :: u32
  sr_LevelCount :: u32
  sr_BaseArrayLayer :: u32
  sr_LayerCount :: u32

record VkImageMemoryBarrier =
  ib_SrcAccessMask :: u32
  ib_DstAccessMask :: u32
  ib_OldLayout :: u32
  ib_NewLayout :: u32
  ib_SrcQueueFamilyIndex :: u32
  ib_DstQueueFamilyIndex :: u32
  ib_Image :: u64
  ib_SubresourceRange :: VkImageSubresourceRange

record VkClearColorValue =
  cv_Tag :: u32
  cv_Float32 :: "rat list"

record VkSubmitInfo =
  si_CommandBufferCount :: u32
  si_PCommandBuffers :: "u64 list"

record clearcs =
  EncodeCreateInstance :: "u32 \<Rightarrow> VkInstanceCreateInfo \<Rightarrow> u64 \<Rightarrow> bytes"
  DecodeCreateInstanceReply :: "bytes \<Rightarrow> i32 \<times> u64 \<times> bool"
  EncodeEnumeratePhysicalDevices :: "u32 \<Rightarrow> u64 \<Rightarrow> u32 \<Rightarrow> u64 list \<Rightarrow> bytes"
  DecodeEnumeratePhysicalDevicesReply :: "bytes \<Rightarrow> i32 \<times> u32 \<times> bool \<times> u64 list"
  EncodeGetPhysicalDeviceMemoryProperties :: "u32 \<Rightarrow> u64 \<Rightarrow> bytes"
  DecodeGetPhysicalDeviceMemoryPropertiesReply :: "bytes \<Rightarrow> VkPhysicalDeviceMemoryProperties \<times> bool"
  EncodeGetPhysicalDeviceQueueFamilyProperties :: "u32 \<Rightarrow> u64 \<Rightarrow> u32 \<Rightarrow> bytes"
  DecodeGetPhysicalDeviceQueueFamilyPropertiesReply :: "bytes \<Rightarrow> u32 \<times> bool"
  EncodeCreateDevice :: "u32 \<Rightarrow> u64 \<Rightarrow> VkDeviceCreateInfo \<Rightarrow> u64 \<Rightarrow> bytes"
  DecodeCreateDeviceReply :: "bytes \<Rightarrow> i32 \<times> u64 \<times> bool"
  EncodeCreateImage :: "u32 \<Rightarrow> u64 \<Rightarrow> VkImageCreateInfo \<Rightarrow> u64 \<Rightarrow> bytes"
  DecodeCreateImageReply :: "bytes \<Rightarrow> i32 \<times> u64 \<times> bool"
  EncodeGetImageMemoryRequirements :: "u32 \<Rightarrow> u64 \<Rightarrow> u64 \<Rightarrow> bytes"
  DecodeGetImageMemoryRequirementsReply :: "bytes \<Rightarrow> VkMemoryRequirements \<times> bool"
  EncodeAllocateMemory :: "u32 \<Rightarrow> u64 \<Rightarrow> u64 \<Rightarrow> u32 \<Rightarrow> u64 \<Rightarrow> bytes"
  DecodeAllocateMemoryReply :: "bytes \<Rightarrow> i32 \<times> u64 \<times> bool"
  EncodeBindImageMemory :: "u32 \<Rightarrow> u64 \<Rightarrow> u64 \<Rightarrow> u64 \<Rightarrow> u64 \<Rightarrow> bytes"
  DecodeBindImageMemoryReply :: "bytes \<Rightarrow> i32"
  EncodeCreateCommandPool :: "u32 \<Rightarrow> u64 \<Rightarrow> u32 \<Rightarrow> u64 \<Rightarrow> bytes"
  DecodeCreateCommandPoolReply :: "bytes \<Rightarrow> i32 \<times> u64 \<times> bool"
  EncodeAllocateCommandBuffers :: "u32 \<Rightarrow> u64 \<Rightarrow> u64 \<Rightarrow> u32 \<Rightarrow> u32 \<Rightarrow> u64 list \<Rightarrow> bytes"
  DecodeAllocateCommandBuffersReply :: "bytes \<Rightarrow> nat \<Rightarrow> i32 \<times> u64 list"
  EncodeBeginCommandBuffer :: "u32 \<Rightarrow> u64 \<Rightarrow> u32 \<Rightarrow> bytes"
  DecodeBeginCommandBufferReply :: "bytes \<Rightarrow> i32"
  EncodeCmdPipelineBarrier :: "u32 \<Rightarrow> u64 \<Rightarrow> u32 \<Rightarrow> u32 \<Rightarrow> u32 \<Rightarrow> VkImageMemoryBarrier list \<Rightarrow> bytes"
  EncodeCmdClearColorImage :: "u32 \<Rightarrow> u64 \<Rightarrow> u64 \<Rightarrow> u32 \<Rightarrow> VkClearColorValue \<Rightarrow> VkImageSubresourceRange list \<Rightarrow> bytes"
  EncodeEndCommandBuffer :: "u32 \<Rightarrow> u64 \<Rightarrow> bytes"
  DecodeEndCommandBufferReply :: "bytes \<Rightarrow> i32"
  EncodeCreateFence :: "u32 \<Rightarrow> u64 \<Rightarrow> u64 \<Rightarrow> bytes"
  DecodeCreateFenceReply :: "bytes \<Rightarrow> i32 \<times> u64 \<times> bool"
  EncodeQueueSubmit :: "u32 \<Rightarrow> u64 \<Rightarrow> VkSubmitInfo list \<Rightarrow> u64 \<Rightarrow> bytes"
  DecodeQueueSubmitReply :: "bytes \<Rightarrow> i32 \<times> bool"
  EncodeWaitForFences :: "u32 \<Rightarrow> u64 \<Rightarrow> u64 list \<Rightarrow> bool \<Rightarrow> u64 \<Rightarrow> bytes"
  DecodeWaitForFencesReply :: "bytes \<Rightarrow> i32"

section \<open>vkGetDeviceQueue2\<close>

definition putU32 :: "bytes \<Rightarrow> u32 \<Rightarrow> bytes" where "putU32 b v = b @ le32 v"
definition putU64 :: "bytes \<Rightarrow> u64 \<Rightarrow> bytes" where "putU64 b v = b @ le64 v"
definition putSimplePtr :: "bytes \<Rightarrow> bool \<Rightarrow> bytes" where
  "putSimplePtr b p = (if p then putU64 b 1 else putU64 b 0)"

definition encodeGetDeviceQueue2CS :: "u32 \<Rightarrow> u64 \<Rightarrow> u32 \<Rightarrow> u32 \<Rightarrow> u32 \<Rightarrow> u64 \<Rightarrow> bytes" where
  "encodeGetDeviceQueue2CS cmdFlags device family index ringIdx pQueue = (
     let b = putU32 [] ctGetDeviceQueue2;
         b = putU32 b cmdFlags;
         b = putU64 b device;
         b = putSimplePtr b True;
         b = putU32 b stDeviceQueueInfo2;
         b = putSimplePtr b True;
         b = putU32 b stDeviceQueueTimelineMESA;
         b = putSimplePtr b False;
         b = putU32 b ringIdx;
         b = putU32 b 0;
         b = putU32 b family;
         b = putU32 b index;
         b = putSimplePtr b True
     in putU64 b pQueue)"

definition decodeGetDeviceQueue2Reply :: "bytes \<Rightarrow> u64 \<times> bool" where
  "decodeGetDeviceQueue2Reply reply =
     (if length reply < 4 + 8 + 8 then (0, False)
      else if get32 (take 4 reply) \<noteq> ctGetDeviceQueue2 then (0, False)
      else if get64 (take 8 (drop 4 reply)) \<noteq> 1 then (0, False)
      else (get64 (take 8 (drop 12 reply)), True))"

text \<open>The documented request and reply.\<close>

definition dec_queue2_request :: "bytes \<Rightarrow> ((u32 \<times> u64 \<times> u32 \<times> u32 \<times> u32 \<times> u64) \<times> bytes) option" where
  "dec_queue2_request b = do {
     b \<leftarrow> guard_eq ctGetDeviceQueue2 (dec32 b);
     (flags, b) \<leftarrow> dec32 b;
     (device, b) \<leftarrow> dec64 b;
     b \<leftarrow> guard_eq 1 (dec64 b);
     b \<leftarrow> guard_eq stDeviceQueueInfo2 (dec32 b);
     b \<leftarrow> guard_eq 1 (dec64 b);
     b \<leftarrow> guard_eq stDeviceQueueTimelineMESA (dec32 b);
     b \<leftarrow> guard_eq 0 (dec64 b);
     (ringIdx, b) \<leftarrow> dec32 b;
     b \<leftarrow> guard_eq 0 (dec32 b);
     (family, b) \<leftarrow> dec32 b;
     (index, b) \<leftarrow> dec32 b;
     b \<leftarrow> guard_eq 1 (dec64 b);
     (pQueue, b) \<leftarrow> dec64 b;
     Some ((flags, device, family, index, ringIdx, pQueue), b) }"

lemmas put_defs = putU32_def putU64_def putSimplePtr_def

lemma dec_queue2_enc:
  "dec_queue2_request (encodeGetDeviceQueue2CS fl dev fam i ri q @ r) = Some ((fl, dev, fam, i, ri, q), r)"
  by (simp add: encodeGetDeviceQueue2CS_def Let_def put_defs dec_queue2_request_def)

interpretation queue2_cs: framed_codec "\<lambda>(fl, dev, fam, i, ri, q). encodeGetDeviceQueue2CS fl dev fam i ri q"
    dec_queue2_request "\<lambda>_. True"
  by unfold_locales (clarsimp simp only: prod.case dec_queue2_enc,
      clarsimp simp: encodeGetDeviceQueue2CS_def Let_def put_defs le32_def)

text \<open>The \<open>vkGetDeviceQueue2\<close> stream carries its arguments at the documented positions, and
  the reply decoder accepts exactly the replies that echo the command and mark the queue as
  present, returning the handle that follows.\<close>

theorem queue2_roundtrip:
  "dec_queue2_request (encodeGetDeviceQueue2CS fl dev fam i ri q @ r) = Some ((fl, dev, fam, i, ri, q), r) \<and>
   decodeGetDeviceQueue2Reply (le32 ctGetDeviceQueue2 @ le64 1 @ le64 h @ r) = (h, True) \<and>
   (snd (decodeGetDeviceQueue2Reply reply) \<longleftrightarrow>
     (\<exists>h rest. reply = le32 ctGetDeviceQueue2 @ le64 1 @ le64 h @ rest))"
proof -
  have sound: "\<exists>h rest. reply = le32 ctGetDeviceQueue2 @ le64 1 @ le64 h @ rest"
    if "snd (decodeGetDeviceQueue2Reply reply)"
  proof -
    have len: "20 \<le> length reply" and a: "get32 (take 4 reply) = ctGetDeviceQueue2"
        and b: "get64 (take 8 (drop 4 reply)) = 1"
      using that by (auto simp: decodeGetDeviceQueue2Reply_def split: if_splits)
    have "take 4 reply = le32 ctGetDeviceQueue2" "take 8 (drop 4 reply) = le64 1"
      using le32_get32_take[of reply] le64_get64_take[of "drop 4 reply"] len a b by simp_all
    moreover have "take 8 (drop 12 reply) = le64 (get64 (take 8 (drop 12 reply)))"
      using le64_get64_take[of "drop 12 reply"] len by simp
    moreover have "reply = take 4 reply @ take 8 (drop 4 reply) @ take 8 (drop 12 reply) @ drop 20 reply"
      using append_take_drop_id[of 4 reply] append_take_drop_id[of 8 "drop 4 reply"]
        append_take_drop_id[of 8 "drop 12 reply"] by (simp add: add.commute)
    ultimately show ?thesis by metis
  qed
  show ?thesis
    using dec_queue2_enc[of fl dev fam i ri q r] sound by (auto simp: decodeGetDeviceQueue2Reply_def)
qed

end
