(* ===== verification/Vtest_Client.thy ===== *)
theory Vtest_Client
  imports Vtest_Wire
begin

text \<open>
  The vtest client of \<open>vtest/client.go\<close> and \<open>vtest/venus.go\<close>: the methods of \<open>Client\<close> over an
  \<open>io.ReadWriter\<close>. A Go interface value is a record of methods over a state \<open>'s\<close>; a method
  that never returns (a read that blocks forever) is \<open>None\<close>. \<open>io.ReadFull\<close> is the loop of
  Go's \<open>io\<close> package.

  The locale \<open>duplex\<close> is the contract the client relies on: a live stream that accepts writes
  and delivers its incoming bytes in order, in pieces of any size. The behaviour of every
  method against a conforming peer is proved inside it.
\<close>

section \<open>The stream interface\<close>

record 's ReadWriter =
  rw_Write :: "bytes \<Rightarrow> 's \<Rightarrow> ((nat \<times> go_error option) \<times> 's) option"
  rw_Read :: "nat \<Rightarrow> 's \<Rightarrow> ((bytes \<times> go_error option) \<times> 's) option"

record 's Client =
  rw :: "'s ReadWriter"

definition New :: "'s ReadWriter \<Rightarrow> 's Client" where
  "New r = \<lparr>rw = r\<rparr>"

text \<open>\<open>net.Dial\<close> is the argument: the connection for a network and an address, or an error.\<close>

definition Dial :: "(string \<Rightarrow> string \<Rightarrow> go_error + 's ReadWriter) \<Rightarrow> string \<Rightarrow> ('s Client \<times> 's ReadWriter) res" where
  "Dial net_Dial socketPath = (case net_Dial ''unix'' socketPath of
     Inl err \<Rightarrow> Err (Errorf ''vtest: dial %s: %w'' [AStr socketPath, AErr err])
   | Inr conn \<Rightarrow> Ok (\<lparr>rw = conn\<rparr>, conn))"

definition Write :: "'s Client \<Rightarrow> bytes \<Rightarrow> ('s, nat) io" where
  "Write c p = (\<lambda>s. case rw_Write (rw c) p s of
     None \<Rightarrow> None
   | Some ((n, None), s') \<Rightarrow> Some (Ok n, s')
   | Some ((n, Some e), s') \<Rightarrow> Some (Err e, s'))"

text \<open>The loop of \<open>io.ReadAtLeast(r, buf, len(buf))\<close>; \<open>acc\<close> holds the bytes read so far.\<close>

partial_function (option) read_loop :: "'s ReadWriter \<Rightarrow> nat \<Rightarrow> bytes \<Rightarrow> 's \<Rightarrow> (bytes res \<times> 's) option" where
  "read_loop r n acc s =
     (if n \<le> length acc then Some (Ok acc, s)
      else case rw_Read r (n - length acc) s of
        None \<Rightarrow> None
      | Some ((chunk, None), s') \<Rightarrow> read_loop r n (acc @ chunk) s'
      | Some ((chunk, Some e), s') \<Rightarrow>
          Some (if n \<le> length (acc @ chunk) then Ok (acc @ chunk)
                else Err (if acc @ chunk \<noteq> [] \<and> e = EOF then ErrUnexpectedEOF else e), s'))"

declare read_loop.simps [code]

definition ReadFull :: "'s Client \<Rightarrow> nat \<Rightarrow> ('s, bytes) io" where
  "ReadFull c n = read_loop (rw c) n []"

section \<open>Methods of the client\<close>

definition readHeader :: "'s Client \<Rightarrow> ('s, u32 \<times> u32) io" where
  "readHeader c =
     try_io ''vtest: read header: %w'' (ReadFull c hdrBytes) (\<lambda>hdr.
     return_io (get32 (take 4 hdr), get32 (take 4 (drop 4 hdr))))"

definition Handshake :: "'s Client \<Rightarrow> string \<Rightarrow> u32 \<Rightarrow> ('s, u32) io" where
  "Handshake c name version =
     try_io ''vtest: create renderer: %w'' (Write c (encodeCreateRenderer name)) (\<lambda>_.
     try_io ''vtest: ping: %w'' (Write c encodePingProtocolVersion) (\<lambda>_.
     try_io ''vtest: ping reply: %w'' (readHeader c) (\<lambda>_.
     try_io ''vtest: protocol version: %w'' (Write c (encodeProtocolVersion version)) (\<lambda>_.
     try_io ''vtest: protocol version reply header: %w'' (readHeader c) (\<lambda>_.
     try_io ''vtest: protocol version reply body: %w'' (ReadFull c 4) (\<lambda>verBuf.
     return_io (get32 verBuf)))))))"

definition HandshakeVenus :: "'s Client \<Rightarrow> string \<Rightarrow> ('s, u32) io" where
  "HandshakeVenus c name = Handshake c name VtestProtocolVersionVenus"

definition CreateResource :: "'s Client \<Rightarrow> ResourceCreateArgs \<Rightarrow> ('s, unit) io" where
  "CreateResource c a =
     try_io ''vtest: resource create: %w'' (Write c (encodeResourceCreate a)) (\<lambda>_. return_io ())"

definition TransferPut :: "'s Client \<Rightarrow> TransferGetArgs \<Rightarrow> bytes \<Rightarrow> ('s, unit) io" where
  "TransferPut c a data =
     try_io ''vtest: transfer put: %w'' (Write c (encodeTransferPut a data)) (\<lambda>_. return_io ())"

definition SubmitCmd :: "'s Client \<Rightarrow> bytes \<Rightarrow> ('s, unit) io" where
  "SubmitCmd c cmdBuf = (case encodeSubmitCmd cmdBuf of
     Ok pkt \<Rightarrow> try_io ''vtest: submit cmd: %w'' (Write c pkt) (\<lambda>_. return_io ())
   | Err e \<Rightarrow> fail_io e
   | Panic \<Rightarrow> panic_io)"

definition TransferGet :: "'s Client \<Rightarrow> TransferGetArgs \<Rightarrow> ('s, bytes) io" where
  "TransferGet c a =
     try_io ''vtest: transfer get: %w'' (Write c (encodeTransferGet a)) (\<lambda>_.
     try_io ''vtest: transfer get readback: %w'' (ReadFull c (unat (tg_DataSize a))) return_io)"

definition readDwords :: "'s Client \<Rightarrow> nat \<Rightarrow> ('s, u32 list) io" where
  "readDwords c n =
     bind_io (ReadFull c (n * 4)) (\<lambda>buf.
     return_io (map (\<lambda>i. get32 (take 4 (drop (i * 4) buf))) [0..<n]))"

definition GetParam :: "'s Client \<Rightarrow> u32 \<Rightarrow> ('s, u32) io" where
  "GetParam c param =
     try_io ''vtest: get_param write: %w'' (Write c (encodeGetParam param)) (\<lambda>_.
     try_io ''vtest: get_param reply header: %w'' (readHeader c) (\<lambda>(len, cmd).
     if cmd \<noteq> VcmdGetParam \<or> len \<noteq> 2
     then fail_io (Errorf ''vtest: get_param reply mismatch: len=%d cmd=%d (want len=2 cmd=%d)''
            [ANum (uint len), ANum (uint cmd), ANum (uint VcmdGetParam)])
     else try_io ''vtest: get_param reply body: %w'' (readDwords c 2) (\<lambda>resp.
     if resp ! 0 = 0 then return_io 0 else return_io (resp ! 1))))"

definition GetCapset :: "'s Client \<Rightarrow> u32 \<Rightarrow> u32 \<Rightarrow> ('s, bytes \<times> bool) io" where
  "GetCapset c capsetID version =
     try_io ''vtest: get_capset write: %w'' (Write c (encodeGetCapset capsetID version)) (\<lambda>_.
     try_io ''vtest: get_capset reply header: %w'' (readHeader c) (\<lambda>(len, cmd).
     if cmd \<noteq> VcmdGetCapset
     then fail_io (Errorf ''vtest: get_capset reply cmd=%d want %d''
            [ANum (uint cmd), ANum (uint VcmdGetCapset)])
     else try_io ''vtest: get_capset valid: %w'' (ReadFull c 4) (\<lambda>validBuf.
     if get32 validBuf = 0 then return_io ([], False)
     else try_io ''vtest: get_capset body: %w'' (ReadFull c (unat (len - 1) * 4)) (\<lambda>capset.
     return_io (capset, True)))))"

definition ContextInit :: "'s Client \<Rightarrow> u32 \<Rightarrow> ('s, unit) io" where
  "ContextInit c capsetID =
     try_io ''vtest: context_init: %w'' (Write c (encodeContextInit capsetID)) (\<lambda>_. return_io ())"

definition SubmitCmd2 :: "'s Client \<Rightarrow> SubmitCmd2Batch \<Rightarrow> ('s, unit) io" where
  "SubmitCmd2 c batch = (case encodeSubmitCmd2 batch of
     Ok pkt \<Rightarrow> try_io ''vtest: submit_cmd2: %w'' (Write c pkt) (\<lambda>_. return_io ())
   | Err e \<Rightarrow> fail_io e
   | Panic \<Rightarrow> panic_io)"

section \<open>A live stream\<close>

locale duplex =
  fixes r :: "'s ReadWriter"
    and incoming :: "'s \<Rightarrow> bytes"
    and outgoing :: "'s \<Rightarrow> bytes"
    and live :: "'s \<Rightarrow> bool"
  assumes write_live: "live s \<Longrightarrow> \<exists>s'. rw_Write r p s = Some ((length p, None), s') \<and>
      live s' \<and> incoming s' = incoming s \<and> outgoing s' = outgoing s @ p"
    and read_live: "live s \<Longrightarrow> 0 < n \<Longrightarrow> incoming s \<noteq> [] \<Longrightarrow>
      \<exists>k s'. 0 < k \<and> k \<le> n \<and> k \<le> length (incoming s) \<and>
        rw_Read r n s = Some ((take k (incoming s), None), s') \<and>
        live s' \<and> incoming s' = drop k (incoming s) \<and> outgoing s' = outgoing s"
    and read_empty: "live s \<Longrightarrow> 0 < n \<Longrightarrow> incoming s = [] \<Longrightarrow> rw_Read r n s = None"
begin

text \<open>The state of the stream as the client sees it: what is still to come, what was sent.\<close>

definition stream_at :: "bytes \<Rightarrow> bytes \<Rightarrow> 's \<Rightarrow> bool" where
  "stream_at i out s \<longleftrightarrow> live s \<and> incoming s = i \<and> outgoing s = out"

lemma Write_wp:
  assumes "stream_at i out s"
  shows "wp (Write (New r) p) (\<lambda>x s'. \<exists>n. x = Ok n \<and> stream_at i (out @ p) s') s"
  using assms write_live[of s p] by (auto simp: wp_def Write_def New_def stream_at_def)

lemma read_loop_wp:
  assumes "stream_at (xs @ rest) out s" "n = length acc + length xs"
  shows "wp (read_loop r n acc) (\<lambda>x s'. x = Ok (acc @ xs) \<and> stream_at rest out s') s"
  using assms
proof (induction "length xs" arbitrary: xs acc s rule: less_induct)
  case less
  show ?case
  proof (cases "xs = []")
    case True
    with less.prems show ?thesis by (simp add: wp_def read_loop.simps)
  next
    case False
    with less.prems obtain k s' where k: "0 < k" "k \<le> length xs"
        and rd: "rw_Read r (length xs) s = Some ((take k (xs @ rest), None), s')"
        and s': "stream_at (drop k (xs @ rest)) out s'"
      using read_live[of s "length xs"] by (auto simp: stream_at_def)
    have "wp (read_loop r n (acc @ take k xs)) (\<lambda>x t. x = Ok ((acc @ take k xs) @ drop k xs) \<and>
        stream_at rest out t) s'"
      by (rule less.hyps) (use k s' less.prems(2) in simp_all)
    moreover have "read_loop r n acc s = read_loop r n (acc @ take k xs) s'"
      using False k rd less.prems(2) by (subst read_loop.simps) simp
    ultimately show ?thesis by (simp add: wp_def)
  qed
qed

lemma ReadFull_wp:
  assumes "stream_at (xs @ rest) out s" "n = length xs"
  shows "wp (ReadFull (New r) n) (\<lambda>x s'. \<exists>b. x = Ok b \<and> b = xs \<and> stream_at rest out s') s"
  using read_loop_wp[OF assms(1), of n "[]"] assms(2) by (simp add: ReadFull_def New_def)

text \<open>Waiting for more bytes than the peer ever sends: the read does not return.\<close>

lemma read_loop_blocks:
  assumes "stream_at i out s" "length acc + length i < n"
  shows "read_loop r n acc s = None"
  using assms
proof (induction "length i" arbitrary: i acc s rule: less_induct)
  case less
  show ?case
  proof (cases "i = []")
    case True
    with less.prems read_empty[of s "n - length acc"] show ?thesis
      by (subst read_loop.simps) (simp add: stream_at_def)
  next
    case False
    with less.prems obtain k s' where k: "0 < k" "k \<le> length i"
        and rd: "rw_Read r (n - length acc) s = Some ((take k i, None), s')"
        and s': "stream_at (drop k i) out s'"
      using read_live[of s "n - length acc"] by (auto simp: stream_at_def)
    have "read_loop r n (acc @ take k i) s' = None"
      by (rule less.hyps[OF _ s']) (use k less.prems(2) in simp_all)
    with rd less.prems(2) show ?thesis by (subst read_loop.simps) simp
  qed
qed

lemma ReadFull_blocks: "stream_at i out s \<Longrightarrow> length i < n \<Longrightarrow> ReadFull (New r) n s = None"
  using read_loop_blocks[of i out s "[]" n] by (simp add: ReadFull_def New_def)

lemma readHeader_wp:
  assumes "stream_at (le32 l @ le32 c @ rest) out s"
  shows "wp (readHeader (New r)) (\<lambda>x s'. \<exists>y. x = Ok y \<and> y = (l, c) \<and> stream_at rest out s') s"
  unfolding readHeader_def
  by (rule wp_try_Ok[OF ReadFull_wp[where xs = "le32 l @ le32 c" and rest = rest]])
    (use assms in \<open>auto simp: hdrBytes_def hdrSize_def\<close>)

text \<open>One request without reply: the bytes are sent and nothing else changes.\<close>

lemma send_wp:
  assumes "stream_at i out s"
  shows "wp (try_io msg (Write (New r) p) (\<lambda>_. return_io ())) (\<lambda>x s'. x = Ok () \<and> stream_at i (out @ p) s') s"
  by (rule wp_try_Ok[OF Write_wp[OF assms]]) simp

lemma Handshake_wp:
  assumes "stream_at (le32 l1 @ le32 c1 @ le32 l2 @ le32 c2 @ le32 v @ rest) out s"
  shows "wp (Handshake (New r) name version)
    (\<lambda>x s'. x = Ok v \<and> stream_at rest (out @ encodeCreateRenderer name @ encodePingProtocolVersion
        @ encodeProtocolVersion version) s') s"
  unfolding Handshake_def
  by (rule wp_try_Ok[OF Write_wp[OF assms]], rule wp_try_Ok[OF Write_wp], assumption,
      rule wp_try_Ok[OF readHeader_wp], assumption, elim conjE, rule wp_try_Ok[OF Write_wp], assumption,
      rule wp_try_Ok[OF readHeader_wp], assumption, elim conjE, rule wp_try_Ok[OF ReadFull_wp], assumption)
    auto

lemma readDwords_wp:
  assumes "stream_at (concat (map le32 ws) @ rest) out s" "n = length ws"
  shows "wp (readDwords (New r) n) (\<lambda>x s'. \<exists>y. x = Ok y \<and> y = ws \<and> stream_at rest out s') s"
  unfolding readDwords_def
  by (rule wp_try_Ok[OF ReadFull_wp[OF assms(1)]])
    (use assms(2) in \<open>auto intro!: nth_equalityI simp: get32_nth_dword\<close>)

text \<open>\<open>GetParam\<close> against a reply of the documented shape, and against a reply of any other shape.\<close>

lemma GetParam_wp:
  assumes "stream_at (le32 2 @ le32 VcmdGetParam @ le32 valid @ le32 v @ rest) out s"
  shows "wp (GetParam (New r) param) (\<lambda>x s'. x = Ok (if valid = 0 then 0 else v) \<and>
    stream_at rest (out @ encodeGetParam param) s') s"
  unfolding GetParam_def
  by (rule wp_try_Ok[OF Write_wp[OF assms]], rule wp_try_Ok[OF readHeader_wp], assumption, elim conjE,
      simp only: prod.case if_False simp_thms, rule wp_try_Ok[OF readDwords_wp[where ws = "[valid, v]"]])
    (auto simp: wp_def)

lemma GetParam_mismatch_wp:
  assumes "stream_at (le32 len @ le32 cmd @ rest) out s" "cmd \<noteq> VcmdGetParam \<or> len \<noteq> 2"
  shows "wp (GetParam (New r) param) (\<lambda>x s'. (\<exists>e. x = Err e) \<and>
    stream_at rest (out @ encodeGetParam param) s') s"
  unfolding GetParam_def
  by (rule wp_try_Ok[OF Write_wp[OF assms(1)]], rule wp_try_Ok[OF readHeader_wp], assumption)
    (use assms(2) in auto)

lemma GetCapset_wp:
  assumes "stream_at (le32 len @ le32 VcmdGetCapset @ le32 valid @ capset @ rest) out s"
    "valid \<noteq> 0" "length capset = unat (len - 1) * 4"
  shows "wp (GetCapset (New r) i v) (\<lambda>x s'. x = Ok (capset, True) \<and>
    stream_at rest (out @ encodeGetCapset i v) s') s"
  unfolding GetCapset_def
  by (rule wp_try_Ok[OF Write_wp[OF assms(1)]], rule wp_try_Ok[OF readHeader_wp], assumption, elim conjE,
      simp, rule wp_try_Ok[OF ReadFull_wp[where xs = "le32 valid"]])
    (use assms(2,3) in \<open>auto intro!: wp_try_Ok[OF ReadFull_wp[where xs = capset]]\<close>)

lemma GetCapset_invalid_wp:
  assumes "stream_at (le32 len @ le32 VcmdGetCapset @ le32 0 @ rest) out s"
  shows "wp (GetCapset (New r) i v) (\<lambda>x s'. x = Ok ([], False) \<and>
    stream_at rest (out @ encodeGetCapset i v) s') s"
  unfolding GetCapset_def
  by (rule wp_try_Ok[OF Write_wp[OF assms(1)]], rule wp_try_Ok[OF readHeader_wp], assumption, elim conjE,
      simp, rule wp_try_Ok[OF ReadFull_wp[where xs = "le32 0"]]) auto

text \<open>A valid reply whose header announces length 0: the count \<open>length - 1\<close> wraps around.\<close>

lemma GetCapset_zero_blocks:
  assumes "stream_at (le32 0 @ le32 VcmdGetCapset @ le32 valid @ rest) out s" "valid \<noteq> 0"
    "length rest < 17179869180"
  shows "GetCapset (New r) i v s = None"
proof -
  obtain n s1 where w: "Write (New r) (encodeGetCapset i v) s = Some (Ok n, s1)"
      "stream_at (le32 0 @ le32 VcmdGetCapset @ le32 valid @ rest) (out @ encodeGetCapset i v) s1"
    using Write_wp[OF assms(1), of "encodeGetCapset i v"] by (auto simp: wp_run)
  obtain s2 where h: "readHeader (New r) s1 = Some (Ok (0, VcmdGetCapset), s2)"
      "stream_at (le32 valid @ rest) (out @ encodeGetCapset i v) s2"
    using readHeader_wp[OF w(2)] by (auto simp: wp_run)
  obtain s3 where b: "ReadFull (New r) 4 s2 = Some (Ok (le32 valid), s3)"
      "stream_at rest (out @ encodeGetCapset i v) s3"
    using ReadFull_wp[OF h(2), of 4] by (auto simp: wp_run)
  have "ReadFull (New r) (unat ((0 :: u32) - 1) * 4) s3 = None"
    by (rule ReadFull_blocks[OF b(2)]) (use assms(3) in simp)
  then have "try_with f (ReadFull (New r) (unat ((0 :: u32) - 1) * 4)) k s3 = None" for f and k :: "bytes \<Rightarrow> ('s, 'b) io"
    by (simp add: try_with_def)
  with w(1) h(1) b(1) assms(2) show ?thesis by (simp add: GetCapset_def)
qed

lemma TransferGet_wp:
  assumes "stream_at (pixels @ rest) out s" "length pixels = unat (tg_DataSize a)"
  shows "wp (TransferGet (New r) a) (\<lambda>x s'. x = Ok pixels \<and>
    stream_at rest (out @ encodeTransferGet a) s') s"
  unfolding TransferGet_def
  by (rule wp_try_Ok[OF Write_wp[OF assms(1)]], rule wp_try_Ok[OF ReadFull_wp[where xs = pixels]])
    (use assms(2) in auto)

end

end
