(* ===== verification/Frames.thy ===== *)
theory Frames
  imports Go_Base
begin

text \<open>
  Frame conditions: a relation between the states before and after a computation, whatever its
  outcome. A reflexive and transitive relation composes along every construct of the model, so a
  frame of a long function follows from the frames of the calls it makes. Also the model of work
  that is done on every way out of a function.
\<close>

section \<open>On every way out\<close>

text \<open>\<open>defer c()\<close> before \<open>m\<close>, or a call \<open>c()\<close> between \<open>m\<close> and the check of its error: \<open>c\<close> runs whatever
  the outcome of \<open>m\<close>, and its own error is dropped.\<close>

definition afterwards :: "('s, unit) io \<Rightarrow> ('s, 'a) io \<Rightarrow> ('s, 'a) io" where
  "afterwards c m = (\<lambda>s. case m s of
     None \<Rightarrow> None
   | Some (r, s1) \<Rightarrow> (case c s1 of
       None \<Rightarrow> None
     | Some (Panic, s2) \<Rightarrow> Some (Panic, s2)
     | Some (_, s2) \<Rightarrow> Some (r, s2)))"

lemma afterwards_OkE:
  assumes "afterwards c m s = Some (Ok x, s')"
  obtains y s1 where "m s = Some (Ok x, s1)" "c s1 = Some (y, s')"
  using assms by (auto simp: afterwards_def split: option.splits prod.splits res.splits)

section \<open>Frames\<close>

definition framed :: "('s \<Rightarrow> 's \<Rightarrow> bool) \<Rightarrow> ('s, 'a) io \<Rightarrow> bool" where
  "framed R m \<longleftrightarrow> (\<forall>s r s'. m s = Some (r, s') \<longrightarrow> R s s')"

named_theorems frame_intros

lemma framedD: "framed R m \<Longrightarrow> m s = Some (r, s') \<Longrightarrow> R s s'"
  by (auto simp: framed_def)

lemma framedI: "(\<And>s r s'. m s = Some (r, s') \<Longrightarrow> R s s') \<Longrightarrow> framed R m"
  by (auto simp: framed_def)

lemma framed_cases [frame_intros]:
  "(b \<Longrightarrow> framed R m) \<Longrightarrow> (\<not> b \<Longrightarrow> framed R n) \<Longrightarrow> framed R (if b then m else n)"
  "(\<And>x y. p = (x, y) \<Longrightarrow> framed R (g x y)) \<Longrightarrow> framed R (case p of (x, y) \<Rightarrow> g x y)"
  by (auto split: prod.splits)

lemma framed_list [frame_intros]:
  "framed R m \<Longrightarrow> (\<And>x xs. framed R (g x xs)) \<Longrightarrow> framed R (case l of [] \<Rightarrow> m | x # xs \<Rightarrow> g x xs)"
  by (cases l) auto

lemma framed_option [frame_intros]:
  "framed R m \<Longrightarrow> (\<And>x. framed R (h x)) \<Longrightarrow> framed R (case z of None \<Rightarrow> m | Some x \<Rightarrow> h x)"
  by (cases z) auto

lemma framed_at: "(\<And>s. framed R (g s)) \<Longrightarrow> framed R (\<lambda>s. g s s)"
  by (auto simp: framed_def)

locale frame =
  fixes R :: "'s \<Rightarrow> 's \<Rightarrow> bool"
  assumes refl: "R s s" and trans: "R s t \<Longrightarrow> R t u \<Longrightarrow> R s u"
begin

lemma framed_pure [frame_intros]: "framed R (return_io x)" "framed R (fail_io e)" "framed R panic_io"
  by (auto simp: framed_def refl)

lemma framed_try [frame_intros]:
  assumes "framed R m" "\<And>x. framed R (k x)"
  shows "framed R (try_with h m k)"
proof (rule framedI)
  fix s r s' assume run: "try_with h m k s = Some (r, s')"
  then obtain y t where m: "m s = Some (y, t)" by (auto simp: try_with_def split: option.splits)
  with run framedD[OF assms(1) m] show "R s s'"
    using framedD[OF assms(2)] trans by (cases y) auto
qed

lemma framed_check [frame_intros]:
  assumes "framed R m" "\<And>e. framed R (h e)" "\<And>x. framed R (k x)"
  shows "framed R (check_io m h k)"
proof (rule framedI)
  fix s r s' assume run: "check_io m h k s = Some (r, s')"
  then obtain y t where m: "m s = Some (y, t)" by (auto simp: check_io_def split: option.splits)
  with run framedD[OF assms(1) m] show "R s s'"
    using framedD[OF assms(2)] framedD[OF assms(3)] trans by (cases y) (auto simp: check_io_def)
qed

lemma framed_afterwards [frame_intros]:
  assumes "framed R m" "framed R c"
  shows "framed R (afterwards c m)"
proof (rule framedI)
  fix s r s' assume "afterwards c m s = Some (r, s')"
  then obtain y t z where "m s = Some (y, t)" "c t = Some (z, s')"
    by (auto simp: afterwards_def split: option.splits prod.splits res.splits)
  then show "R s s'" using framedD[OF assms(1)] framedD[OF assms(2)] trans by blast
qed

end

text \<open>The frame of a view: what \<open>f\<close> reads of the state stays the same.\<close>

definition same :: "('s \<Rightarrow> 'b) \<Rightarrow> 's \<Rightarrow> 's \<Rightarrow> bool" where
  "same f s s' \<longleftrightarrow> f s' = f s"

interpretation view: frame "same f"
  by unfold_locales (simp_all add: same_def)

end
