(* ===== verification/Raw_Conn.thy ===== *)
theory Raw_Conn
  imports Vtest_Client Frames
begin

text \<open>
  The raw socket transport of \<open>vtest/venusring_linux.go\<close>: \<open>RawConn\<close> with its read, write and
  descriptor-passing loops over plain system calls.

  The kernel is a script: the outcomes of the successive system calls on the socket, chosen by
  the environment (which bytes arrive, how they are cut, when a call is interrupted, fails or
  finds the connection closed, how many bytes a write accepts). Theorems quantify over all
  scripts. A read on an exhausted script blocks forever (\<open>None\<close>); a write on an exhausted
  script is accepted whole. A message with control data (\<open>SCM_RIGHTS\<close>) travels in the byte
  stream: a plain read takes its bytes and loses the descriptors, as on Linux.
\<close>

section \<open>The socket\<close>

datatype cmsgs = CmsgBad | Cmsgs "nat list option list"

datatype rd_event = RdIntr | RdErr nat | RdEOF | RdData bytes | RdRights bytes cmsgs

datatype wr_event = WrIntr | WrErr nat | WrTake nat

record sock =
  rd_script :: "rd_event list"
  wr_script :: "wr_event list"
  tx :: bytes
  open_fds :: "nat list"

text \<open>\<open>open_fds\<close> is the process's table of open descriptors. Receiving a message installs every
  descriptor its control data carries.\<close>

fun rights :: "cmsgs \<Rightarrow> nat list" where
  "rights CmsgBad = []"
| "rights (Cmsgs cs) = concat (map (\<lambda>c. case c of None \<Rightarrow> [] | Some fds \<Rightarrow> fds) cs)"

definition EINTR :: nat where "EINTR = 4"

text \<open>\<open>read(2)\<close> with room for \<open>n\<close> bytes: the bytes delivered and the errno, if any.\<close>

fun sys_read :: "nat \<Rightarrow> sock \<Rightarrow> ((bytes \<times> nat option) \<times> sock) option" where
  "sys_read n s = (case rd_script s of
     [] \<Rightarrow> None
   | RdIntr # es \<Rightarrow> Some (([], Some EINTR), s\<lparr>rd_script := es\<rparr>)
   | RdErr e # es \<Rightarrow> Some (([], Some e), s\<lparr>rd_script := es\<rparr>)
   | RdEOF # es \<Rightarrow> Some (([], None), s)
   | RdData b # es \<Rightarrow> Some ((take n b, None),
       s\<lparr>rd_script := (if length b \<le> n then es else RdData (drop n b) # es)\<rparr>)
   | RdRights b c # es \<Rightarrow> Some ((take n b, None),
       s\<lparr>rd_script := (if length b \<le> n then es else RdData (drop n b) # es)\<rparr>))"

fun sys_write :: "bytes \<Rightarrow> sock \<Rightarrow> (nat \<times> nat option) \<times> sock" where
  "sys_write p s = (case wr_script s of
     [] \<Rightarrow> ((length p, None), s\<lparr>tx := tx s @ p\<rparr>)
   | WrIntr # ws \<Rightarrow> ((0, Some EINTR), s\<lparr>wr_script := ws\<rparr>)
   | WrErr e # ws \<Rightarrow> ((0, Some e), s\<lparr>wr_script := ws\<rparr>)
   | WrTake k # ws \<Rightarrow> ((min k (length p), None), s\<lparr>wr_script := ws, tx := tx s @ take k p\<rparr>))"

text \<open>\<open>recvmsg(2)\<close> with one byte of data room and 24 bytes for control messages.\<close>

fun sys_recvmsg :: "sock \<Rightarrow> ((nat \<times> cmsgs option \<times> nat option) \<times> sock) option" where
  "sys_recvmsg s = (case rd_script s of
     [] \<Rightarrow> None
   | RdIntr # es \<Rightarrow> Some ((0, None, Some EINTR), s\<lparr>rd_script := es\<rparr>)
   | RdErr e # es \<Rightarrow> Some ((0, None, Some e), s\<lparr>rd_script := es\<rparr>)
   | RdEOF # es \<Rightarrow> Some ((0, None, None), s)
   | RdData b # es \<Rightarrow> Some ((min 1 (length b), None, None),
       s\<lparr>rd_script := (if length b \<le> 1 then es else RdData (drop 1 b) # es)\<rparr>)
   | RdRights b c # es \<Rightarrow> Some ((min 1 (length b), Some c, None),
       s\<lparr>rd_script := (if length b \<le> 1 then es else RdData (drop 1 b) # es), open_fds := rights c @ open_fds s\<rparr>))"

section \<open>RawConn\<close>

function raw_write :: "bytes \<Rightarrow> nat \<Rightarrow> sock \<Rightarrow> (nat \<times> go_error option) \<times> sock" where
  "raw_write p tot s =
     (if p = [] then ((tot, None), s)
      else case sys_write p s of
        ((_, Some e), s') \<Rightarrow> if e = EINTR then raw_write p tot s' else ((tot, Some (Errno e)), s')
      | ((n, None), s') \<Rightarrow>
          if n = 0 then ((tot, Some (Errorf ''vtest: raw write returned 0'' [])), s')
          else raw_write (drop n p) (tot + n) s')"
  by pat_completeness auto
termination
  by (relation "measure (\<lambda>(p, tot, s). length p + length (wr_script s))")
    (auto split: list.splits wr_event.splits)

declare raw_write.simps [simp del]

definition RawConn_Write :: "bytes \<Rightarrow> sock \<Rightarrow> ((nat \<times> go_error option) \<times> sock) option" where
  "RawConn_Write p s = Some (raw_write p 0 s)"

function RawConn_Read :: "nat \<Rightarrow> sock \<Rightarrow> ((bytes \<times> go_error option) \<times> sock) option" where
  "RawConn_Read n s = (case sys_read n s of
     None \<Rightarrow> None
   | Some ((b, Some e), s') \<Rightarrow>
       if e = EINTR then RawConn_Read n s' else Some ((b, Some (Errno e)), s')
   | Some ((b, None), s') \<Rightarrow>
       if b = [] then Some (([], Some (Errorf ''vtest: raw read EOF (server closed connection)'' [])), s')
       else Some ((b, None), s'))"
  by pat_completeness auto
termination
  by (relation "measure (\<lambda>(n, s). length (rd_script s))")
    (auto split: list.splits rd_event.splits)

declare RawConn_Read.simps [simp del]

text \<open>\<open>RawConn\<close> as the \<open>io.ReadWriter\<close> behind a \<open>Client\<close>.\<close>

definition rawconn_rw :: "sock ReadWriter" where
  "rawconn_rw = \<lparr>rw_Write = RawConn_Write, rw_Read = RawConn_Read\<rparr>"

text \<open>The method \<open>readFull\<close>: a read either fails or makes progress, so the loop ends.\<close>

lemma RawConn_Read_progress:
  "RawConn_Read n s = Some ((b, None), s') \<Longrightarrow> 0 < length b"
  by (induction n s rule: RawConn_Read.induct)
    (subst (asm) (2) RawConn_Read.simps, auto split: option.splits prod.splits if_splits)

function RawConn_readFull :: "nat \<Rightarrow> bytes \<Rightarrow> (sock, bytes) io" where
  "RawConn_readFull n acc s =
     (if n \<le> length acc then Some (Ok acc, s)
      else case RawConn_Read (n - length acc) s of
        None \<Rightarrow> None
      | Some ((_, Some e), s') \<Rightarrow> Some (Err e, s')
      | Some ((b, None), s') \<Rightarrow> RawConn_readFull n (acc @ b) s')"
  by pat_completeness auto
termination
  by (relation "measure (\<lambda>(n, acc, s). n - length acc)") (auto dest!: RawConn_Read_progress intro!: diff_less_mono2)

declare RawConn_readFull.simps [simp del]

function RawConn_recvFD :: "(sock, nat) io" where
  "RawConn_recvFD s = (case sys_recvmsg s of
     None \<Rightarrow> None
   | Some ((_, _, Some e), s') \<Rightarrow>
       if e = EINTR then RawConn_recvFD s'
       else Some (Err (Errorf ''vtest: recvmsg blob fd: %w'' [AErr (Errno e)]), s')
   | Some ((n, oob, None), s') \<Rightarrow>
       if n = 0 \<and> oob = None
       then Some (Err (Errorf ''vtest: recvmsg blob fd: server closed (no fd)'' []), s')
       else case oob of
         None \<Rightarrow> Some (Err (Errorf ''vtest: no SCM_RIGHTS cmsg in blob reply'' []), s')
       | Some CmsgBad \<Rightarrow> Some (Err (Errorf ''vtest: parse cmsg: %w'' []), s')
       | Some (Cmsgs []) \<Rightarrow> Some (Err (Errorf ''vtest: no SCM_RIGHTS cmsg in blob reply'' []), s')
       | Some (Cmsgs (Some (fd # _) # _)) \<Rightarrow> Some (Ok fd, s')
       | Some (Cmsgs (_ # _)) \<Rightarrow> Some (Err (Errorf ''vtest: parse SCM_RIGHTS: %v'' []), s'))"
  by pat_completeness auto
termination
  by (relation "measure (\<lambda>s. length (rd_script s))") (auto split: list.splits rd_event.splits)

declare RawConn_recvFD.simps [simp del]

definition RawConn_send :: "bytes \<Rightarrow> (sock, nat) io" where
  "RawConn_send p = Write (New rawconn_rw) p"

definition ResourceCreateBlob :: "u32 \<Rightarrow> u32 \<Rightarrow> u64 \<Rightarrow> u64 \<Rightarrow> (sock, u32 \<times> nat) io" where
  "ResourceCreateBlob blobType flags sz blobID =
     try_io ''vtest: resource_create_blob write: %w''
       (RawConn_send (encodeResourceCreateBlob blobType flags sz blobID)) (\<lambda>_.
     try_io ''vtest: resource_create_blob reply header: %w'' (RawConn_readFull hdrBytes []) (\<lambda>hdr.
     let len = get32 (take 4 hdr); cmd = get32 (take 4 (drop 4 hdr)) in
     if cmd \<noteq> VcmdResourceCreateBlob \<or> len \<noteq> 1
     then fail_io (Errorf ''vtest: resource_create_blob reply mismatch len=%d cmd=%d (want len=1 cmd=%d)''
            [ANum (uint len), ANum (uint cmd), ANum (uint VcmdResourceCreateBlob)])
     else try_io ''vtest: resource_create_blob res_id: %w'' (RawConn_readFull 4 []) (\<lambda>idBuf.
     bind_io RawConn_recvFD (\<lambda>fd. return_io (get32 idBuf, fd)))))"

section \<open>RawConn is a duplex stream\<close>

fun ev_bytes :: "rd_event \<Rightarrow> bytes" where
  "ev_bytes (RdData b) = b"
| "ev_bytes (RdRights b c) = b"
| "ev_bytes _ = []"

fun good_rd :: "rd_event \<Rightarrow> bool" where
  "good_rd RdIntr = True"
| "good_rd (RdData b) = (b \<noteq> [])"
| "good_rd (RdRights b c) = (b \<noteq> [])"
| "good_rd _ = False"

fun good_wr :: "wr_event \<Rightarrow> bool" where
  "good_wr WrIntr = True"
| "good_wr (WrTake k) = (0 < k)"
| "good_wr (WrErr e) = False"

definition ev_data :: "rd_event list \<Rightarrow> bytes" where
  "ev_data evs = concat (map ev_bytes evs)"

definition raw_incoming :: "sock \<Rightarrow> bytes" where
  "raw_incoming s = ev_data (rd_script s)"

definition raw_live :: "sock \<Rightarrow> bool" where
  "raw_live s \<longleftrightarrow> list_all good_rd (rd_script s) \<and> list_all good_wr (wr_script s)"

text \<open>A write loop accounts for every byte: what it reports is what reached the wire.\<close>

lemma raw_write_accounts:
  "raw_write p tot s = ((n, e), s') \<Longrightarrow>
     tot \<le> n \<and> n \<le> tot + length p \<and> tx s' = tx s @ take (n - tot) p \<and>
     rd_script s' = rd_script s \<and> open_fds s' = open_fds s \<and> (e = None \<longrightarrow> n = tot + length p)"
proof (induction p tot s arbitrary: n e s' rule: raw_write.induct)
  case (1 p tot s)
  show ?case
  proof (cases "p = []")
    case True
    with "1.prems" show ?thesis by (simp add: raw_write.simps)
  next
    case False
    obtain k er t where w: "sys_write p s = ((k, er), t)" by (metis prod.collapse)
    have t: "k \<le> length p" "rd_script t = rd_script s" "open_fds t = open_fds s" "tx t = tx s @ take k p" "er \<noteq> None \<Longrightarrow> k = 0"
      using w by (auto split: list.splits wr_event.splits simp: min_def)
    consider (intr) "er = Some EINTR" | (err) c where "er = Some c" "c \<noteq> EINTR"
      | (zero) "er = None" "k = 0" | (take) "er = None" "0 < k" by (cases er) auto
    then show ?thesis
    proof cases
      case intr
      with False w "1.prems" have "raw_write p tot t = ((n, e), s')" by (simp add: raw_write.simps[of p tot s])
      with "1.IH"(2)[OF False w[symmetric] refl, of EINTR] intr t show ?thesis by simp
    next
      case err
      with False w "1.prems" t show ?thesis by (auto simp: raw_write.simps[of p tot s])
    next
      case zero
      with False w "1.prems" t show ?thesis by (auto simp: raw_write.simps[of p tot s])
    next
      case take
      with False w "1.prems" have *: "raw_write (drop k p) (tot + k) t = ((n, e), s')"
        by (simp add: raw_write.simps[of p tot s])
      from "1.IH"(1)[OF False w[symmetric] refl \<open>er = None\<close> _ this] take have
        "tot + k \<le> n" "n \<le> tot + k + length (drop k p)" "tx s' = tx t @ take (n - (tot + k)) (drop k p)"
        "rd_script s' = rd_script t" "open_fds s' = open_fds t" "e = None \<longrightarrow> n = tot + k + length (drop k p)" by auto
      moreover have "take k p @ take (n - (tot + k)) (drop k p) = take (n - tot) p"
        using \<open>tot + k \<le> n\<close> take_add[of k "n - (tot + k)" p] by simp
      ultimately show ?thesis using t by auto
    qed
  qed
qed

lemma raw_write_live:
  "list_all good_wr (wr_script s) \<Longrightarrow>
     \<exists>s'. raw_write p tot s = ((tot + length p, None), s') \<and> list_all good_wr (wr_script s')"
proof (induction p tot s rule: raw_write.induct)
  case (1 p tot s)
  show ?case
  proof (cases "p = []")
    case True
    with "1.prems" show ?thesis by (simp add: raw_write.simps)
  next
    case False
    obtain k er t where w: "sys_write p s = ((k, er), t)" by (metis prod.collapse)
    with "1.prems" False have t: "list_all good_wr (wr_script t)" "er = None \<or> er = Some EINTR"
        "er = None \<Longrightarrow> 0 < k \<and> k \<le> length p"
      by (auto split: list.splits wr_event.splits simp: min_def)
    show ?thesis
    proof (cases er)
      case None
      with t False w "1.IH"(1)[OF False w[symmetric] refl None _ t(1)] show ?thesis
        by (simp add: raw_write.simps[of p tot s])
    next
      case (Some c)
      with t False w "1.IH"(2)[OF False w[symmetric] refl Some _ t(1)] show ?thesis
        by (simp add: raw_write.simps[of p tot s])
    qed
  qed
qed

text \<open>A read takes a non-empty piece of the data that comes next, whatever interrupts it and
  whatever follows that data in the script.\<close>

lemma RawConn_Read_next:
  assumes "rd_script s = evs @ tail" "list_all good_rd evs" "0 < n" "ev_data evs \<noteq> []"
  shows "\<exists>k evs'. 0 < k \<and> k \<le> n \<and> k \<le> length (ev_data evs) \<and>
    RawConn_Read n s = Some ((take k (ev_data evs), None), s\<lparr>rd_script := evs' @ tail\<rparr>) \<and>
    list_all good_rd evs' \<and> ev_data evs' = drop k (ev_data evs)"
  using assms
proof (induction evs arbitrary: s)
  case Nil
  then show ?case by (simp add: ev_data_def)
next
  case (Cons ev es)
  show ?case
  proof (cases "ev = RdIntr")
    case True
    let ?t = "s\<lparr>rd_script := es @ tail\<rparr>"
    have "sys_read n s = Some (([], Some EINTR), ?t)" using Cons.prems(1) True by simp
    then have "RawConn_Read n s = RawConn_Read n ?t" by (simp add: RawConn_Read.simps[of n s])
    moreover have "ev_data es = ev_data (ev # es)" using True by (simp add: ev_data_def)
    ultimately show ?thesis using Cons.IH[of ?t] Cons.prems by simp
  next
    case False
    with Cons.prems obtain b where b: "ev_bytes ev = b" "b \<noteq> []"
      and rd: "sys_read n s = Some ((take n b, None),
        s\<lparr>rd_script := (if length b \<le> n then es @ tail else RdData (drop n b) # es @ tail)\<rparr>)"
      by (cases ev) auto
    with Cons.prems show ?thesis
      by (intro exI[of _ "min n (length b)"] exI[of _ "if length b \<le> n then es else RdData (drop n b) # es"])
        (auto simp: RawConn_Read.simps[of n s] ev_data_def)
  qed
qed

lemma RawConn_readFull_next:
  assumes "rd_script s = evs @ tail" "list_all good_rd evs" "ev_data evs = xs @ ys"
    "n = length acc + length xs"
  shows "\<exists>evs'. RawConn_readFull n acc s = Some (Ok (acc @ xs), s\<lparr>rd_script := evs' @ tail\<rparr>) \<and>
    list_all good_rd evs' \<and> ev_data evs' = ys"
  using assms
proof (induction "length xs" arbitrary: xs acc s evs rule: less_induct)
  case less
  show ?case
  proof (cases "xs = []")
    case True
    with less.prems show ?thesis
      by (intro exI[of _ evs]) (simp add: RawConn_readFull.simps flip: less.prems(1))
  next
    case False
    then obtain k evs1 where k: "0 < k" "k \<le> length xs" and evs1: "list_all good_rd evs1"
        "ev_data evs1 = drop k (xs @ ys)"
      and rd: "RawConn_Read (length xs) s = Some ((take k (xs @ ys), None), s\<lparr>rd_script := evs1 @ tail\<rparr>)"
      using RawConn_Read_next[OF less.prems(1,2), of "length xs"] less.prems(3) by auto
    have "RawConn_readFull n acc s = RawConn_readFull n (acc @ take k xs) (s\<lparr>rd_script := evs1 @ tail\<rparr>)"
      using False k rd less.prems(4) by (subst RawConn_readFull.simps) simp
    moreover have "\<exists>evs'. RawConn_readFull n (acc @ take k xs) (s\<lparr>rd_script := evs1 @ tail\<rparr>)
        = Some (Ok ((acc @ take k xs) @ drop k xs), s\<lparr>rd_script := evs1 @ tail\<rparr>\<lparr>rd_script := evs' @ tail\<rparr>) \<and>
        list_all good_rd evs' \<and> ev_data evs' = ys"
      by (rule less.hyps) (use k evs1 less.prems(4) in simp_all)
    ultimately show ?thesis by simp
  qed
qed

text \<open>Interruptions before the descriptor message are absorbed.\<close>

lemma RawConn_recvFD_next:
  assumes "rd_script s = evs @ RdRights [d] (Cmsgs (Some (fd # fds) # cs)) # tail"
    "list_all good_rd evs" "ev_data evs = []"
  shows "RawConn_recvFD s = Some (Ok fd, s\<lparr>rd_script := tail, open_fds := fd # fds @ rights (Cmsgs cs) @ open_fds s\<rparr>)"
  using assms
proof (induction evs arbitrary: s)
  case Nil
  then show ?case by (simp add: RawConn_recvFD.simps)
next
  case (Cons ev es)
  then have "ev = RdIntr" by (cases ev) (auto simp: ev_data_def)
  with Cons.prems Cons.IH[of "s\<lparr>rd_script := es @ RdRights [d] (Cmsgs (Some (fd # fds) # cs)) # tail\<rparr>"]
  show ?case by (subst RawConn_recvFD.simps) (simp add: ev_data_def)
qed

lemma RawConn_Read_silent:
  "list_all good_rd (rd_script s) \<Longrightarrow> ev_data (rd_script s) = [] \<Longrightarrow> RawConn_Read n s = None"
proof (induction "rd_script s" arbitrary: s)
  case Nil
  then show ?case by (simp add: RawConn_Read.simps flip: Nil(1))
next
  case (Cons ev es)
  then have "ev = RdIntr" by (cases ev) (auto simp: ev_data_def simp flip: Cons(2))
  with Cons have "RawConn_Read n s = RawConn_Read n (s\<lparr>rd_script := es\<rparr>)"
    by (simp add: RawConn_Read.simps[of n s] flip: Cons(2))
  with Cons \<open>ev = RdIntr\<close> show ?case by (simp add: ev_data_def flip: Cons(2))
qed

text \<open>The socket transport meets the contract of the client.\<close>

interpretation raw: duplex rawconn_rw raw_incoming tx raw_live
proof unfold_locales
  fix s p assume "raw_live s"
  then obtain s' where w: "raw_write p 0 s = ((0 + length p, None), s')" "list_all good_wr (wr_script s')"
    using raw_write_live[of s p 0] by (auto simp: raw_live_def)
  with raw_write_accounts[OF w(1)] \<open>raw_live s\<close>
  show "\<exists>s'. rw_Write rawconn_rw p s = Some ((length p, None), s') \<and>
      raw_live s' \<and> raw_incoming s' = raw_incoming s \<and> tx s' = tx s @ p"
    by (auto simp: rawconn_rw_def RawConn_Write_def raw_live_def raw_incoming_def)
next
  fix s :: sock and n :: nat
  assume "raw_live s" "0 < n" "raw_incoming s \<noteq> []"
  with RawConn_Read_next[of s "rd_script s" "[]" n]
  show "\<exists>k s'. 0 < k \<and> k \<le> n \<and> k \<le> length (raw_incoming s) \<and>
      rw_Read rawconn_rw n s = Some ((take k (raw_incoming s), None), s') \<and>
      raw_live s' \<and> raw_incoming s' = drop k (raw_incoming s) \<and> tx s' = tx s"
    by (auto simp: rawconn_rw_def raw_live_def raw_incoming_def)
next
  fix s :: sock and n :: nat
  assume "raw_live s" "0 < n" "raw_incoming s = []"
  then show "rw_Read rawconn_rw n s = None"
    by (simp add: rawconn_rw_def raw_live_def raw_incoming_def RawConn_Read_silent)
qed

section \<open>What a method puts on the wire\<close>

text \<open>\<open>sends m p\<close>: whenever \<open>m\<close> succeeds, over any script, it has sent exactly the bytes \<open>p\<close>.\<close>

definition sends :: "(sock, 'a) io \<Rightarrow> bytes \<Rightarrow> bool" where
  "sends m p \<longleftrightarrow> (\<forall>s x s'. m s = Some (Ok x, s') \<longrightarrow> tx s' = tx s @ p)"

lemma sendsD: "sends m p \<Longrightarrow> m s = Some (Ok x, s') \<Longrightarrow> tx s' = tx s @ p"
  by (auto simp: sends_def)

lemma sends_return: "sends (return_io x) []"
  by (auto simp: sends_def)

lemma sends_fail: "sends (fail_io e) p"
  by (auto simp: sends_def)

lemma sends_try: "sends m p \<Longrightarrow> (\<And>x. sends (k x) q) \<Longrightarrow> sends (try_with w m k) (p @ q)"
  unfolding sends_def by (auto elim!: try_with_OkE)

lemma sends_if: "sends m p \<Longrightarrow> sends n p \<Longrightarrow> sends (if b then m else n) p"
  by simp

lemma RawConn_Read_tx: "RawConn_Read n s = Some (r, s') \<Longrightarrow> tx s' = tx s"
proof (induction n s rule: RawConn_Read.induct)
  case (1 n s)
  show ?case
  proof (cases "sys_read n s")
    case None
    with "1.prems" show ?thesis by (simp add: RawConn_Read.simps)
  next
    case (Some y)
    then obtain b eo t where y: "sys_read n s = Some ((b, eo), t)" by (metis prod.collapse)
    then have "tx t = tx s" by (auto split: list.splits rd_event.splits)
    with y "1.prems" "1.IH"[OF y refl refl] show ?thesis
      by (cases eo) (auto simp: RawConn_Read.simps[of n s] split: if_splits)
  qed
qed

lemma read_loop_tx:
  assumes "read_loop rawconn_rw n acc s = Some y"
  shows "tx (snd y) = tx s"
proof -
  have "rawconn_rw = rawconn_rw \<longrightarrow> tx (snd y) = tx s"
    by (rule read_loop.raw_induct[where P = "\<lambda>r n acc s y. r = rawconn_rw \<longrightarrow> tx (snd y) = tx s", OF _ assms])
      (fastforce simp: rawconn_rw_def split: if_splits option.splits prod.splits dest: RawConn_Read_tx)
  then show ?thesis by simp
qed

lemma sends_Write: "sends (Write (New rawconn_rw) p) p"
proof -
  have "tx s' = tx s @ p" if "Write (New rawconn_rw) p s = Some (Ok x, s')" for s s' x
  proof -
    obtain n e t where w: "raw_write p 0 s = ((n, e), t)" by (metis prod.collapse)
    with that have "e = None" "t = s'"
      by (auto simp: Write_def New_def rawconn_rw_def RawConn_Write_def split: option.splits)
    with raw_write_accounts[OF w] show ?thesis by simp
  qed
  then show ?thesis by (simp add: sends_def)
qed

lemma sends_ReadFull: "sends (ReadFull (New rawconn_rw) n) []"
  by (auto simp: sends_def ReadFull_def New_def dest: read_loop_tx)

lemma readFull_tx: "RawConn_readFull n acc s = Some (r, s') \<Longrightarrow> tx s' = tx s"
proof (induction n acc s rule: RawConn_readFull.induct)
  case (1 n acc s)
  show ?case
  proof (cases "RawConn_Read (n - length acc) s")
    case None
    with "1.prems" show ?thesis by (auto simp: RawConn_readFull.simps[of n acc s] split: if_splits)
  next
    case (Some y)
    then obtain b eo t where y: "RawConn_Read (n - length acc) s = Some ((b, eo), t)" by (metis prod.collapse)
    with RawConn_Read_tx[OF y] "1.prems" "1.IH"[OF _ y refl refl] show ?thesis
      by (cases eo) (auto simp: RawConn_readFull.simps[of n acc s] split: if_splits)
  qed
qed

lemma recvmsg_tx: "sys_recvmsg s = Some (r, t) \<Longrightarrow> tx t = tx s"
  by (auto split: list.splits rd_event.splits)

lemma recvFD_tx: "RawConn_recvFD s = Some (r, s') \<Longrightarrow> tx s' = tx s"
proof (induction s rule: RawConn_recvFD.induct)
  case (1 s)
  show ?case
  proof (cases "sys_recvmsg s")
    case None
    with "1.prems" show ?thesis by (simp add: RawConn_recvFD.simps del: sys_recvmsg.simps)
  next
    case (Some y)
    then obtain n oob eo t where y: "sys_recvmsg s = Some ((n, oob, eo), t)" by (metis prod.collapse)
    show ?thesis
    proof (cases "eo = Some EINTR")
      case True
      with y recvmsg_tx[OF y] "1.prems" "1.IH"[OF y refl refl refl] show ?thesis
        by (simp add: RawConn_recvFD.simps[of s] del: sys_recvmsg.simps)
    next
      case False
      with y recvmsg_tx[OF y] "1.prems" show ?thesis
        by (auto simp: RawConn_recvFD.simps[of s] simp del: sys_recvmsg.simps
            split: option.splits if_splits cmsgs.splits list.splits)
    qed
  qed
qed

lemma sends_readFull: "sends (RawConn_readFull n acc) []" and sends_recvFD: "sends RawConn_recvFD []"
  by (auto simp: sends_def dest: readFull_tx recvFD_tx)

lemmas sends_intros = sends_return sends_fail sends_try sends_Write sends_ReadFull sends_readFull sends_recvFD

lemma sends_eq: "sends m p \<Longrightarrow> p = q \<Longrightarrow> sends m q"
  by simp

lemma sends_readHeader: "sends (readHeader (New rawconn_rw)) []"
  unfolding readHeader_def by (rule sends_eq, (rule sends_intros)+) simp

lemma sends_Handshake:
  "sends (Handshake (New rawconn_rw) name v)
     (encodeCreateRenderer name @ encodePingProtocolVersion @ encodeProtocolVersion v)"
  unfolding Handshake_def by (rule sends_eq, (rule sends_readHeader sends_intros)+) simp

lemma sends_readDwords: "sends (readDwords (New rawconn_rw) n) []"
  unfolding readDwords_def by (rule sends_eq, (rule sends_intros)+) simp

lemma sends_GetParam: "sends (GetParam (New rawconn_rw) p) (encodeGetParam p)"
  unfolding GetParam_def
  by (rule sends_eq, rule sends_try[OF sends_Write], rule sends_try[OF sends_readHeader])
    (auto intro!: sends_fail sends_try[OF sends_readDwords, where q = "[]", simplified] sends_return)

lemma sends_GetCapset: "sends (GetCapset (New rawconn_rw) i v) (encodeGetCapset i v)"
  unfolding GetCapset_def
  by (rule sends_eq, rule sends_try[OF sends_Write], rule sends_try[OF sends_readHeader])
    (auto intro!: sends_fail sends_try[OF sends_ReadFull, where q = "[]", simplified] sends_return)

lemma sends_ContextInit: "sends (ContextInit (New rawconn_rw) i) (encodeContextInit i)"
  unfolding ContextInit_def by (rule sends_eq, (rule sends_intros)+) simp

lemma sends_SubmitCmd2:
  "encodeSubmitCmd2 b = Ok pkt \<Longrightarrow> sends (SubmitCmd2 (New rawconn_rw) b) pkt"
  unfolding SubmitCmd2_def by (simp, rule sends_eq, (rule sends_intros)+) simp

lemma sends_ResourceCreateBlob:
  "sends (ResourceCreateBlob bt fl sz bid) (encodeResourceCreateBlob bt fl sz bid)"
  unfolding ResourceCreateBlob_def RawConn_send_def Let_def
  by (rule sends_eq, rule sends_try[OF sends_Write], rule sends_try[OF sends_readFull],
      rule sends_if, rule sends_fail, (rule sends_intros)+) simp

section \<open>Properties of the client over the socket\<close>

text \<open>C18. Against a server that answers with two headers and a version, the handshake returns
  that version, consumes exactly the reply, and has sent exactly the three commands
  \<open>CREATE_RENDERER\<close>, \<open>PING\<close>, \<open>PROTOCOL_VERSION\<close> in this order, however the kernel cuts or
  interrupts the transfers. The contents of the two reply headers play no role.\<close>

theorem handshake_negotiates:
  assumes "raw_live s" "raw_incoming s = le32 l1 @ le32 c1 @ le32 l2 @ le32 c2 @ le32 v @ rest"
    "length name < 2 ^ 32"
  shows "\<exists>s'. Handshake (New rawconn_rw) name version s = Some (Ok v, s') \<and>
    raw_live s' \<and> raw_incoming s' = rest \<and>
    (\<exists>sent. tx s' = tx s @ sent \<and>
      dec_many parse_vcmd 3 sent = Some ([CmdCreateRenderer name, CmdPing, CmdProtocolVersion version], []))"
proof -
  have "raw.stream_at (le32 l1 @ le32 c1 @ le32 l2 @ le32 c2 @ le32 v @ rest) (tx s) s"
    using assms(1,2) by (simp add: raw.stream_at_def)
  from raw.Handshake_wp[OF this, of name version]
  obtain s' where "Handshake (New rawconn_rw) name version s = Some (Ok v, s')" "raw_live s'"
    "raw_incoming s' = rest" "tx s' = tx s @ encodeCreateRenderer name @ encodePingProtocolVersion
      @ encodeProtocolVersion version"
    by (auto simp: wp_run raw.stream_at_def)
  moreover have "dec_many parse_vcmd 3 (encodeCreateRenderer name @ encodePingProtocolVersion
      @ encodeProtocolVersion version) = Some ([CmdCreateRenderer name, CmdPing, CmdProtocolVersion version], [])"
    using parse_encode_fixed(2)[of version "[]"]
    by (simp add: parse_encode_create[OF assms(3)] parse_encode_fixed)
  ultimately show ?thesis by blast
qed

text \<open>A conforming server reply, cut into awkward pieces with interruptions in between.\<close>

definition demo_sock :: "bytes \<Rightarrow> sock" where
  "demo_sock reply = \<lparr>rd_script = [RdData (take 3 reply), RdIntr, RdData (drop 3 reply)],
     wr_script = [WrTake 5, WrIntr], tx = [], open_fds = []\<rparr>"

lemma demo_sock_live: "3 < length reply \<Longrightarrow> raw_live (demo_sock reply)"
  by (auto simp: demo_sock_def raw_live_def)

lemma demo_sock_incoming: "raw_incoming (demo_sock reply) = reply"
  by (simp add: demo_sock_def raw_incoming_def ev_data_def)

theorem handshake_negotiates_witness:
  "\<exists>s'. Handshake (New rawconn_rw) ''go-virtio'' 2
      (demo_sock (le32 0 @ le32 10 @ le32 1 @ le32 11 @ le32 2 @ [])) = Some (Ok 2, s')"
  using handshake_negotiates[OF demo_sock_live demo_sock_incoming, of 0 10 1 11 2 "[]" "''go-virtio''" 2]
  by auto

text \<open>\<open>GetParam\<close> against a reply of the documented shape returns the value, or 0 when the
  server marks the parameter invalid, and leaves the stream at the end of the reply.\<close>

theorem get_param_returns:
  assumes "raw_live s" "raw_incoming s = le32 2 @ le32 VcmdGetParam @ le32 valid @ le32 v @ rest"
  shows "\<exists>s'. GetParam (New rawconn_rw) param s = Some (Ok (if valid = 0 then 0 else v), s') \<and>
    raw_live s' \<and> raw_incoming s' = rest \<and> tx s' = tx s @ encodeGetParam param"
  using assms raw.GetParam_wp[of valid v rest "tx s" s param] by (auto simp: wp_run raw.stream_at_def)

theorem get_param_returns_witness:
  "\<exists>s'. GetParam (New rawconn_rw) VcmdParamMaxTimelineCount
      (demo_sock (le32 2 @ le32 VcmdGetParam @ le32 1 @ le32 64 @ [])) = Some (Ok 64, s')"
  using get_param_returns[OF demo_sock_live demo_sock_incoming, of 1 64 "[]" VcmdParamMaxTimelineCount]
  by auto

text \<open>\<open>GetParam\<close> rejects every reply whose header is not \<open>[2, GET_PARAM]\<close>.\<close>

theorem get_param_rejects_mismatch:
  assumes "raw_live s" "raw_incoming s = le32 len @ le32 cmd @ rest" "cmd \<noteq> VcmdGetParam \<or> len \<noteq> 2"
  shows "\<exists>e s'. GetParam (New rawconn_rw) param s = Some (Err e, s') \<and> raw_incoming s' = rest"
  using assms raw.GetParam_mismatch_wp[of len cmd rest "tx s" s param] by (auto simp: wp_run raw.stream_at_def)

theorem get_param_rejects_mismatch_witness:
  "\<exists>e s'. GetParam (New rawconn_rw) 1 (demo_sock (le32 3 @ le32 VcmdGetParam @ [1])) = Some (Err e, s')"
  using get_param_rejects_mismatch[OF demo_sock_live demo_sock_incoming, of 3 VcmdGetParam "[1]" 1] by auto

text \<open>\<open>GetCapset\<close> returns the capset bytes announced by the reply header, \<open>(len - 1) * 4\<close> of
  them, when the server marks the capset valid.\<close>

theorem get_capset_returns:
  assumes "raw_live s" "raw_incoming s = le32 len @ le32 VcmdGetCapset @ le32 valid @ capset @ rest"
    "valid \<noteq> 0" "0 < len" "length capset = (unat len - 1) * 4"
  shows "\<exists>s'. GetCapset (New rawconn_rw) i v s = Some (Ok (capset, True), s') \<and>
    raw_live s' \<and> raw_incoming s' = rest \<and> tx s' = tx s @ encodeGetCapset i v"
proof -
  have "unat (len - 1) = unat len - 1"
    using assms(4) by (simp add: unat_minus_one word_greater_zero_iff)
  with assms raw.GetCapset_wp[of len valid capset rest "tx s" s i v] show ?thesis
    by (auto simp: wp_run raw.stream_at_def)
qed

theorem get_capset_returns_witness:
  "\<exists>s'. GetCapset (New rawconn_rw) CapsetVenus 0
      (demo_sock (le32 3 @ le32 VcmdGetCapset @ le32 1 @ [1, 2, 3, 4, 5, 6, 7, 8] @ [])) = Some (Ok ([1, 2, 3, 4, 5, 6, 7, 8], True), s')"
  using get_capset_returns[OF demo_sock_live demo_sock_incoming, of 3 1 "[1, 2, 3, 4, 5, 6, 7, 8]" "[]" CapsetVenus 0]
  by auto

text \<open>C20. A \<open>GET_CAPSET\<close> reply marked valid but announcing length 0 makes \<open>length - 1\<close> wrap to
  \<open>2 ^ 32 - 1\<close>: the client then waits for 17179869180 capset bytes and never returns unless
  the server sends that many.\<close>

theorem get_capset_zero_length_blocks:
  assumes "raw_live s" "raw_incoming s = le32 0 @ le32 VcmdGetCapset @ le32 valid @ rest"
    "valid \<noteq> 0" "length rest < 17179869180"
  shows "GetCapset (New rawconn_rw) i v s = None"
  using assms raw.GetCapset_zero_blocks[of valid rest "tx s" s i v] by (simp add: raw.stream_at_def)

theorem get_capset_zero_length_blocks_witness:
  "GetCapset (New rawconn_rw) CapsetVenus 0
      (demo_sock (le32 0 @ le32 VcmdGetCapset @ le32 1 @ [1, 2, 3, 4])) = None"
  by (rule get_capset_zero_length_blocks[OF demo_sock_live demo_sock_incoming]) simp_all

text \<open>\<open>TransferGet\<close> returns exactly \<open>DataSize\<close> bytes, the next bytes the server sends.\<close>

theorem transfer_get_reads_back:
  assumes "raw_live s" "raw_incoming s = pixels @ rest" "length pixels = unat (tg_DataSize a)"
  shows "\<exists>s'. TransferGet (New rawconn_rw) a s = Some (Ok pixels, s') \<and>
    raw_live s' \<and> raw_incoming s' = rest \<and> parse_vcmd (drop (length (tx s)) (tx s')) = Some (CmdTransferGet a, [])"
  using assms raw.TransferGet_wp[of pixels rest "tx s" s a] parse_encode_fixed(3)[of a "[]"]
  by (auto simp: wp_run raw.stream_at_def)

theorem transfer_get_reads_back_witness:
  "\<exists>s'. TransferGet (New rawconn_rw) \<lparr>tg_Handle = 1, tg_Level = 0, tg_Stride = 8, tg_LayerStride = 8,
      tg_X = 0, tg_Y = 0, tg_Z = 0, tg_Width = 2, tg_Height = 1, tg_Depth = 1, tg_DataSize = 8\<rparr>
      (demo_sock ([1, 2, 3, 4, 5, 6, 7, 8] @ [])) = Some (Ok [1, 2, 3, 4, 5, 6, 7, 8], s')"
  using transfer_get_reads_back[OF demo_sock_live demo_sock_incoming, of "[1, 2, 3, 4, 5, 6, 7, 8]" "[]"
    "\<lparr>tg_Handle = 1, tg_Level = 0, tg_Stride = 8, tg_LayerStride = 8,
      tg_X = 0, tg_Y = 0, tg_Z = 0, tg_Width = 2, tg_Height = 1, tg_Depth = 1, tg_DataSize = 8\<rparr>"]
  by auto

text \<open>C21. The write loop of the raw transport never loses or repeats a byte: whatever the
  kernel accepts, refuses or interrupts, the bytes on the wire grow by exactly the count
  reported, a prefix of the buffer, and a nil error means the whole buffer went out.\<close>

theorem raw_write_exact:
  assumes "RawConn_Write p s = Some ((n, e), s')"
  shows "n \<le> length p \<and> tx s' = tx s @ take n p \<and> (e = None \<longrightarrow> n = length p) \<and> rd_script s' = rd_script s"
  using assms raw_write_accounts[of p 0 s n e s'] by (simp add: RawConn_Write_def)

theorem raw_write_exact_witness:
  "\<exists>n e s'. RawConn_Write [1, 2, 3] \<lparr>rd_script = [], wr_script = [WrTake 2, WrIntr, WrErr 32], tx = [9], open_fds = []\<rparr>
     = Some ((n, e), s') \<and> tx s' = [9] @ take n [1, 2, 3]"
proof -
  let ?s = "\<lparr>rd_script = [], wr_script = [WrTake 2, WrIntr, WrErr 32], tx = [9], open_fds = []\<rparr>"
  obtain n e s' where run: "RawConn_Write [1, 2, 3] ?s = Some ((n, e), s')"
    by (metis RawConn_Write_def prod.collapse)
  from raw_write_exact[OF run] run show ?thesis by auto
qed

text \<open>C22. \<open>ResourceCreateBlob\<close> returns the resource id and the descriptor the server passes,
  for every way the kernel cuts or interrupts the twelve reply bytes before the message that
  carries the descriptor; the reply bytes are read without running into that message. Every
  descriptor of that message is then open in the process, but only the first is returned: a
  second one, for which the 24 bytes of control data have room, stays open for good.\<close>

theorem resource_create_blob_receives_fd:
  assumes "list_all good_wr (wr_script s)"
    "rd_script s = evs @ RdRights [d] (Cmsgs (Some (fd # fds) # cs)) # tail"
    "list_all good_rd evs" "ev_data evs = le32 1 @ le32 VcmdResourceCreateBlob @ le32 resID"
  shows "\<exists>s'. ResourceCreateBlob t f sz b s = Some (Ok (resID, fd), s') \<and> rd_script s' = tail \<and>
    tx s' = tx s @ encodeResourceCreateBlob t f sz b \<and> open_fds s' = fd # fds @ rights (Cmsgs cs) @ open_fds s"
proof -
  let ?m = "RdRights [d] (Cmsgs (Some (fd # fds) # cs))"
  obtain s1 where w: "raw_write (encodeResourceCreateBlob t f sz b) 0 s
      = ((length (encodeResourceCreateBlob t f sz b), None), s1)"
    using raw_write_live[OF assms(1), of "encodeResourceCreateBlob t f sz b" 0] by auto
  then have s1: "rd_script s1 = evs @ ?m # tail" "tx s1 = tx s @ encodeResourceCreateBlob t f sz b" "open_fds s1 = open_fds s"
    using raw_write_accounts[OF w] assms(2) by auto
  obtain evs2 where h: "RawConn_readFull 8 [] s1
      = Some (Ok (le32 1 @ le32 VcmdResourceCreateBlob), s1\<lparr>rd_script := evs2 @ ?m # tail\<rparr>)"
    "list_all good_rd evs2" "ev_data evs2 = le32 resID"
    using RawConn_readFull_next[OF s1(1) assms(3), of "le32 1 @ le32 VcmdResourceCreateBlob" "le32 resID" 8 "[]"]
      assms(4) by auto
  let ?s2 = "s1\<lparr>rd_script := evs2 @ ?m # tail\<rparr>"
  obtain evs3 where r: "RawConn_readFull 4 [] ?s2 = Some (Ok (le32 resID), s1\<lparr>rd_script := evs3 @ ?m # tail\<rparr>)"
    "list_all good_rd evs3" "ev_data evs3 = []"
    using RawConn_readFull_next[OF _ h(2), of ?s2 "?m # tail" "le32 resID" "[]" 4 "[]"] h(3) by auto
  have "RawConn_recvFD (s1\<lparr>rd_script := evs3 @ ?m # tail\<rparr>) =
      Some (Ok fd, s1\<lparr>rd_script := tail, open_fds := fd # fds @ rights (Cmsgs cs) @ open_fds s1\<rparr>)"
    using RawConn_recvFD_next[OF _ r(2,3), of "s1\<lparr>rd_script := evs3 @ ?m # tail\<rparr>"] by simp
  with w h(1) r(1) s1 show ?thesis
    by (simp add: ResourceCreateBlob_def RawConn_send_def Write_def New_def rawconn_rw_def
        RawConn_Write_def hdrBytes_def hdrSize_def Let_def)
qed

theorem resource_create_blob_receives_fd_witness:
  "\<exists>s'. ResourceCreateBlob BlobTypeHost3D BlobFlagMappable 4096 0
     \<lparr>rd_script = [RdData (le32 1 @ le32 VcmdResourceCreateBlob), RdIntr, RdData (le32 5), RdIntr]
        @ RdRights [0] (Cmsgs [Some [7, 8]]) # [], wr_script = [WrTake 3], tx = [], open_fds = []\<rparr> = Some (Ok (5, 7), s') \<and> open_fds s' = [7, 8]"
  using resource_create_blob_receives_fd[of "\<lparr>rd_script = [RdData (le32 1 @ le32 VcmdResourceCreateBlob),
      RdIntr, RdData (le32 5), RdIntr] @ RdRights [0] (Cmsgs [Some [7, 8]]) # [], wr_script = [WrTake 3], tx = [], open_fds = []\<rparr>"
    "[RdData (le32 1 @ le32 VcmdResourceCreateBlob), RdIntr, RdData (le32 5), RdIntr]" 0 7 "[8]" "[]" "[]" 5
    BlobTypeHost3D BlobFlagMappable 4096 0]
  by (auto simp: ev_data_def simp flip: length_0_conv)

end
