(* ===== verification/Shm_World.thy ===== *)
theory Shm_World
  imports Raw_Conn
begin

text \<open>
  The process's view of the machine for the ring drivers: the vtest socket, the shared-memory
  mappings, the clock, and the host renderer, which writes into the mappings while the driver
  runs.

  The host is a script of actions, one consumed before every load from shared memory: the bytes
  it stores (mapping, offset, value) and the nanoseconds that pass. Between two loads the driver
  observes nothing of the host, so every interleaving the driver can observe is a script.
  \<open>mmap\<close> is scripted by its outcomes; an exhausted script maps zeros. \<open>w_live\<close> are the mappings
  not yet unmapped; the driver does not touch a mapping after unmapping it, so the contents of
  an unmapped one are left as they were.
\<close>

section \<open>State\<close>

datatype host_act = HostAct "(nat \<times> nat \<times> byte) list" nat

record world =
  w_sock :: sock
  w_dial :: "nat option \<times> nat option"
  w_mmap :: "(nat + bytes) list"
  w_maps :: "bytes list"
  w_live :: "nat list"
  w_host :: "host_act list"
  w_clock :: int

definition EINVAL :: nat where "EINVAL = 22"

definition on_sock :: "(sock, 'a) io \<Rightarrow> (world, 'a) io" where
  "on_sock m w = (case m (w_sock w) of None \<Rightarrow> None | Some (r, s) \<Rightarrow> Some (r, w\<lparr>w_sock := s\<rparr>))"

text \<open>\<open>close(2)\<close>.\<close>

definition EBADF :: nat where "EBADF = 9"

definition sys_close :: "nat \<Rightarrow> (world, unit) io" where
  "sys_close fd w =
     (if fd \<in> set (open_fds (w_sock w))
      then Some (Ok (), w\<lparr>w_sock := (w_sock w)\<lparr>open_fds := remove1 fd (open_fds (w_sock w))\<rparr>\<rparr>)
      else Some (Err (Errno EBADF), w))"

text \<open>\<open>socket(2)\<close> and \<open>connect(2)\<close> are scripted by their errnos; a new descriptor is the lowest number
  that is free.\<close>

definition fresh_fd :: "nat list \<Rightarrow> nat" where
  "fresh_fd fds = hd (filter (\<lambda>n. n \<notin> set fds) [0..<Suc (length fds)])"

definition sys_socket :: "(world, nat) io" where
  "sys_socket w = (case fst (w_dial w) of
     Some e \<Rightarrow> Some (Err (Errno e), w)
   | None \<Rightarrow> let fd = fresh_fd (open_fds (w_sock w)) in
       Some (Ok fd, w\<lparr>w_sock := (w_sock w)\<lparr>open_fds := fd # open_fds (w_sock w)\<rparr>\<rparr>))"

definition sys_connect :: "nat \<Rightarrow> string \<Rightarrow> (world, unit) io" where
  "sys_connect fd path w = (case snd (w_dial w) of
     Some e \<Rightarrow> Some (Err (Errno e), w)
   | None \<Rightarrow> Some (Ok (), w))"

text \<open>The result stands for the \<open>RawConn\<close>, whose only field is the descriptor.\<close>

definition DialRaw :: "string \<Rightarrow> (world, nat) io" where
  "DialRaw socketPath =
     try_io ''vtest: socket: %w'' sys_socket (\<lambda>fd.
     check_io (sys_connect fd socketPath)
       (\<lambda>e. afterwards (sys_close fd) (fail_io (Errorf ''vtest: connect %s: %w'' [AStr socketPath, AErr e])))
       (\<lambda>_. return_io fd))"

definition RawConn_Close :: "nat \<Rightarrow> (world, unit) io" where
  "RawConn_Close fd = sys_close fd"

text \<open>\<open>syscall.Mmap(fd, 0, n, ...)\<close>: the new mapping has exactly \<open>n\<close> bytes.\<close>

definition sys_mmap :: "goint \<Rightarrow> (world, nat) io" where
  "sys_mmap n w =
     (if sint n \<le> 0 then Some (Err (Errno EINVAL), w)
      else case w_mmap w of
        Inl e # ms \<Rightarrow> Some (Err (Errno e), w\<lparr>w_mmap := ms\<rparr>)
      | Inr b # ms \<Rightarrow> Some (Ok (length (w_maps w)),
          w\<lparr>w_mmap := ms, w_maps := w_maps w @ [take (unat n) (b @ replicate (unat n) 0)], w_live := length (w_maps w) # w_live w\<rparr>)
      | [] \<Rightarrow> Some (Ok (length (w_maps w)),
          w\<lparr>w_maps := w_maps w @ [replicate (unat n) 0], w_live := length (w_maps w) # w_live w\<rparr>))"

definition sys_munmap :: "nat \<Rightarrow> (world, unit) io" where
  "sys_munmap h w =
     (if h \<in> set (w_live w) then Some (Ok (), w\<lparr>w_live := remove1 h (w_live w)\<rparr>)
      else Some (Err (Errno EINVAL), w))"

text \<open>\<open>Mmap\<close> and then \<open>Close\<close> of the descriptor, before the error of \<open>Mmap\<close> is checked.\<close>

definition map_blob :: "nat \<Rightarrow> goint \<Rightarrow> (world, nat) io" where
  "map_blob fd n = afterwards (sys_close fd) (sys_mmap n)"

section \<open>The host renderer\<close>

fun host_store :: "nat \<times> nat \<times> byte \<Rightarrow> bytes list \<Rightarrow> bytes list" where
  "host_store (h, i, v) ms = (if h < length ms then ms[h := (ms ! h)[i := v]] else ms)"

definition host_step :: "world \<Rightarrow> world" where
  "host_step w = (case w_host w of
     [] \<Rightarrow> w
   | HostAct sts t # acts \<Rightarrow>
       w\<lparr>w_host := acts, w_maps := fold host_store sts (w_maps w), w_clock := w_clock w + int t\<rparr>)"

section \<open>Access to a mapping\<close>

text \<open>\<open>mem[lo:hi]\<close> with Go's bounds check on 64-bit signed indices.\<close>

definition slice_ok :: "goint \<Rightarrow> goint \<Rightarrow> bytes \<Rightarrow> bool" where
  "slice_ok lo hi xs \<longleftrightarrow> 0 \<le> sint lo \<and> sint lo \<le> sint hi \<and> sint hi \<le> int (length xs)"

definition load_slice :: "nat \<Rightarrow> goint \<Rightarrow> goint \<Rightarrow> (world, bytes) io" where
  "load_slice h lo hi w0 = (let w = host_step w0; m = w_maps w ! h in
     if slice_ok lo hi m then Some (Ok (take (unat hi - unat lo) (drop (unat lo) m)), w)
     else Some (Panic, w))"

text \<open>\<open>copy(mem[lo:hi], src)\<close>; the guest's stores into the mapping.\<close>

definition store_slice :: "nat \<Rightarrow> goint \<Rightarrow> goint \<Rightarrow> bytes \<Rightarrow> (world, unit) io" where
  "store_slice h lo hi src w = (let m = w_maps w ! h in
     if slice_ok lo hi m
     then Some (Ok (), w\<lparr>w_maps := (w_maps w)[h := blit (unat lo) (take (unat hi - unat lo) src) m]\<rparr>)
     else Some (Panic, w))"

definition map_len :: "nat \<Rightarrow> world \<Rightarrow> goint" where
  "map_len h w = of_nat (length (w_maps w ! h))"

text \<open>\<open>for i := range mem { mem[i] = v }\<close>\<close>

definition fill_map :: "nat \<Rightarrow> byte \<Rightarrow> (world, unit) io" where
  "fill_map h v w = Some (Ok (), w\<lparr>w_maps := (w_maps w)[h := replicate (length (w_maps w ! h)) v]\<rparr>)"

definition sleep :: "nat \<Rightarrow> world \<Rightarrow> world" where
  "sleep d w = w\<lparr>w_clock := w_clock w + int d\<rparr>"

section \<open>Descriptors and mappings leave the stream alone\<close>

lemma fds_stream [simp]:
  "raw_live (s\<lparr>open_fds := x\<rparr>) = raw_live s" "raw_incoming (s\<lparr>open_fds := x\<rparr>) = raw_incoming s"
  by (simp_all add: raw_live_def raw_incoming_def)

lemma sys_close_keeps:
  "sys_close fd w = Some (r, w') \<Longrightarrow> \<exists>fds. w' = w\<lparr>w_sock := (w_sock w)\<lparr>open_fds := fds\<rparr>\<rparr>"
  by (auto simp: sys_close_def split: if_splits intro: exI[of _ "open_fds (w_sock w)"])

lemma sys_close_returns: "\<exists>r w'. sys_close fd w = Some (r, w') \<and> r \<noteq> Panic"
  by (cases "fd \<in> set (open_fds (w_sock w))") (simp_all add: sys_close_def)

lemma sys_munmap_keeps: "sys_munmap h w = Some (r, w') \<Longrightarrow> \<exists>l. w' = w\<lparr>w_live := l\<rparr>"
  by (auto simp: sys_munmap_def split: if_splits intro: exI[of _ "w_live w"])

lemma DialRaw_Ok:
  "DialRaw path w = Some (Ok fd, w') \<Longrightarrow>
     fd = fresh_fd (open_fds (w_sock w)) \<and> w' = w\<lparr>w_sock := (w_sock w)\<lparr>open_fds := fd # open_fds (w_sock w)\<rparr>\<rparr>"
  by (auto simp: DialRaw_def sys_socket_def sys_connect_def try_with_def check_io_def afterwards_def sys_close_def Let_def
      split: option.splits if_splits)

lemma map_blob_Ok:
  assumes "map_blob fd n w = Some (Ok mem, w')"
  obtains "mem = length (w_maps w)" "tx (w_sock w') = tx (w_sock w)" "w_clock w' = w_clock w"
  using assms unfolding map_blob_def
  by (elim afterwards_OkE) (auto dest!: sys_close_keeps simp: sys_mmap_def split: if_splits list.splits sum.splits)

lemma map_blob_run:
  assumes "map_blob fd n w = Some (Ok mem, w')"
  obtains b where "0 < sint n" "mem = length (w_maps w)" "w_maps w' = w_maps w @ [b]" "length b = unat n"
    "w_host w' = w_host w"
  using assms unfolding map_blob_def
  by (elim afterwards_OkE) (auto dest!: sys_close_keeps simp: sys_mmap_def split: if_splits list.splits sum.splits)

section \<open>The host changes contents, never the mappings\<close>

lemma host_store_shape [simp]: "map length (host_store st ms) = map length ms"
  by (cases st) (auto simp: list_eq_iff_nth_eq nth_list_update)

lemma fold_host_store_shape [simp]: "map length (fold host_store sts ms) = map length ms"
  by (induction sts arbitrary: ms) simp_all

definition same_shape :: "world \<Rightarrow> world \<Rightarrow> bool" where
  "same_shape w w' \<longleftrightarrow> map length (w_maps w') = map length (w_maps w)"

lemma same_shape_refl [simp]: "same_shape w w"
  by (simp add: same_shape_def)

lemma same_shape_trans: "same_shape a b \<Longrightarrow> same_shape b c \<Longrightarrow> same_shape a c"
  by (simp add: same_shape_def)

lemma same_shapeD:
  assumes "same_shape w w'" "h < length (w_maps w)"
  shows "h < length (w_maps w')" "length (w_maps w' ! h) = length (w_maps w ! h)"
proof -
  from assms have len: "length (w_maps w') = length (w_maps w)"
    unfolding same_shape_def by (metis length_map)
  with assms show "h < length (w_maps w')" by simp
  with assms len show "length (w_maps w' ! h) = length (w_maps w ! h)"
    unfolding same_shape_def by (metis nth_map)
qed

lemma host_step_shape [simp]: "same_shape w (host_step w)"
  by (simp add: same_shape_def host_step_def split: list.split host_act.split)

lemma host_step_clock: "w_clock w \<le> w_clock (host_step w)"
  by (simp add: host_step_def split: list.split host_act.split)

lemma host_step_sock [simp]: "w_sock (host_step w) = w_sock w"
  by (simp add: host_step_def split: list.split host_act.split)

lemma host_step_idle [simp]: "w_host w = [] \<Longrightarrow> host_step w = w"
  by (simp add: host_step_def)

lemma sleep_simps [simp]:
  "w_maps (sleep d w) = w_maps w" "w_host (sleep d w) = w_host w" "w_sock (sleep d w) = w_sock w"
  "w_clock (sleep d w) = w_clock w + int d" "same_shape w (sleep d w)"
  by (simp_all add: sleep_def same_shape_def)

lemma sint_small [simp]: "n < 2 ^ 63 \<Longrightarrow> sint (of_nat n :: goint) = int n"
  by (simp add: signed_of_nat signed_take_bit_int_eq_self)


lemma goint_nonneg:
  assumes "0 \<le> sint (i :: goint)"
  obtains n where "i = of_nat n" "n < 2 ^ 63" "sint i = int n"
proof
  show "i = of_nat (nat (sint i))" using assms by simp
  show "nat (sint i) < 2 ^ 63" using sint_less[of i] by simp
qed (use assms in simp)

lemma slice_fits:
  assumes "slice_ok lo hi m"
  shows "unat lo + length (take (unat hi - unat lo) src) \<le> length m" "unat lo \<le> length m"
proof -
  from assms have lo: "0 \<le> sint lo" and hi: "sint lo \<le> sint hi" and len: "sint hi \<le> int (length m)"
    by (auto simp: slice_ok_def)
  obtain a where a: "lo = of_nat a" "a < 2 ^ 63" "sint lo = int a" using lo by (rule goint_nonneg)
  have "0 \<le> sint hi" using lo hi by simp
  then obtain b where b: "hi = of_nat b" "b < 2 ^ 63" "sint hi = int b" by (rule goint_nonneg)
  have u: "unat lo = a" "unat hi = b" using a(1,2) b(1,2) by (simp_all add: unat_of_nat_u64)
  show "unat lo + length (take (unat hi - unat lo) src) \<le> length m" "unat lo \<le> length m"
    using hi len a(3) b(3) unfolding u by auto
qed

end
