(* ===== verification/Venus_Ring.thy ===== *)
theory Venus_Ring
  imports Shm_World Venus_CS
begin

text \<open>
  The Venus command ring: the layout of \<open>vtest/venusring.go\<close> and the \<open>MappedRing\<close> of
  \<open>vtest/venusring_linux.go\<close>. A \<open>MappedRing\<close> refers to its shared memory by the index of the
  mapping. \<open>Head\<close>, \<open>Tail\<close> and \<open>Status\<close> load from it; \<open>writeCmd\<close> and \<open>Submit\<close> store into it,
  with Go's 32-bit wrap-around and slice bounds checks; \<open>WaitHead\<close> polls the host-owned head
  word. The locale \<open>byte_ring\<close> states what a producer promises to the consumer of a circular
  buffer; the refinement to a byte queue is proved in it and interpreted on \<open>Submit\<close>.
\<close>

section \<open>Layout\<close>

definition ringCacheLine :: goint where "ringCacheLine = 64"
definition ringHeadOffset :: goint where "ringHeadOffset = 0"
definition ringTailOffset :: goint where "ringTailOffset = ringCacheLine"
definition ringStatusOffset :: goint where "ringStatusOffset = 2 * ringCacheLine"
definition ringBufferOffset :: goint where "ringBufferOffset = 3 * ringCacheLine"
definition ringControlWord :: goint where "ringControlWord = 4"

lemmas ring_layout_defs = ringCacheLine_def ringHeadOffset_def ringTailOffset_def
  ringStatusOffset_def ringBufferOffset_def ringControlWord_def

definition RingShmemSize :: "goint \<Rightarrow> goint \<Rightarrow> goint" where
  "RingShmemSize bufferSize extraSize = ringBufferOffset + bufferSize + extraSize"

definition ringCreateInfoForBlob :: "u32 \<Rightarrow> goint \<Rightarrow> goint \<Rightarrow> u64 \<Rightarrow> RingCreateInfoMESA" where
  "ringCreateInfoForBlob resID bufferSize extraSize idleTimeout =
     \<lparr>ri_Flags = 0, ri_ResourceID = resID, ri_Offset = 0,
      ri_Size = RingShmemSize bufferSize extraSize, ri_IdleTimeout = idleTimeout,
      ri_HeadOffset = ringHeadOffset, ri_TailOffset = ringTailOffset,
      ri_StatusOffset = ringStatusOffset, ri_BufferOffset = ringBufferOffset,
      ri_BufferSize = bufferSize, ri_ExtraOffset = ringBufferOffset + bufferSize,
      ri_ExtraSize = extraSize\<rparr>"

section \<open>The mapped ring\<close>

record MappedRing =
  mr_ResID :: u32
  mr_mem :: nat
  mr_bufferSize :: goint
  mr_cur :: u32

definition Head :: "MappedRing \<Rightarrow> (world, u32) io" where
  "Head m = bind_io (load_slice (mr_mem m) ringHeadOffset (ringHeadOffset + ringControlWord))
     (\<lambda>b. return_io (get32 b))"

definition Tail :: "MappedRing \<Rightarrow> (world, u32) io" where
  "Tail m = bind_io (load_slice (mr_mem m) ringTailOffset (ringTailOffset + ringControlWord))
     (\<lambda>b. return_io (get32 b))"

definition Status :: "MappedRing \<Rightarrow> (world, u32) io" where
  "Status m = bind_io (load_slice (mr_mem m) ringStatusOffset (ringStatusOffset + ringControlWord))
     (\<lambda>b. return_io (get32 b))"

definition writeCmd :: "MappedRing \<Rightarrow> u32 \<Rightarrow> bytes \<Rightarrow> (world, u32) io" where
  "writeCmd m cur cmd w = (
     let bufSize = ucast (mr_bufferSize m) :: u32;
         mask = bufSize - 1;
         start = cur AND mask;
         n = of_nat (length cmd) :: u32;
         base = ringBufferOffset;
         mem = mr_mem m;
         len = map_len mem w;
         newCur = cur + n
     in bind_io
          (if start + n \<le> bufSize then store_slice mem (base + ucast start) len cmd
           else let first = bufSize - start in
             if length cmd < unat first then panic_io
             else bind_io (store_slice mem (base + ucast start) (base + mr_bufferSize m) (take (unat first) cmd))
               (\<lambda>_. store_slice mem base len (drop (unat first) cmd)))
          (\<lambda>_. bind_io (store_slice mem ringTailOffset (ringTailOffset + ringControlWord) (le32 newCur))
          (\<lambda>_. return_io newCur)) w)"

definition Submit :: "MappedRing \<Rightarrow> bytes \<Rightarrow> (world, u32 \<times> MappedRing) io" where
  "Submit m cmd = bind_io (writeCmd m (mr_cur m) cmd) (\<lambda>c. return_io (c, m\<lparr>mr_cur := c\<rparr>))"

definition Extra :: "MappedRing \<Rightarrow> (world, bytes) io" where
  "Extra m w = load_slice (mr_mem m) (ringBufferOffset + mr_bufferSize m) (map_len (mr_mem m) w) w"

definition Unmap :: "MappedRing \<Rightarrow> (world, unit) io" where
  "Unmap m = sys_munmap (mr_mem m)"

text \<open>The polling loop of \<open>WaitHead\<close>: the loop sleeps 500 microseconds per round, so it ends
  whatever the host does.\<close>

lemma Head_clock: "Head m w = Some (r, w') \<Longrightarrow> w_clock w \<le> w_clock w'"
  by (auto simp: Head_def load_slice_def Let_def try_with_def host_step_clock split: if_splits)

function wait_loop :: "MappedRing \<Rightarrow> u32 \<Rightarrow> int \<Rightarrow> (world, u32 \<times> bool) io" where
  "wait_loop m seqno deadline w = (case Head m w of
     None \<Rightarrow> None
   | Some (Ok head, w1) \<Rightarrow>
       if seqno \<le> head then Some (Ok (head, True), w1)
       else if deadline < w_clock w1 then Some (Ok (head, False), w1)
       else wait_loop m seqno deadline (sleep 500000 w1)
   | Some (Err e, w1) \<Rightarrow> Some (Err e, w1)
   | Some (Panic, w1) \<Rightarrow> Some (Panic, w1))"
  by pat_completeness auto
termination
  by (relation "measure (\<lambda>(m, seqno, deadline, w). nat (deadline + 1 - w_clock w))")
    (auto dest!: Head_clock)

declare wait_loop.simps [simp del]

definition WaitHead :: "MappedRing \<Rightarrow> u32 \<Rightarrow> int \<Rightarrow> (world, u32 \<times> bool) io" where
  "WaitHead m seqno timeout w = wait_loop m seqno (w_clock w + timeout) w"

section \<open>Well-formed rings\<close>

definition wf_ring :: "MappedRing \<Rightarrow> world \<Rightarrow> bool" where
  "wf_ring m w \<longleftrightarrow> mr_mem m < length (w_maps w) \<and> (\<exists>k\<le>31. unat (mr_bufferSize m) = 2 ^ k) \<and>
     192 + unat (mr_bufferSize m) \<le> length (w_maps w ! mr_mem m) \<and>
     length (w_maps w ! mr_mem m) < 2 ^ 63"

lemma wf_ring_shape: "same_shape w w' \<Longrightarrow> wf_ring m w \<Longrightarrow> wf_ring m w'"
  by (auto simp: wf_ring_def dest: same_shapeD)

text \<open>A slice of the mapping given by natural-number bounds.\<close>

lemma slice_ok_nat:
  assumes "length xs < 2 ^ 63" "a \<le> b" "b \<le> length xs"
  shows "slice_ok (of_nat a) (of_nat b) xs"
  using assms by (simp add: slice_ok_def)

lemma load_slice_nat:
  assumes "length (w_maps (host_step w) ! h) < 2 ^ 63" "a \<le> b" "b \<le> length (w_maps (host_step w) ! h)"
  shows "load_slice h (of_nat a) (of_nat b) w =
    Some (Ok (take (b - a) (drop a (w_maps (host_step w) ! h))), host_step w)"
  using assms slice_ok_nat[OF assms] by (simp add: load_slice_def Let_def)

lemma store_slice_nat:
  assumes "length (w_maps w ! h) < 2 ^ 63" "a \<le> b" "b \<le> length (w_maps w ! h)" "length src \<le> b - a"
  shows "store_slice h (of_nat a) (of_nat b) src w =
    Some (Ok (), w\<lparr>w_maps := (w_maps w)[h := blit a src (w_maps w ! h)]\<rparr>)"
  using assms slice_ok_nat[OF assms(1-3)] by (simp add: store_slice_def Let_def)

text \<open>The control word at byte \<open>off\<close> of the ring.\<close>

definition ctrl_word :: "nat \<Rightarrow> MappedRing \<Rightarrow> world \<Rightarrow> u32" where
  "ctrl_word off m w = get32 (take 4 (drop off (w_maps w ! mr_mem m)))"

lemma ctrl_loads:
  assumes "wf_ring m w"
  shows "Head m w = Some (Ok (ctrl_word 0 m (host_step w)), host_step w)"
    and "Tail m w = Some (Ok (ctrl_word 64 m (host_step w)), host_step w)"
    and "Status m w = Some (Ok (ctrl_word 128 m (host_step w)), host_step w)"
proof -
  have wf: "wf_ring m (host_step w)" using assms host_step_shape wf_ring_shape by blast
  have ld: "load_slice (mr_mem m) (of_nat a) (of_nat (a + 4)) w =
      Some (Ok (take 4 (drop a (w_maps (host_step w) ! mr_mem m))), host_step w)" if "a \<le> 188" for a
    using wf that by (subst load_slice_nat) (auto simp: wf_ring_def)
  show "Head m w = Some (Ok (ctrl_word 0 m (host_step w)), host_step w)"
    using ld[of 0] by (simp add: Head_def ctrl_word_def ring_layout_defs)
  show "Tail m w = Some (Ok (ctrl_word 64 m (host_step w)), host_step w)"
    using ld[of 64] by (simp add: Tail_def ctrl_word_def ring_layout_defs)
  show "Status m w = Some (Ok (ctrl_word 128 m (host_step w)), host_step w)"
    using ld[of 128] by (simp add: Status_def ctrl_word_def ring_layout_defs)
qed

section \<open>The effect of a submission\<close>

text \<open>The ring memory after a command of \<open>cmd\<close> bytes at cursor \<open>cur\<close>, on natural-number indices.\<close>

definition ring_mem :: "nat \<Rightarrow> u32 \<Rightarrow> bytes \<Rightarrow> bytes \<Rightarrow> bytes" where
  "ring_mem sz cur cmd mem = (let st = unat cur mod sz in
     blit 64 (le32 (cur + of_nat (length cmd)))
       (if st + length cmd \<le> sz then blit (192 + st) cmd mem
        else blit 192 (drop (sz - st) cmd) (blit (192 + st) (take (sz - st) cmd) mem)))"

text \<open>Masking with a power of two is reduction modulo it.\<close>

lemma unat_and_mask:
  fixes b cur :: u32
  assumes "unat b = 2 ^ k" "k \<le> 31"
  shows "unat (cur AND (b - 1)) = unat cur mod 2 ^ k"
proof -
  have "b = of_nat (unat b)" by simp
  also have "\<dots> = 2 ^ k" using assms(1) by simp
  finally have "cur AND (b - 1) = take_bit k cur" by (simp add: take_bit_eq_mask mask_eq_exp_minus_1)
  then have "unat (cur AND (b - 1)) = take_bit k (unat cur)" by (simp only: unsigned_take_bit_eq)
  then show ?thesis by (simp only: take_bit_eq_mod)
qed

text \<open>The two cases of the copy into the buffer, on natural-number indices.\<close>

lemma buffer_stores:
  assumes "h < length (w_maps w)" "mem = w_maps w ! h" "192 + sz \<le> length mem" "length mem < 2 ^ 63"
    "st < sz" "length cmd \<le> sz"
  shows "(if st + length cmd \<le> sz then store_slice h (of_nat (192 + st)) (of_nat (length mem)) cmd
      else if length cmd < sz - st then panic_io
      else bind_io (store_slice h (of_nat (192 + st)) (of_nat (192 + sz)) (take (sz - st) cmd))
        (\<lambda>_. store_slice h (of_nat 192) (of_nat (length mem)) (drop (sz - st) cmd))) w
    = Some (Ok (), w\<lparr>w_maps := (w_maps w)[h := (if st + length cmd \<le> sz then blit (192 + st) cmd mem
        else blit 192 (drop (sz - st) cmd) (blit (192 + st) (take (sz - st) cmd) mem))]\<rparr>)"
    (is "?run w = Some (Ok (), w\<lparr>w_maps := (w_maps w)[h := ?body]\<rparr>)")
proof (cases "st + length cmd \<le> sz")
  case True
  then have "store_slice h (of_nat (192 + st)) (of_nat (length mem)) cmd w =
      Some (Ok (), w\<lparr>w_maps := (w_maps w)[h := ?body]\<rparr>)"
    using assms by (subst store_slice_nat) simp_all
  with True show ?thesis by (simp only: if_True)
next
  case False
  let ?w0 = "w\<lparr>w_maps := (w_maps w)[h := blit (192 + st) (take (sz - st) cmd) mem]\<rparr>"
  have fst: "store_slice h (of_nat (192 + st)) (of_nat (192 + sz)) (take (sz - st) cmd) w = Some (Ok (), ?w0)"
    using assms by (subst store_slice_nat) simp_all
  have snd: "store_slice h (of_nat 192) (of_nat (length mem)) (drop (sz - st) cmd) ?w0 =
      Some (Ok (), w\<lparr>w_maps := (w_maps w)[h := ?body]\<rparr>)"
    using False assms by (subst store_slice_nat) simp_all
  have "\<not> length cmd < sz - st" using False by simp
  with False show ?thesis
    by (simp only: if_False try_with_Ok[where m = "store_slice _ _ _ _", OF fst] snd)
qed

lemma writeCmd_effect:
  assumes "wf_ring m w" "length cmd \<le> unat (mr_bufferSize m)"
  shows "writeCmd m cur cmd w = Some (Ok (cur + of_nat (length cmd)),
    w\<lparr>w_maps := (w_maps w)[mr_mem m :=
      ring_mem (unat (mr_bufferSize m)) cur cmd (w_maps w ! mr_mem m)]\<rparr>)"
proof -
  let ?h = "mr_mem m" and ?mem = "w_maps w ! mr_mem m" and ?sz = "unat (mr_bufferSize m)"
  let ?bs = "ucast (mr_bufferSize m) :: u32" and ?n = "of_nat (length cmd) :: u32"
  obtain k where k: "k \<le> 31" "?sz = 2 ^ k" and h: "?h < length (w_maps w)"
      and fit: "192 + ?sz \<le> length ?mem" "length ?mem < 2 ^ 63"
    using assms(1) by (auto simp: wf_ring_def)
  have "?sz \<le> 2 ^ 31" unfolding k(2) using k(1) by (rule power_increasing) simp
  then have bs: "unat ?bs = ?sz" by (simp add: unsigned_ucast_eq take_bit_nat_eq_self)
  define start where "start = cur AND (?bs - 1)"
  define st where "st = unat cur mod ?sz"
  have st: "unat start = st" "st < ?sz"
    using unat_and_mask[of ?bs k cur] k bs by (simp_all add: start_def st_def)
  have n: "unat ?n = length cmd" using assms(2) \<open>?sz \<le> 2 ^ 31\<close> by simp
  have le: "start + ?n \<le> ?bs \<longleftrightarrow> st + length cmd \<le> ?sz"
    using st n bs assms(2) \<open>?sz \<le> 2 ^ 31\<close> by (simp add: word_le_nat_alt unat_word_ariths)
  have first: "unat (?bs - start) = ?sz - st"
    using st bs by (simp add: unat_sub word_le_nat_alt)
  have idx: "ringBufferOffset + ucast start = of_nat (192 + st)" "ringBufferOffset = of_nat 192"
      "ringBufferOffset + mr_bufferSize m = of_nat (192 + ?sz)" "ringTailOffset = of_nat 64"
      "ringTailOffset + ringControlWord = of_nat 68"
    by (simp_all add: ring_layout_defs st(1)[symmetric])
  note stores = store_slice_nat[where h = ?h]
  define body where "body = (if st + length cmd \<le> ?sz then blit (192 + st) cmd ?mem
    else blit 192 (drop (?sz - st) cmd) (blit (192 + st) (take (?sz - st) cmd) ?mem))"
  have len: "length body = length ?mem" using fit assms(2) st(2) by (auto simp: body_def)
  let ?w1 = "w\<lparr>w_maps := (w_maps w)[?h := body]\<rparr>"
  have run: "(if start + ?n \<le> ?bs then store_slice ?h (ringBufferOffset + ucast start) (map_len ?h w) cmd
      else if length cmd < unat (?bs - start) then panic_io
        else bind_io (store_slice ?h (ringBufferOffset + ucast start) (ringBufferOffset + mr_bufferSize m)
            (take (unat (?bs - start)) cmd))
          (\<lambda>_. store_slice ?h ringBufferOffset (map_len ?h w) (drop (unat (?bs - start)) cmd))) w
      = Some (Ok (), ?w1)"
    unfolding le first idx(1,3) map_len_def unfolding idx(2) body_def
    by (rule buffer_stores) (use fit st(2) h assms(2) in auto)
  have tail: "store_slice ?h ringTailOffset (ringTailOffset + ringControlWord) (le32 (cur + ?n)) ?w1
      = Some (Ok (), ?w1\<lparr>w_maps := (w_maps ?w1)[?h := blit 64 (le32 (cur + ?n)) body]\<rparr>)"
    unfolding idx(5) unfolding idx(4) using fit h len by (subst stores) auto
  show ?thesis
    unfolding writeCmd_def Let_def start_def[symmetric]
    by (subst try_with_Ok, rule run, subst try_with_Ok, rule tail)
      (use h in \<open>simp add: ring_mem_def Let_def st_def body_def\<close>)
qed

text \<open>Where the bytes of a command lie: byte \<open>i\<close> at the masked position of \<open>cur + i\<close>.\<close>

lemma mod_double:
  fixes x sz :: nat
  assumes "i < sz"
  shows "(x + i) mod sz = (if x mod sz + i < sz then x mod sz + i else x mod sz + i - sz)"
proof -
  define y where "y = x mod sz"
  have "y < sz" using assms by (simp add: y_def)
  moreover have "(x + i) mod sz = (y + i) mod sz" by (simp add: y_def mod_add_left_eq)
  ultimately show ?thesis using assms unfolding y_def[symmetric] by (simp add: le_mod_geq)
qed

lemma ring_mem_length:
  assumes fit: "length cmd \<le> sz" "192 + sz \<le> length mem" "0 < sz"
  shows "length (ring_mem sz cur cmd mem) = length mem"
proof -
  define st where "st = unat cur mod sz"
  have "st < sz" using fit by (simp add: st_def)
  then show ?thesis using fit by (simp add: ring_mem_def Let_def st_def[symmetric])
qed

lemma ring_mem_tail:
  assumes fit: "length cmd \<le> sz" "192 + sz \<le> length mem" "0 < sz"
  shows "take 4 (drop 64 (ring_mem sz cur cmd mem)) = le32 (cur + of_nat (length cmd))"
proof -
  define st where "st = unat cur mod sz"
  have "st < sz" using fit by (simp add: st_def)
  then show ?thesis
    using fit sub_blit[of 64 "le32 (cur + of_nat (length cmd))"]
    by (simp add: ring_mem_def Let_def st_def[symmetric])
qed

lemma ring_mem_cmd:
  assumes fit: "length cmd \<le> sz" "192 + sz \<le> length mem" "0 < sz"
    and i: "i < length cmd"
  shows "ring_mem sz cur cmd mem ! (192 + (unat cur + i) mod sz) = cmd ! i"
proof -
  define st where "st = unat cur mod sz"
  have st: "st < sz" using fit by (simp add: st_def)
  have pos: "(unat cur + i) mod sz = (if st + i < sz then st + i else st + i - sz)"
    unfolding st_def using i fit by (intro mod_double) simp
  show ?thesis
    unfolding pos ring_mem_def Let_def st_def[symmetric]
    using i fit st by (auto simp: nth_blit)
qed

lemma ring_mem_frame:
  assumes fit: "length cmd \<le> sz" "192 + sz \<le> length mem" "0 < sz"
    and j: "j < length mem" "j < 64 \<or> 68 \<le> j" "\<And>i. i < length cmd \<Longrightarrow> j \<noteq> 192 + (unat cur + i) mod sz"
  shows "ring_mem sz cur cmd mem ! j = mem ! j"
proof -
  define st where "st = unat cur mod sz"
  have st: "st < sz" using fit by (simp add: st_def)
  have pos: "(unat cur + i) mod sz = (if st + i < sz then st + i else st + i - sz)" if "i < length cmd" for i
    unfolding st_def using that fit by (intro mod_double) simp
  have out1: "\<not> (192 + st \<le> j \<and> j < 192 + st + length cmd \<and> j < 192 + sz)"
  proof
    assume in1: "192 + st \<le> j \<and> j < 192 + st + length cmd \<and> j < 192 + sz"
    then obtain i where "j = 192 + st + i" by (auto simp: le_iff_add)
    with in1 pos[of i] j(3)[of i] show False by simp
  qed
  have out2: "\<not> (192 \<le> j \<and> j + sz < 192 + st + length cmd)"
  proof
    assume in2: "192 \<le> j \<and> j + sz < 192 + st + length cmd"
    then have "j + sz = 192 + st + (j + sz - 192 - st)" using st by simp
    then obtain i where "j + sz = 192 + st + i" by blast
    with in2 pos[of i] j(3)[of i] show False by auto
  qed
  show ?thesis
    unfolding ring_mem_def Let_def st_def[symmetric]
    using j(1,2) fit st out1 out2 by (auto simp: nth_blit)
qed

section \<open>The producer side of a circular buffer\<close>

text \<open>
  \<open>put\<close> appends a command; \<open>cap\<close> is the capacity, \<open>cell r q\<close> the byte the consumer finds for
  stream position \<open>q\<close>, and \<open>at p r\<close> says that \<open>p\<close> bytes were put so far. The law: a command
  no longer than the buffer is stored at the next positions, and every position the new tail
  has not lapped keeps its byte.
\<close>

locale byte_ring =
  fixes put :: "bytes \<Rightarrow> 'r \<Rightarrow> 'r option"
    and cap :: "'r \<Rightarrow> nat"
    and cell :: "'r \<Rightarrow> nat \<Rightarrow> byte"
    and at :: "nat \<Rightarrow> 'r \<Rightarrow> bool"
  assumes put_law: "at p r \<Longrightarrow> length cmd \<le> cap r \<Longrightarrow>
    \<exists>r'. put cmd r = Some r' \<and> at (p + length cmd) r' \<and> cap r' = cap r \<and>
      (\<forall>i<length cmd. cell r' (p + i) = cmd ! i) \<and>
      (\<forall>q<p. p + length cmd \<le> q + cap r \<longrightarrow> cell r' q = cell r q)"
begin

text \<open>The abstract state: \<open>q\<close> is the queue of bytes put and not yet consumed.\<close>

definition queue_at :: "nat \<Rightarrow> bytes \<Rightarrow> 'r \<Rightarrow> bool" where
  "queue_at p q r \<longleftrightarrow> at p r \<and> length q \<le> cap r \<and> length q \<le> p \<and>
     (\<forall>i<length q. cell r (p - length q + i) = q ! i)"

lemma put_enqueues:
  assumes "queue_at p q r" "length q + length cmd \<le> cap r"
  shows "\<exists>r'. put cmd r = Some r' \<and> cap r' = cap r \<and> queue_at (p + length cmd) (q @ cmd) r'"
proof -
  from assms obtain r' where r': "put cmd r = Some r'" "at (p + length cmd) r'" "cap r' = cap r"
      and new: "\<forall>i<length cmd. cell r' (p + i) = cmd ! i"
      and old: "\<forall>j<p. p + length cmd \<le> j + cap r \<longrightarrow> cell r' j = cell r j"
    using put_law[of p r cmd] by (auto simp: queue_at_def)
  have "cell r' (p + length cmd - length (q @ cmd) + i) = (q @ cmd) ! i" if "i < length (q @ cmd)" for i
  proof (cases "i < length q")
    case True
    with assms old show ?thesis by (auto simp: queue_at_def nth_append)
  next
    case False
    with that assms new[rule_format, of "i - length q"] show ?thesis by (auto simp: queue_at_def nth_append)
  qed
  with r' assms show ?thesis by (auto simp: queue_at_def)
qed

lemma consume_dequeues: "queue_at p (x @ q) r \<Longrightarrow> queue_at p q r"
  unfolding queue_at_def
proof (intro conjI; (elim conjE)?)
  assume *: "length (x @ q) \<le> p" "\<forall>i<length (x @ q). cell r (p - length (x @ q) + i) = (x @ q) ! i"
  show "\<forall>i<length q. cell r (p - length q + i) = q ! i"
  proof (intro allI impI)
    fix i assume "i < length q"
    then have "length x + i < length (x @ q)" by simp
    then have "cell r (p - length (x @ q) + (length x + i)) = (x @ q) ! (length x + i)"
      by (rule *(2)[rule_format])
    moreover have "p - length (x @ q) + (length x + i) = p - length q + i" using *(1) by simp
    ultimately show "cell r (p - length q + i) = q ! i" by (simp only: nth_append_length_plus)
  qed
qed auto

fun put_all :: "bytes list \<Rightarrow> 'r \<Rightarrow> 'r option" where
  "put_all [] r = Some r"
| "put_all (c # cs) r = (case put c r of None \<Rightarrow> None | Some r' \<Rightarrow> put_all cs r')"

lemma put_all_enqueues:
  assumes "queue_at p q r" "length q + length (concat cmds) \<le> cap r"
  shows "\<exists>r'. put_all cmds r = Some r' \<and> queue_at (p + length (concat cmds)) (q @ concat cmds) r'"
  using assms
proof (induction cmds arbitrary: p q r)
  case (Cons c cs)
  then obtain r' where r': "put c r = Some r'" "cap r' = cap r" "queue_at (p + length c) (q @ c) r'"
    using put_enqueues[of p q r c] by auto
  from Cons.IH[OF r'(3)] Cons.prems(2) r' show ?case by (auto simp: add.assoc)
qed simp

end

definition ring_put :: "bytes \<Rightarrow> MappedRing \<times> world \<Rightarrow> (MappedRing \<times> world) option" where
  "ring_put cmd = (\<lambda>(m, w). case Submit m cmd w of
     Some (Ok (_, m'), w') \<Rightarrow> Some (m', w')
   | _ \<Rightarrow> None)"

definition ring_cap :: "MappedRing \<times> world \<Rightarrow> nat" where
  "ring_cap = (\<lambda>(m, w). unat (mr_bufferSize m))"

definition ring_cell :: "MappedRing \<times> world \<Rightarrow> nat \<Rightarrow> byte" where
  "ring_cell = (\<lambda>(m, w) q. w_maps w ! mr_mem m ! (192 + q mod unat (mr_bufferSize m)))"

definition ring_at :: "nat \<Rightarrow> MappedRing \<times> world \<Rightarrow> bool" where
  "ring_at p = (\<lambda>(m, w). wf_ring m w \<and> unat (mr_cur m) = p mod 2 ^ 32)"

lemma ring_apply [simp]:
  "ring_put cmd (m, w) = (case Submit m cmd w of Some (Ok (_, m'), w') \<Rightarrow> Some (m', w') | _ \<Rightarrow> None)"
  "ring_cap (m, w) = unat (mr_bufferSize m)"
  "ring_cell (m, w) i = w_maps w ! mr_mem m ! (192 + i mod unat (mr_bufferSize m))"
  "ring_at p (m, w) \<longleftrightarrow> wf_ring m w \<and> unat (mr_cur m) = p mod 2 ^ 32"
  by (simp_all add: ring_put_def ring_cap_def ring_cell_def ring_at_def)

lemma Submit_effect:
  assumes "wf_ring m w" "length cmd \<le> unat (mr_bufferSize m)"
  shows "Submit m cmd w = Some (Ok (mr_cur m + of_nat (length cmd), m\<lparr>mr_cur := mr_cur m + of_nat (length cmd)\<rparr>),
    w\<lparr>w_maps := (w_maps w)[mr_mem m :=
      ring_mem (unat (mr_bufferSize m)) (mr_cur m) cmd (w_maps w ! mr_mem m)]\<rparr>)"
  using writeCmd_effect[OF assms, of "mr_cur m"] by (simp add: Submit_def)

lemma Submit_shape:
  assumes "wf_ring m w" "length cmd \<le> unat (mr_bufferSize m)" "Submit m cmd w = Some (r, w')"
  shows "same_shape w w'"
proof -
  let ?sz = "unat (mr_bufferSize m)"
  have "192 + ?sz \<le> length (w_maps w ! mr_mem m)" "0 < ?sz" "mr_mem m < length (w_maps w)"
    using assms(1) by (auto simp: wf_ring_def)
  with assms show ?thesis
    by (auto simp: Submit_effect same_shape_def map_update ring_mem_length list_update_same_conv)
qed

lemma distinct_slots:
  fixes p :: nat
  assumes "q < p" "p + n \<le> q + sz" "i < n"
  shows "(p + i) mod sz \<noteq> q mod sz"
proof
  assume "(p + i) mod sz = q mod sz"
  then have "sz dvd p + i - q" using assms by (simp add: mod_eq_dvd_iff_nat)
  with assms show False by (auto dest!: dvd_imp_le)
qed

interpretation ring: byte_ring ring_put ring_cap ring_cell ring_at
proof
  fix p r and cmd :: bytes
  assume at: "ring_at p r" and len: "length cmd \<le> ring_cap r"
  obtain m w where r: "r = (m, w)" by (cases r)
  let ?h = "mr_mem m" and ?mem = "w_maps w ! mr_mem m" and ?sz = "unat (mr_bufferSize m)"
  let ?m = "m\<lparr>mr_cur := mr_cur m + of_nat (length cmd)\<rparr>"
  let ?w = "w\<lparr>w_maps := (w_maps w)[?h := ring_mem ?sz (mr_cur m) cmd ?mem]\<rparr>"
  from at r have wf: "wf_ring m w" and cur: "unat (mr_cur m) = p mod 2 ^ 32" by simp_all
  from wf obtain k where k: "k \<le> 31" "?sz = 2 ^ k" by (auto simp: wf_ring_def)
  have sz: "0 < ?sz" "192 + ?sz \<le> length ?mem" "?h < length (w_maps w)"
    using k wf by (simp_all add: wf_ring_def)
  from len r have len': "length cmd \<le> ?sz" by simp
  have slot: "(unat (mr_cur m) + i) mod ?sz = (p + i) mod ?sz" for i
  proof -
    have "?sz dvd 2 ^ 32" unfolding k(2) using k(1) by (intro le_imp_power_dvd) simp
    then have "p mod 2 ^ 32 mod ?sz = p mod ?sz" by (rule mod_mod_cancel)
    then show ?thesis unfolding cur by (metis mod_add_left_eq)
  qed
  have "wf_ring ?m ?w" using wf ring_mem_length[OF len' sz(2,1)] by (simp add: wf_ring_def)
  moreover have "unat (mr_cur m + of_nat (length cmd)) = (p + length cmd) mod 2 ^ 32"
    by (simp add: unat_word_ariths cur unat_of_nat take_bit_eq_mod mod_simps)
  moreover have "ring_cell (?m, ?w) (p + i) = cmd ! i" if "i < length cmd" for i
    using ring_mem_cmd[OF len' sz(2,1) that, of "mr_cur m"] sz(3) slot[of i] by simp
  moreover have "ring_cell (?m, ?w) q = ring_cell r q" if "q < p" "p + length cmd \<le> q + ?sz" for q
  proof -
    have "192 + q mod ?sz < length ?mem" using sz mod_less_divisor[OF sz(1), of q] by linarith
    moreover have "192 + q mod ?sz \<noteq> 192 + (unat (mr_cur m) + i) mod ?sz" if "i < length cmd" for i
      using distinct_slots[OF \<open>q < p\<close> \<open>p + length cmd \<le> q + ?sz\<close> that] slot[of i] by simp
    ultimately show ?thesis
      using ring_mem_frame[OF len' sz(2,1)] sz(3) by (simp add: r)
  qed
  ultimately show "\<exists>r'. ring_put cmd r = Some r' \<and> ring_at (p + length cmd) r' \<and> ring_cap r' = ring_cap r \<and>
      (\<forall>i<length cmd. ring_cell r' (p + i) = cmd ! i) \<and>
      (\<forall>q<p. p + length cmd \<le> q + ring_cap r \<longrightarrow> ring_cell r' q = ring_cell r q)"
    using Submit_effect[OF wf len'] by (intro exI[of _ "(?m, ?w)"]) (simp add: r)
qed

text \<open>The queue of unconsumed bytes that a ring of the driver holds: \<open>p\<close> bytes were submitted in
  all, and the consumer finds the last \<open>length q\<close> of them at their masked positions.\<close>

definition ring_queue :: "nat \<Rightarrow> bytes \<Rightarrow> MappedRing \<Rightarrow> world \<Rightarrow> bool" where
  "ring_queue p q m w \<longleftrightarrow> wf_ring m w \<and> unat (mr_cur m) = p mod 2 ^ 32 \<and>
     length q \<le> unat (mr_bufferSize m) \<and> length q \<le> p \<and>
     (\<forall>i<length q. w_maps w ! mr_mem m ! (192 + (p - length q + i) mod unat (mr_bufferSize m)) = q ! i)"

lemma ring_queue_at: "ring.queue_at p q (m, w) = ring_queue p q m w"
  by (simp add: ring.queue_at_def ring_queue_def)

primrec submit_seq :: "bytes list \<Rightarrow> MappedRing \<Rightarrow> (world, MappedRing) io" where
  "submit_seq [] m = return_io m"
| "submit_seq (c # cs) m = bind_io (Submit m c) (\<lambda>(_, m'). submit_seq cs m')"

lemma put_all_submit_seq:
  "ring.put_all cmds (m, w) = Some (m', w') \<Longrightarrow> submit_seq cmds m w = Some (Ok m', w')"
proof (induction cmds arbitrary: m w)
  case (Cons c cs)
  then obtain m1 w1 where "ring_put c (m, w) = Some (m1, w1)" "ring.put_all cs (m1, w1) = Some (m', w')"
    by (auto split: option.splits)
  with Cons.IH[of m1 w1] show ?case
    by (auto simp: try_with_def split: option.splits res.splits prod.splits)
qed simp

section \<open>Waiting for the host\<close>

text \<open>The worlds at the successive polls of a waiting loop, sleeping \<open>d\<close> nanoseconds per round.\<close>

primrec poll_world :: "nat \<Rightarrow> nat \<Rightarrow> world \<Rightarrow> world" where
  "poll_world d 0 w = w"
| "poll_world d (Suc n) w = poll_world d n (sleep d (host_step w))"

lemma wait_loop_unfold:
  assumes "wf_ring m w"
  shows "wait_loop m seqno dl w = (let w1 = host_step w; h = ctrl_word 0 m w1 in
    if seqno \<le> h then Some (Ok (h, True), w1)
    else if dl < w_clock w1 then Some (Ok (h, False), w1)
    else wait_loop m seqno dl (sleep 500000 w1))"
  using ctrl_loads(1)[OF assms] by (simp add: wait_loop.simps[of m seqno dl w] Let_def)

lemma wf_ring_poll [intro]:
  "wf_ring m w \<Longrightarrow> wf_ring m (host_step w)" "wf_ring m w \<Longrightarrow> wf_ring m (sleep d (host_step w))"
  using wf_ring_shape host_step_shape sleep_simps(5) same_shape_trans by blast+

lemma wait_loop_result:
  assumes "wf_ring m w"
  shows "\<exists>h b w'. wait_loop m seqno dl w = Some (Ok (h, b), w') \<and> (b \<longleftrightarrow> seqno \<le> h) \<and>
    (\<not> b \<longrightarrow> dl < w_clock w') \<and> h = ctrl_word 0 m w' \<and> same_shape w w' \<and> w_sock w' = w_sock w"
  using assms
proof (induction m seqno dl w rule: wait_loop.induct)
  case (1 m seqno dl w)
  let ?w = "host_step w"
  show ?case
  proof (cases "seqno \<le> ctrl_word 0 m ?w \<or> dl < w_clock ?w")
    case True
    then show ?thesis using "1.prems" by (auto simp: wait_loop_unfold Let_def)
  next
    case False
    have "wf_ring m (sleep 500000 ?w)" using "1.prems" by auto
    from "1.IH"[OF ctrl_loads(1)[OF "1.prems"] refl refl _ _ this] False obtain h b w' where
      *: "wait_loop m seqno dl (sleep 500000 ?w) = Some (Ok (h, b), w')" "b \<longleftrightarrow> seqno \<le> h"
        "\<not> b \<longrightarrow> dl < w_clock w'" "h = ctrl_word 0 m w'" "same_shape (sleep 500000 ?w) w'"
        "w_sock w' = w_sock (sleep 500000 ?w)"
      by blast
    moreover from *(5) have "same_shape w w'" using same_shape_trans host_step_shape sleep_simps(5) by blast
    ultimately show ?thesis using False "1.prems" by (simp add: wait_loop_unfold Let_def)
  qed
qed

lemma wait_loop_live:
  assumes "wf_ring m w" "seqno \<le> ctrl_word 0 m (host_step (poll_world 500000 n w))"
    "\<And>i. i < n \<Longrightarrow> w_clock (host_step (poll_world 500000 i w)) \<le> dl"
  shows "\<exists>h w'. wait_loop m seqno dl w = Some (Ok (h, True), w') \<and> seqno \<le> h"
  using assms
proof (induction n arbitrary: w)
  case 0
  then show ?case by (simp add: wait_loop_unfold Let_def)
next
  case (Suc n)
  show ?case
  proof (cases "seqno \<le> ctrl_word 0 m (host_step w)")
    case True
    with Suc.prems(1) show ?thesis by (simp add: wait_loop_unfold Let_def)
  next
    case False
    have "w_clock (host_step (poll_world 500000 i (sleep 500000 (host_step w)))) \<le> dl" if "i < n" for i
      using Suc.prems(3)[of "Suc i"] that by simp
    with Suc.prems have "\<exists>h w'. wait_loop m seqno dl (sleep 500000 (host_step w)) = Some (Ok (h, True), w') \<and> seqno \<le> h"
      by (intro Suc.IH) auto
    with False Suc.prems(1) Suc.prems(3)[of 0] show ?thesis by (simp add: wait_loop_unfold Let_def)
  qed
qed

section \<open>Properties of the ring\<close>

text \<open>C4. \<open>Submit\<close> refines the byte queue: if the ring holds the unconsumed bytes \<open>q\<close> and the
  command still fits beside them, the submission succeeds, returns the advanced cursor as the
  sequence number, and the consumer finds exactly \<open>q @ cmd\<close>, also when the write wraps around
  the end of the buffer and when the 32-bit cursor overflows.\<close>

theorem submit_refines_queue:
  assumes "ring_queue p q m w" "length q + length cmd \<le> unat (mr_bufferSize m)"
  shows "\<exists>m' w'. Submit m cmd w = Some (Ok (mr_cur m + of_nat (length cmd), m'), w') \<and>
    mr_cur m' = mr_cur m + of_nat (length cmd) \<and> ring_queue (p + length cmd) (q @ cmd) m' w'"
proof -
  have wf: "wf_ring m w" and len: "length cmd \<le> unat (mr_bufferSize m)"
    using assms by (auto simp: ring_queue_def)
  obtain m' w' where "ring_put cmd (m, w) = Some (m', w')" "ring_queue (p + length cmd) (q @ cmd) m' w'"
    using ring.put_enqueues[of p q "(m, w)" cmd] assms by (auto simp: ring_queue_at simp del: ring_apply(1))
  then show ?thesis using Submit_effect[OF wf len] by auto
qed

definition demo_ring :: "u32 \<Rightarrow> MappedRing" where
  "demo_ring cur = \<lparr>mr_ResID = 1, mr_mem = 0, mr_bufferSize = 8, mr_cur = cur\<rparr>"

definition demo_world :: world where
  "demo_world = \<lparr>w_sock = \<lparr>rd_script = [], wr_script = [], tx = [], open_fds = []\<rparr>, w_dial = (None, None), w_mmap = [],
     w_maps = [replicate 200 0], w_live = [0], w_host = [], w_clock = 0\<rparr>"

lemma demo_clock [simp]: "w_clock demo_world = 0"
  by (simp add: demo_world_def)

lemma wf_demo [simp]: "wf_ring (demo_ring cur) demo_world"
  by (auto simp: wf_ring_def demo_ring_def demo_world_def intro!: exI[of _ 3])

lemma demo_ring_sel [simp]: "mr_cur (demo_ring c) = c" "mr_bufferSize (demo_ring c) = 8" "mr_mem (demo_ring c) = 0"
  by (simp_all add: demo_ring_def)

lemma demo_queue: "unat c = p \<Longrightarrow> ring_queue p [] (demo_ring c) demo_world"
  by (auto simp: ring_queue_def)

theorem submit_refines_queue_witness:
  "\<exists>m' w'. Submit (demo_ring 4294967292) [1, 2, 3, 4, 5, 6] demo_world = Some (Ok (2, m'), w') \<and>
    ring_queue 4294967298 [1, 2, 3, 4, 5, 6] m' w'"
proof -
  have "(4294967298 :: u32) = 2" by simp
  with submit_refines_queue[OF demo_queue[of 4294967292 4294967292], of "[1, 2, 3, 4, 5, 6]"] show ?thesis by auto
qed

text \<open>A whole sequence of submissions that fits in the buffer is found by the consumer as
  the concatenation of the commands.\<close>

theorem submissions_concatenate:
  assumes "ring_queue p q m w" "length q + length (concat cmds) \<le> unat (mr_bufferSize m)"
  shows "\<exists>m' w'. submit_seq cmds m w = Some (Ok m', w') \<and>
    ring_queue (p + length (concat cmds)) (q @ concat cmds) m' w'"
  using ring.put_all_enqueues[of p q "(m, w)" cmds] assms
  by (auto simp: ring_queue_at dest!: put_all_submit_seq)

theorem submissions_concatenate_witness:
  "\<exists>m' w'. submit_seq [[1, 2, 3, 4], [5, 6, 7, 8]] (demo_ring 4) demo_world = Some (Ok m', w') \<and>
    ring_queue 12 [1, 2, 3, 4, 5, 6, 7, 8] m' w'"
  using submissions_concatenate[OF demo_queue[of 4 4], of "[[1, 2, 3, 4], [5, 6, 7, 8]]"] by simp

text \<open>C24. A submission stores the new cursor in the tail word and changes nothing but that word
  and the command buffer: the host-owned head and status words, the extra region, every other
  mapping, the socket and the clock are as before.\<close>

theorem submit_frame:
  assumes "wf_ring m w" "length cmd \<le> unat (mr_bufferSize m)"
  shows "\<exists>seqno m' w'. Submit m cmd w = Some (Ok (seqno, m'), w') \<and> ctrl_word 64 m w' = seqno \<and>
    w_sock w' = w_sock w \<and> w_clock w' = w_clock w \<and> w_host w' = w_host w \<and> same_shape w w' \<and>
    (\<forall>h. h \<noteq> mr_mem m \<longrightarrow> w_maps w' ! h = w_maps w ! h) \<and>
    (\<forall>j<length (w_maps w ! mr_mem m). j < 64 \<or> 68 \<le> j \<and> j < 192 \<or> 192 + unat (mr_bufferSize m) \<le> j \<longrightarrow>
       w_maps w' ! mr_mem m ! j = w_maps w ! mr_mem m ! j)"
proof -
  let ?sz = "unat (mr_bufferSize m)" and ?mem = "w_maps w ! mr_mem m"
  from assms(1) have sz: "192 + ?sz \<le> length ?mem" "0 < ?sz" "mr_mem m < length (w_maps w)"
    by (auto simp: wf_ring_def)
  note fit = assms(2) sz(1,2)
  have "ring_mem ?sz (mr_cur m) cmd ?mem ! j = ?mem ! j"
    if "j < length ?mem" "j < 64 \<or> 68 \<le> j \<and> j < 192 \<or> 192 + ?sz \<le> j" for j
  proof (rule ring_mem_frame[OF fit that(1)])
    fix i show "j \<noteq> 192 + (unat (mr_cur m) + i) mod ?sz"
      using that(2) mod_less_divisor[OF sz(2), of "unat (mr_cur m) + i"] by linarith
  qed (use that in auto)
  with sz show ?thesis
    using Submit_shape[OF assms]
    by (simp add: Submit_effect[OF assms] ctrl_word_def ring_mem_tail[OF fit])
qed

theorem submit_frame_witness:
  "\<exists>seqno m' w'. Submit (demo_ring 4) [9, 9, 9, 9] demo_world = Some (Ok (seqno, m'), w') \<and>
     ctrl_word 64 (demo_ring 4) w' = seqno"
  using submit_frame[of "demo_ring 4" demo_world "[9, 9, 9, 9]"] by auto

text \<open>C9. \<open>WaitHead\<close> returns for every behaviour of the host; it reports the head word it saw
  last, reports success exactly when that head has reached the sequence number, and gives up
  only after the deadline.\<close>

theorem wait_head_result:
  assumes "wf_ring m w"
  shows "\<exists>h b w'. WaitHead m seqno timeout w = Some (Ok (h, b), w') \<and> (b \<longleftrightarrow> seqno \<le> h) \<and>
    (\<not> b \<longrightarrow> w_clock w + timeout < w_clock w') \<and> h = ctrl_word 0 m w'"
  unfolding WaitHead_def using wait_loop_result[OF assms, of seqno "w_clock w + timeout"] by auto

theorem wait_head_result_witness:
  "\<exists>h b w'. WaitHead (demo_ring 0) 8 1000000 demo_world = Some (Ok (h, b), w') \<and> (b \<longleftrightarrow> 8 \<le> h) \<and>
    (\<not> b \<longrightarrow> 1000000 < w_clock w')"
  using wait_head_result[of "demo_ring 0" demo_world 8 1000000] by auto

text \<open>C25. If the host publishes a head at or past the sequence number by some poll and the clock
  has not passed the deadline at the polls before it, \<open>WaitHead\<close> reports success.\<close>

theorem wait_head_live:
  assumes "wf_ring m w" "seqno \<le> ctrl_word 0 m (host_step (poll_world 500000 n w))"
    "\<forall>i<n. w_clock (host_step (poll_world 500000 i w)) \<le> w_clock w + timeout"
  shows "\<exists>h w'. WaitHead m seqno timeout w = Some (Ok (h, True), w') \<and> seqno \<le> h"
  unfolding WaitHead_def using assms by (intro wait_loop_live[of m w seqno n]) auto

theorem wait_head_live_witness:
  "\<exists>h w'. WaitHead (demo_ring 0) 8 1000000
     (demo_world\<lparr>w_host := [HostAct [] 10, HostAct [(0, 0, 8)] 10]\<rparr>) = Some (Ok (h, True), w') \<and> 8 \<le> h"
  by (rule wait_head_live[where n = 1])
    (simp_all add: wf_ring_def demo_ring_def demo_world_def host_step_def sleep_def ctrl_word_def get32_def,
     auto intro!: exI[of _ 3])

text \<open>C26. After a submission that does not overflow the 32-bit cursor, a wait that succeeds means that
  the host consumed every byte of the command. After one that overflows, if the head word the first
  poll loads still is the cursor from before the submission, so that the host has consumed nothing of
  the command, the wait returns at once and reports success, whatever the timeout.\<close>

theorem submit_then_wait:
  assumes "wf_ring m w" "length cmd \<le> unat (mr_bufferSize m)" "Submit m cmd w = Some (Ok (seqno, m'), w1)"
  shows "(unat (mr_cur m) + length cmd < 2 ^ 32 \<longrightarrow> (\<forall>timeout h w2.
      WaitHead m' seqno timeout w1 = Some (Ok (h, True), w2) \<longrightarrow> unat (mr_cur m) + length cmd \<le> unat h)) \<and>
    (2 ^ 32 \<le> unat (mr_cur m) + length cmd \<and> ctrl_word 0 m (host_step w1) = mr_cur m \<longrightarrow>
      (\<forall>timeout. WaitHead m' seqno timeout w1 = Some (Ok (mr_cur m, True), host_step w1)))"
proof -
  have eff: "seqno = mr_cur m + of_nat (length cmd)" "m' = m\<lparr>mr_cur := seqno\<rparr>" "same_shape w w1"
    using assms(3) Submit_shape[OF assms(1,2)] by (auto simp: Submit_effect[OF assms(1,2)])
  have small: "length cmd \<le> 2 ^ 31"
    using assms(1,2) power_increasing[of _ 31 "2 :: nat"] unfolding wf_ring_def by fastforce
  have seq: "unat seqno = (unat (mr_cur m) + length cmd) mod 2 ^ 32"
    using small by (simp add: eff(1) unat_word_ariths)
  have wf: "wf_ring m' w1" using wf_ring_shape[OF eff(3) assms(1)] eff(2) by (simp add: wf_ring_def)
  have "seqno \<le> h" if "WaitHead m' seqno timeout w1 = Some (Ok (h, True), w2)" for timeout h w2
    using wait_loop_result[OF wf, of seqno "w_clock w1 + timeout"] that by (auto simp: WaitHead_def)
  moreover have "WaitHead m' seqno timeout w1 = Some (Ok (mr_cur m, True), host_step w1)"
    if "2 ^ 32 \<le> unat (mr_cur m) + length cmd" "ctrl_word 0 m (host_step w1) = mr_cur m" for timeout
  proof -
    have "length cmd \<le> 2147483648" using small by simp
    then have "unat (mr_cur m) + length cmd - 4294967296 < 4294967296"
      using unat_u32_less[of "mr_cur m"] by linarith
    with that(1) seq have "unat seqno = unat (mr_cur m) + length cmd - 2 ^ 32" by (simp add: le_mod_geq)
    then have "seqno \<le> mr_cur m" using small by (simp add: word_le_nat_alt)
    moreover have "ctrl_word 0 m' (host_step w1) = mr_cur m" using that(2) by (simp add: ctrl_word_def eff(2))
    ultimately show ?thesis by (simp add: WaitHead_def wait_loop_unfold[OF wf] Let_def)
  qed
  ultimately show ?thesis using seq by (auto simp: word_le_nat_alt)
qed

theorem submit_then_wait_witness:
  "(\<exists>w1. Submit (demo_ring 0) [1, 2, 3, 4] (demo_world\<lparr>w_host := [HostAct [(0, 0, 4)] 0]\<rparr>)
      = Some (Ok (4, demo_ring 4), w1) \<and>
    (\<forall>h w2. WaitHead (demo_ring 4) 4 0 w1 = Some (Ok (h, True), w2) \<longrightarrow> 4 \<le> unat h)) \<and>
   (\<exists>w1 w2. Submit (demo_ring 0xFFFFFFFC) [1, 2, 3, 4, 5, 6, 7, 8]
        (demo_world\<lparr>w_host := [HostAct [(0, 0, 0xFC), (0, 1, 0xFF), (0, 2, 0xFF), (0, 3, 0xFF)] 0]\<rparr>)
      = Some (Ok (4, demo_ring 4), w1) \<and>
    WaitHead (demo_ring 4) 4 0 w1 = Some (Ok (0xFFFFFFFC, True), w2))"
proof
  let ?w = "demo_world\<lparr>w_host := [HostAct [(0, 0, 4)] 0]\<rparr>"
  have wf: "wf_ring (demo_ring 0) ?w" using wf_demo[of 0] by (simp add: wf_ring_def)
  then obtain w1 where w1: "Submit (demo_ring 0) [1, 2, 3, 4] ?w = Some (Ok (4, demo_ring 4), w1)"
    by (simp add: Submit_effect demo_ring_def)
  moreover have "4 \<le> unat h" if "WaitHead (demo_ring 4) 4 0 w1 = Some (Ok (h, True), w2)" for h w2
  proof -
    have "Suc (Suc (Suc (Suc 0))) \<le> unat h" using submit_then_wait[OF wf _ w1] that by auto
    then show ?thesis by linarith
  qed
  ultimately show "\<exists>w1. Submit (demo_ring 0) [1, 2, 3, 4] ?w = Some (Ok (4, demo_ring 4), w1) \<and>
      (\<forall>h w2. WaitHead (demo_ring 4) 4 0 w1 = Some (Ok (h, True), w2) \<longrightarrow> 4 \<le> unat h)" by blast
next
  let ?r = "demo_ring 0xFFFFFFFC" and ?c = "[1, 2, 3, 4, 5, 6, 7, 8] :: bytes"
  let ?w = "demo_world\<lparr>w_host := [HostAct [(0, 0, 0xFC), (0, 1, 0xFF), (0, 2, 0xFF), (0, 3, 0xFF)] 0]\<rparr>"
  have wf: "wf_ring ?r ?w" using wf_demo[of "0xFFFFFFFC"] by (simp add: wf_ring_def)
  have len: "length ?c \<le> unat (mr_bufferSize ?r)" by (simp add: demo_ring_def)
  have sub: "Submit ?r ?c ?w = Some (Ok (4, demo_ring 4), snd (the (Submit ?r ?c ?w)))"
    unfolding Submit_effect[OF wf len] by (simp add: demo_ring_def)
  have "ctrl_word 0 ?r (host_step (snd (the (Submit ?r ?c ?w)))) = 0xFFFFFFFC" by code_simp
  then have "WaitHead (demo_ring 4) 4 0 (snd (the (Submit ?r ?c ?w))) =
      Some (Ok (0xFFFFFFFC, True), host_step (snd (the (Submit ?r ?c ?w))))"
    using submit_then_wait[OF wf len sub] by (simp add: demo_ring_def)
  with sub show "\<exists>w1 w2. Submit ?r ?c ?w = Some (Ok (4, demo_ring 4), w1) \<and>
      WaitHead (demo_ring 4) 4 0 w1 = Some (Ok (0xFFFFFFFC, True), w2)" by blast
qed

text \<open>The ring's memory layout: for sizes that do not overflow, the three control words, the
  command buffer and the extra region announced to the host are disjoint, in this order, and
  fill exactly the size of the shared memory.\<close>

theorem ring_layout:
  assumes "0 \<le> sint bufferSize" "0 \<le> sint extraSize" "192 + sint bufferSize + sint extraSize < 2 ^ 63"
  shows "let i = ringCreateInfoForBlob resID bufferSize extraSize idle in
    unat (ri_HeadOffset i) + 4 \<le> unat (ri_TailOffset i) \<and> unat (ri_TailOffset i) + 4 \<le> unat (ri_StatusOffset i) \<and>
    unat (ri_StatusOffset i) + 4 \<le> unat (ri_BufferOffset i) \<and>
    unat (ri_BufferOffset i) + unat (ri_BufferSize i) = unat (ri_ExtraOffset i) \<and>
    unat (ri_ExtraOffset i) + unat (ri_ExtraSize i) = unat (ri_Size i) \<and>
    nat (sint (RingShmemSize bufferSize extraSize)) = unat (ri_Size i)"
proof -
  obtain b where b: "bufferSize = of_nat b" "sint bufferSize = int b" using goint_nonneg[OF assms(1)] .
  obtain x where x: "extraSize = of_nat x" "sint extraSize = int x" using goint_nonneg[OF assms(2)] .
  have "RingShmemSize bufferSize extraSize = of_nat (192 + b + x)" "ringBufferOffset + bufferSize = of_nat (192 + b)"
    by (simp_all add: RingShmemSize_def ring_layout_defs b(1) x(1))
  moreover have "192 + b + x < 2 ^ 63" using assms(3) b(2) x(2) by simp
  ultimately show ?thesis
    by (simp add: ringCreateInfoForBlob_def Let_def b(1) x(1) ring_layout_defs del: of_nat_add)
qed

theorem ring_layout_witness:
  "let i = ringCreateInfoForBlob 5 65536 4096 0 in
    unat (ri_BufferOffset i) + unat (ri_BufferSize i) = unat (ri_ExtraOffset i) \<and>
    unat (ri_ExtraOffset i) + unat (ri_ExtraSize i) = unat (ri_Size i)"
  using ring_layout[of 65536 4096 5 0] by (simp add: Let_def)

text \<open>C13. The operations of a well-formed ring never panic and keep it well formed: submitting a command
  no longer than the buffer, loading a control word or the extra region, and waiting for the host,
  for every behaviour of the host.\<close>

theorem ring_type_safe:
  assumes "wf_ring m w" "length cmd \<le> unat (mr_bufferSize m)"
  shows "(\<exists>c w'. Submit m cmd w = Some (Ok (c, m\<lparr>mr_cur := c\<rparr>), w') \<and> wf_ring (m\<lparr>mr_cur := c\<rparr>) w') \<and>
    (\<exists>h w'. Head m w = Some (Ok h, w') \<and> wf_ring m w') \<and>
    (\<exists>t w'. Tail m w = Some (Ok t, w') \<and> wf_ring m w') \<and>
    (\<exists>s w'. Status m w = Some (Ok s, w') \<and> wf_ring m w') \<and>
    (\<exists>b w'. Extra m w = Some (Ok b, w') \<and> wf_ring m w') \<and>
    (\<exists>x w'. WaitHead m seqno timeout w = Some (Ok x, w') \<and> wf_ring m w')"
proof (intro conjI)
  have sub: "Submit m cmd w = Some (Ok (mr_cur m + of_nat (length cmd), m\<lparr>mr_cur := mr_cur m + of_nat (length cmd)\<rparr>),
      w\<lparr>w_maps := (w_maps w)[mr_mem m := ring_mem (unat (mr_bufferSize m)) (mr_cur m) cmd (w_maps w ! mr_mem m)]\<rparr>)"
    by (rule Submit_effect[OF assms])
  from wf_ring_shape[OF Submit_shape[OF assms sub] assms(1)] sub
  show "\<exists>c w'. Submit m cmd w = Some (Ok (c, m\<lparr>mr_cur := c\<rparr>), w') \<and> wf_ring (m\<lparr>mr_cur := c\<rparr>) w'"
    by (auto simp: wf_ring_def)
  show "\<exists>h w'. Head m w = Some (Ok h, w') \<and> wf_ring m w'" "\<exists>t w'. Tail m w = Some (Ok t, w') \<and> wf_ring m w'"
    "\<exists>s w'. Status m w = Some (Ok s, w') \<and> wf_ring m w'"
    using ctrl_loads[OF assms(1)] wf_ring_poll(1)[OF assms(1)] by auto
  have wf: "wf_ring m (host_step w)" using assms(1) by auto
  have b: "ringBufferOffset + mr_bufferSize m = of_nat (192 + unat (mr_bufferSize m))"
    by (simp add: ring_layout_defs)
  show "\<exists>b w'. Extra m w = Some (Ok b, w') \<and> wf_ring m w'"
    unfolding Extra_def b map_len_def
    using load_slice_nat[of w "mr_mem m" "192 + unat (mr_bufferSize m)" "length (w_maps w ! mr_mem m)"] wf assms(1)
      same_shapeD(2)[OF host_step_shape[of w], of "mr_mem m"] by (simp add: wf_ring_def)
  show "\<exists>x w'. WaitHead m seqno timeout w = Some (Ok x, w') \<and> wf_ring m w'"
    unfolding WaitHead_def using wait_loop_result[OF assms(1), of seqno "w_clock w + timeout"] wf_ring_shape assms(1) by blast
qed

theorem ring_type_safe_witness:
  "(\<exists>c w'. Submit (demo_ring 6) [1, 2, 3, 4] demo_world = Some (Ok (c, (demo_ring 6)\<lparr>mr_cur := c\<rparr>), w') \<and>
     wf_ring ((demo_ring 6)\<lparr>mr_cur := c\<rparr>) w') \<and>
   (\<exists>x w'. WaitHead (demo_ring 6) 10 1000000 demo_world = Some (Ok x, w') \<and> wf_ring (demo_ring 6) w')"
  using ring_type_safe[of "demo_ring 6" demo_world "[1, 2, 3, 4]" 10 1000000] by simp

end
