(* ===== verification/Ring_Round_Trip.thy ===== *)
theory Ring_Round_Trip
  imports Venus_Ring
begin

text \<open>
  \<open>VenusRingRoundTrip\<close> of \<open>vtest/venusring_linux.go\<close>: the bring-up of a Venus ring over the
  vtest socket and the first command through it. The function returns a result record and an
  error; each early return is a branch, and the deferred \<open>Close\<close> and \<open>Unmap\<close> run on every one of
  them. A dash in an error message of the source is written \<open>--\<close>.
\<close>

record RoundTripResult =
  rt_NegotiatedVersion :: u32
  rt_MaxTimelineCount :: u32
  rt_CapsetLen :: nat
  rt_BlobResID :: u32
  rt_RingTailAfter :: u32
  rt_HeadStart :: u32
  rt_HeadAfter :: u32
  rt_StatusAfter :: u32
  rt_HeadAdvanced :: bool

definition rt_zero :: RoundTripResult where
  "rt_zero = \<lparr>rt_NegotiatedVersion = 0, rt_MaxTimelineCount = 0, rt_CapsetLen = 0, rt_BlobResID = 0,
     rt_RingTailAfter = 0, rt_HeadStart = 0, rt_HeadAfter = 0, rt_StatusAfter = 0, rt_HeadAdvanced = False\<rparr>"

definition ret_err :: "'r \<Rightarrow> go_error \<Rightarrow> (world, 'r option \<times> go_error option) io" where
  "ret_err res e = return_io (Some res, Some e)"

definition wrap_err :: "'r \<Rightarrow> string \<Rightarrow> go_error \<Rightarrow> (world, 'r option \<times> go_error option) io" where
  "wrap_err res fmt e = ret_err res (errorf1 fmt e)"

text \<open>The final polling loop: it ends when the head word changes or after the deadline.\<close>

function poll_loop :: "MappedRing \<Rightarrow> int \<Rightarrow> RoundTripResult \<Rightarrow> (world, RoundTripResult option \<times> go_error option) io" where
  "poll_loop m deadline res w = (case Head m w of
     None \<Rightarrow> None
   | Some (Ok h, w1) \<Rightarrow>
       if h \<noteq> rt_HeadStart res
       then bind_io (Status m) (\<lambda>st. return_io (Some (res\<lparr>rt_HeadAfter := h, rt_StatusAfter := st,
              rt_HeadAdvanced := True\<rparr>), None)) w1
       else if deadline < w_clock w1
       then bind_io (Status m) (\<lambda>st. return_io (Some (res\<lparr>rt_HeadAfter := h, rt_StatusAfter := st\<rparr>), None)) w1
       else poll_loop m deadline res (sleep 2000000 w1)
   | Some (Err e, w1) \<Rightarrow> Some (Err e, w1)
   | Some (Panic, w1) \<Rightarrow> Some (Panic, w1))"
  by pat_completeness auto
termination
  by (relation "measure (\<lambda>(m, deadline, res, w). nat (deadline + 1 - w_clock w))")
    (auto dest!: Head_clock)

declare poll_loop.simps [simp del]

definition ringIdleTimeoutNS :: u64 where "ringIdleTimeoutNS = 1000000000"
definition ringID :: u64 where "ringID = 0x1000"
definition instanceObjectID :: u64 where "instanceObjectID = 1"

text \<open>From the mapped ring on; \<open>Unmap\<close> is deferred.\<close>

definition rt_ring :: "goint \<Rightarrow> goint \<Rightarrow> int \<Rightarrow> RoundTripResult \<Rightarrow> u32 \<Rightarrow> nat \<Rightarrow>
    (world, RoundTripResult option \<times> go_error option) io" where
  "rt_ring bufferSize extraSize timeout res resID mem = (
     let ring = \<lparr>mr_ResID = resID, mr_mem = mem, mr_bufferSize = bufferSize, mr_cur = 0\<rparr>;
         info = ringCreateInfoForBlob resID bufferSize extraSize ringIdleTimeoutNS;
         createRingCS = EncodeVkCreateRingMESACS ringID info;
         instanceCS = padDword (EncodeMinimalVkCreateInstanceCS 0 [] [] 0 instanceObjectID)
     in
     afterwards (Unmap ring) (
     bind_io (fill_map mem 0) (\<lambda>_.
     check_io (on_sock (SubmitCmd2 (New rawconn_rw)
         \<lparr>sb_Flags = SubmitCmd2FlagRingIdx, sb_RingIdx = 0, sb_Syncs = [], sb_CmdData = createRingCS\<rparr>))
       (wrap_err res ''submit_cmd2(vkCreateRingMESA): %w'') (\<lambda>_.
     bind_io (Head ring) (\<lambda>h0.
     let res = res\<lparr>rt_HeadStart := h0\<rparr> in
     bind_io (writeCmd ring 0 instanceCS) (\<lambda>newTail.
     let res = res\<lparr>rt_RingTailAfter := newTail\<rparr> in
     (\<lambda>w. poll_loop ring (w_clock w + timeout) res w)))))))"

definition VenusRingRoundTrip :: "string \<Rightarrow> goint \<Rightarrow> goint \<Rightarrow> int \<Rightarrow>
    (world, RoundTripResult option \<times> go_error option) io" where
  "VenusRingRoundTrip socketPath bufferSize extraSize timeout =
     check_io (DialRaw socketPath) (\<lambda>e. return_io (None, Some e)) (\<lambda>rc.
     afterwards (RawConn_Close rc) (
     let c = New rawconn_rw; res = rt_zero in
     check_io (on_sock (HandshakeVenus c ''go-virtio-venus'')) (wrap_err res ''handshake: %w'') (\<lambda>neg.
     let res = res\<lparr>rt_NegotiatedVersion := neg\<rparr> in
     if neg < VtestProtocolVersionVenus
     then ret_err res (Errorf ''server negotiated protocol v%d < 3 (built without VIRGL_RENDERER_UNSTABLE_APIS): Venus opcodes unreachable''
            [ANum (uint neg)])
     else
     check_io (on_sock (GetParam c VcmdParamMaxTimelineCount)) (wrap_err res ''get_param(max_timeline_count): %w'') (\<lambda>tl.
     let res = res\<lparr>rt_MaxTimelineCount := tl\<rparr> in
     if tl = 0
     then ret_err res (Errorf ''max_timeline_count=0: server has no timeline support (VIRGL_DISABLE_MT set or no eventfd) -- Venus needs it'' [])
     else
     check_io (on_sock (GetCapset c CapsetVenus 0)) (wrap_err res ''get_capset(venus): %w'') (\<lambda>(capset, valid).
     if \<not> valid
     then ret_err res (Errorf ''get_capset(venus) invalid: renderer has no Venus capset (Vulkan backend not enabled/lavapipe missing)'' [])
     else
     let res = res\<lparr>rt_CapsetLen := length capset\<rparr> in
     check_io (on_sock (ContextInit c CapsetVenus)) (wrap_err res ''context_init(venus) write: %w'') (\<lambda>_.
     let shmemSize = RingShmemSize bufferSize extraSize in
     check_io (on_sock (ResourceCreateBlob BlobTypeHost3D BlobFlagMappable shmemSize 0))
       (wrap_err res ''resource_create_blob (ring shmem): %w'') (\<lambda>(resID, fd).
     let res = res\<lparr>rt_BlobResID := resID\<rparr> in
     check_io (map_blob fd shmemSize)
       (\<lambda>e. ret_err res (Errorf ''mmap ring shmem (res_id=%d, %d bytes): %w''
          [ANum (uint resID), ANum (sint shmemSize), AErr e])) (\<lambda>mem.
     rt_ring bufferSize extraSize timeout res resID mem))))))))"

section \<open>What a run that reports no error has done\<close>

lemma ctrl_world:
  "Head m w = Some (r, w1) \<Longrightarrow> w1 = host_step w" "Status m w = Some (r, w1) \<Longrightarrow> w1 = host_step w"
  by (auto simp: Head_def Status_def load_slice_def Let_def try_with_def split: if_splits)

lemma poll_loop_result:
  assumes "poll_loop m dl res w = Some (Ok (r, e), w')" "\<not> rt_HeadAdvanced res"
  shows "e = None \<and> w_sock w' = w_sock w \<and> w_clock w \<le> w_clock w' \<and>
    (\<exists>h st. r = Some (res\<lparr>rt_HeadAfter := h, rt_StatusAfter := st, rt_HeadAdvanced := h \<noteq> rt_HeadStart res\<rparr>) \<and>
      (h = rt_HeadStart res \<longrightarrow> dl < w_clock w'))"
  using assms
proof (induction m dl res w rule: poll_loop.induct)
  case (1 m dl res w)
  from "1.prems"(1) obtain h w1 where hd: "Head m w = Some (Ok h, w1)"
    by (auto simp: poll_loop.simps[of m dl res w] split: option.splits res.splits)
  have w1: "w1 = host_step w" "w_clock w \<le> w_clock w1"
    using ctrl_world(1)[OF hd] host_step_clock by auto
  show ?case
  proof (cases "h \<noteq> rt_HeadStart res \<or> dl < w_clock w1")
    case True
    let ?upd = "\<lambda>st. res\<lparr>rt_HeadAfter := h, rt_StatusAfter := st, rt_HeadAdvanced := h \<noteq> rt_HeadStart res\<rparr>"
    have same: "res\<lparr>rt_HeadAfter := x, rt_StatusAfter := st, rt_HeadAdvanced := False\<rparr>
        = res\<lparr>rt_HeadAfter := x, rt_StatusAfter := st\<rparr>" for x st
      using "1.prems"(2) by (cases res) simp
    have "poll_loop m dl res w = bind_io (Status m) (\<lambda>st. return_io (Some (?upd st), None)) w1"
    proof (cases "h = rt_HeadStart res")
      case eq: True
      with True have "dl < w_clock w1" by simp
      with eq hd show ?thesis
        by (simp only: poll_loop.simps[of m dl res w] option.case prod.case res.case if_True if_False simp_thms same)
    next
      case False
      with hd show ?thesis by (simp add: poll_loop.simps[of m dl res w])
    qed
    with "1.prems"(1) have "bind_io (Status m) (\<lambda>st. return_io (Some (?upd st), None)) w1 = Some (Ok (r, e), w')"
      by simp
    then obtain st where st: "Status m w1 = Some (Ok st, w')" "e = None" "r = Some (?upd st)"
      by (rule try_with_OkE) simp
    have w': "w' = host_step w1" using ctrl_world(2)[OF st(1)] .
    with st w1 True host_step_clock[of w1] show ?thesis by auto
  next
    case False
    with "1.prems" hd have "poll_loop m dl res (sleep 2000000 w1) = Some (Ok (r, e), w')"
      by (simp add: poll_loop.simps[of m dl res w])
    with "1.IH"[OF hd refl refl] False "1.prems"(2) w1 show ?thesis by auto
  qed
qed

lemma store_slice_keeps:
  "store_slice h lo hi src w = Some (r, w1) \<Longrightarrow>
     w_sock w1 = w_sock w \<and> w_clock w1 = w_clock w \<and> w_host w1 = w_host w"
  by (auto simp: store_slice_def Let_def split: if_splits)

lemma writeCmd_keeps:
  assumes "writeCmd m cur cmd w = Some (Ok c, w1)"
  shows "w_sock w1 = w_sock w \<and> w_clock w1 = w_clock w \<and> c = cur + of_nat (length cmd)"
proof -
  have seq: "w_sock t = w_sock s \<and> w_clock t = w_clock s"
    if "bind_io (store_slice h a b x) (\<lambda>_. store_slice h' a' b' x') s = Some (Ok y, t)"
    for h a b x h' a' b' x' s y t
    using that by (rule try_with_OkE) (auto dest!: store_slice_keeps)
  from assms show ?thesis
    unfolding writeCmd_def Let_def
  proof (elim try_with_OkE, goal_cases)
    case (1 u s1 v s2)
    then have "w_sock s1 = w_sock w \<and> w_clock s1 = w_clock w"
      by (simp only: split: if_splits) (blast dest: store_slice_keeps seq, simp, blast dest: seq)
    with 1 store_slice_keeps[OF 1(2)] show ?case by simp
  qed
qed

lemma on_sockD:
  assumes "on_sock m w = Some (r, w1)"
  shows "m (w_sock w) = Some (r, w_sock w1)" "w_clock w1 = w_clock w" "w_maps w1 = w_maps w" "w_host w1 = w_host w"
  using assms by (auto simp: on_sock_def split: option.splits)

lemma on_sock_tx:
  "on_sock m w = Some (Ok x, w1) \<Longrightarrow> sends m p \<Longrightarrow> tx (w_sock w1) = tx (w_sock w) @ p"
  by (drule on_sockD(1)) (rule sendsD)

lemma handlers_fail [simp]:
  "wrap_err res fmt e s \<noteq> Some (Ok (r, None), t)" "ret_err res e s \<noteq> Some (Ok (r, None), t)"
  by (simp_all add: wrap_err_def ret_err_def)

lemma check_wrapE:
  assumes "check_io m (wrap_err res fmt) k s = Some (Ok (r, None), t)"
  obtains x s' where "m s = Some (Ok x, s')" "k x s' = Some (Ok (r, None), t)"
  using assms by (rule check_io_OkE) simp_all

lemma check_retE:
  assumes "check_io m (\<lambda>e. ret_err res (f e)) k s = Some (Ok (r, None), t)"
  obtains x s' where "m s = Some (Ok x, s')" "k x s' = Some (Ok (r, None), t)"
  using assms by (rule check_io_OkE) simp_all

lemma check_failE:
  assumes "check_io m (\<lambda>e. return_io (q, Some e)) k s = Some (Ok (r, None), t)"
  obtains x s' where "m s = Some (Ok x, s')" "k x s' = Some (Ok (r, None), t)"
  using assms by (rule check_io_OkE) simp_all

lemma guard_retE:
  assumes "(if b then ret_err res e else k) s = Some (Ok (r, None), t)"
  obtains "\<not> b" "k s = Some (Ok (r, None), t)"
  using assms by (auto split: if_splits)

lemma prod_runE:
  assumes "(case x of (a, b) \<Rightarrow> k a b) s = y"
  obtains a b where "x = (a, b)" "k a b s = y"
  using assms by (cases x) simp

lemmas run_elims = afterwards_OkE try_with_OkE check_wrapE check_retE check_failE guard_retE prod_runE

section \<open>The head word the host publishes\<close>

text \<open>The bytes at the start of mapping \<open>p\<close> after some actions of the host.\<close>

definition host_bytes :: "nat \<Rightarrow> host_act list \<Rightarrow> bytes \<Rightarrow> bytes" where
  "host_bytes p acts b = fold (\<lambda>a b. case a of HostAct sts t \<Rightarrow>
     fold (\<lambda>(h, i, v) b. if h = p then b[i := v] else b) sts b) acts b"

definition head_after :: "nat \<Rightarrow> host_act list \<Rightarrow> u32" where
  "head_after p acts = get32 (host_bytes p acts [0, 0, 0, 0])"

abbreviation head_bytes :: "nat \<Rightarrow> world \<Rightarrow> bytes" where
  "head_bytes p w \<equiv> take 4 (w_maps w ! p)"

lemma host_bytes_append: "host_bytes p (xs @ ys) b = host_bytes p ys (host_bytes p xs b)"
  by (simp add: host_bytes_def)

lemma host_bytes_Nil [simp]: "host_bytes p [] b = b"
  by (simp add: host_bytes_def)

lemma take_Suc_drop: "take (Suc j) xs = take 1 xs @ take j (drop 1 xs)"
  using take_add[of 1 j xs] by simp

lemma take_stores:
  "p < length ms \<Longrightarrow>
     take n (fold host_store sts ms ! p) = fold (\<lambda>(h, i, v) b. if h = p then b[i := v] else b) sts (take n (ms ! p))"
proof (induction sts arbitrary: ms)
  case (Cons st sts)
  obtain h i v where st: "st = (h, i, v)" by (cases st)
  have "p < length (host_store st ms)" using Cons.prems by (simp add: st)
  from Cons.IH[OF this] show ?case using Cons.prems by (auto simp: st take_update_swap)
qed simp

lemma head_bytes_host:
  assumes "p < length (w_maps w)"
  shows "head_bytes p (host_step w) = host_bytes p (take 1 (w_host w)) (head_bytes p w)"
    "w_host (host_step w) = drop 1 (w_host w)"
  using take_stores[OF assms] by (auto simp: host_step_def host_bytes_def split: list.split host_act.split)

lemma Head_reads:
  assumes "Head m w = Some (Ok h, w1)"
  shows "w1 = host_step w" "h = get32 (head_bytes (mr_mem m) w1)" "4 \<le> length (w_maps w1 ! mr_mem m)"
  using assms by (auto simp: Head_def load_slice_def slice_ok_def ring_layout_defs Let_def elim!: try_with_OkE split: if_splits)

lemma Status_reads:
  assumes "Status m w = Some (Ok st, w1)"
  shows "w1 = host_step w" "st = get32 (take 4 (drop 128 (w_maps w1 ! mr_mem m)))"
  using assms by (auto simp: Status_def load_slice_def ring_layout_defs Let_def elim!: try_with_OkE split: if_splits)

lemma store_beyond_head:
  assumes "store_slice h lo hi src w = Some (r, w1)" "4 \<le> unat lo"
  shows "head_bytes p w1 = head_bytes p w \<and> w_host w1 = w_host w \<and> length (w_maps w1) = length (w_maps w)"
proof (cases "slice_ok lo hi (w_maps w ! h)")
  case True
  have "take 4 (blit (unat lo) x (w_maps w ! h)) = take 4 (w_maps w ! h)" for x
    using slice_fits(2)[OF True] assms(2) by (simp add: blit_def)
  with assms(1) True show ?thesis
    by (cases "h = p"; cases "p < length (w_maps w)") (auto simp: store_slice_def Let_def not_less list_update_beyond)
next
  case False
  with assms(1) show ?thesis by (auto simp: store_slice_def Let_def)
qed

lemma buffer_beyond_head: "4 \<le> unat (ringBufferOffset + ucast (x :: u32) :: goint)" "4 \<le> unat ringBufferOffset" "4 \<le> unat ringTailOffset"
proof -
  have "unat (ucast x :: goint) = unat x" by (simp add: unsigned_ucast_eq take_bit_nat_eq_self_iff less_trans[OF unat_u32_less])
  moreover have "192 + unat x < 18446744073709551616" using unat_u32_less[of x] by linarith
  ultimately show "4 \<le> unat (ringBufferOffset + ucast (x :: u32) :: goint)" by (simp add: ring_layout_defs unat_word_ariths)
qed (simp_all add: ring_layout_defs)

lemma writeCmd_beyond_head:
  assumes "writeCmd m cur cmd w = Some (Ok c, w1)"
  shows "head_bytes p w1 = head_bytes p w \<and> w_host w1 = w_host w \<and> length (w_maps w1) = length (w_maps w)"
proof -
  have seq: "head_bytes p t = head_bytes p s \<and> w_host t = w_host s \<and> length (w_maps t) = length (w_maps s)"
    if "bind_io (store_slice h a b x) (\<lambda>_. store_slice h' a' b' x') s = Some (Ok y, t)" "4 \<le> unat a" "4 \<le> unat a'"
    for h a b x h' a' b' x' s y t
    using that(1) by (rule try_with_OkE) (auto dest!: store_beyond_head[OF _ that(2), of _ _ _ _ _ _ p] store_beyond_head[OF _ that(3), of _ _ _ _ _ _ p])
  from assms show ?thesis
    unfolding writeCmd_def Let_def
  proof (elim try_with_OkE, goal_cases)
    case (1 u s1 v s2)
    note b = buffer_beyond_head
    have "head_bytes p s1 = head_bytes p w \<and> w_host s1 = w_host w \<and> length (w_maps s1) = length (w_maps w)"
      using 1(1) by (simp only: split: if_splits)
        (blast dest: store_beyond_head[OF _ b(1)], simp, blast dest: seq[OF _ b(1) b(2)])
    with 1(3) store_beyond_head[OF 1(2) b(3), of p] show ?case by simp
  qed
qed

text \<open>The polls of the final loop: it ends at poll \<open>k\<close>, and saw the starting value at every poll before.\<close>

lemma poll_loop_heads:
  assumes "poll_loop m dl res w = Some (Ok (r, e), w')" "mr_mem m < length (w_maps w)"
  defines "hw \<equiv> \<lambda>j. get32 (host_bytes (mr_mem m) (take j (w_host w)) (head_bytes (mr_mem m) w))"
  shows "\<exists>k>0. (\<exists>res'. r = Some res' \<and> rt_HeadAfter res' = hw k \<and>
      rt_StatusAfter res' = get32 (take 4 (drop 128 (w_maps w' ! mr_mem m)))) \<and>
    (\<forall>j. 0 < j \<and> j < k \<longrightarrow> hw j = rt_HeadStart res) \<and> w_host w' = drop (Suc k) (w_host w)"
  using assms(1,2) unfolding hw_def
proof (induction m dl res w rule: poll_loop.induct)
  case (1 m dl res w)
  let ?p = "mr_mem m"
  from "1.prems"(1) obtain h w1 where hd: "Head m w = Some (Ok h, w1)"
    by (auto simp: poll_loop.simps[of m dl res w] split: option.splits res.splits)
  note rd = Head_reads[OF hd]
  have h: "h = get32 (host_bytes ?p (take 1 (w_host w)) (head_bytes ?p w))" "w_host w1 = drop 1 (w_host w)"
    using head_bytes_host[OF "1.prems"(2)] by (simp_all add: rd(1,2))
  have p1: "?p < length (w_maps w1)" using same_shapeD(1)[OF host_step_shape "1.prems"(2)] by (simp add: rd(1))
  show ?case
  proof (cases "h \<noteq> rt_HeadStart res \<or> dl < w_clock w1")
    case True
    then obtain st where st: "Status m w1 = Some (Ok st, w')" and r: "\<exists>res'. r = Some res' \<and> rt_HeadAfter res' = h \<and> rt_StatusAfter res' = st"
      using "1.prems"(1) hd by (cases "h = rt_HeadStart res") (auto simp: poll_loop.simps[of m dl res w] elim!: try_with_OkE)
    have "w_host w' = drop (Suc 1) (w_host w)"
      using head_bytes_host(2)[OF p1] h(2) by (simp add: Status_reads(1)[OF st])
    with r h(1) Status_reads(2)[OF st] show ?thesis by (intro exI[of _ 1]) auto
  next
    case False
    let ?s = "sleep 2000000 w1"
    have run: "poll_loop m dl res ?s = Some (Ok (r, e), w')"
      using "1.prems"(1) hd False by (simp add: poll_loop.simps[of m dl res w])
    from "1.IH"[OF hd refl refl _ _ run] False p1 obtain k where k: "0 < k"
      "\<exists>res'. r = Some res' \<and> rt_HeadAfter res' = get32 (host_bytes ?p (take k (w_host w1)) (head_bytes ?p w1)) \<and>
         rt_StatusAfter res' = get32 (take 4 (drop 128 (w_maps w' ! ?p)))"
      "\<And>j. 0 < j \<Longrightarrow> j < k \<Longrightarrow> get32 (host_bytes ?p (take j (w_host w1)) (head_bytes ?p w1)) = rt_HeadStart res"
      "w_host w' = drop (Suc k) (w_host w1)"
      by auto
    have step: "host_bytes ?p (take (Suc j) (w_host w)) (head_bytes ?p w) = host_bytes ?p (take j (w_host w1)) (head_bytes ?p w1)" for j
      using head_bytes_host[OF "1.prems"(2)] by (simp add: take_Suc_drop[of j] host_bytes_append rd(1))
    have "get32 (host_bytes ?p (take j (w_host w)) (head_bytes ?p w)) = rt_HeadStart res" if jk: "0 < j" "j < Suc k" for j
    proof (cases "j = 1")
      case True
      then show ?thesis using False h(1) by simp
    next
      case ne: False
      then obtain i where "j = Suc i" "0 < i" "i < k" using jk by (cases j) auto
      then show ?thesis using k(3) by (simp add: step)
    qed
    with k(2,4) show ?thesis by (intro exI[of _ "Suc k"]) (auto simp: step h(2))
  qed
qed

section \<open>The bring-up\<close>

text \<open>The registration packet of the ring.\<close>

definition ring_packet :: "u32 \<Rightarrow> goint \<Rightarrow> goint \<Rightarrow> bytes" where
  "ring_packet resID bufferSize extraSize =
     encode_vcmd (CmdSubmit2 \<lparr>sb_Flags = SubmitCmd2FlagRingIdx, sb_RingIdx = 0, sb_Syncs = [],
       sb_CmdData = EncodeVkCreateRingMESACS ringID
         (ringCreateInfoForBlob resID bufferSize extraSize ringIdleTimeoutNS)\<rparr>)"


lemma ring_packet_sent:
  "sends (SubmitCmd2 (New rawconn_rw) \<lparr>sb_Flags = SubmitCmd2FlagRingIdx, sb_RingIdx = 0, sb_Syncs = [],
     sb_CmdData = EncodeVkCreateRingMESACS ringID (ringCreateInfoForBlob resID b x ringIdleTimeoutNS)\<rparr>)
   (ring_packet resID b x)"
  by (rule sends_SubmitCmd2) (simp add: ring_packet_def res_bytes_def encodeSubmitCmd2_def Let_def create_ring_bytes)

definition rt_instanceCS :: bytes where
  "rt_instanceCS = padDword (EncodeMinimalVkCreateInstanceCS 0 [] [] 0 instanceObjectID)"

lemma rt_ring_result:
  assumes "rt_ring b x t res resID mem w = Some (Ok (r, None), w')" "\<not> rt_HeadAdvanced res" "mem < length (w_maps w)"
  defines "hw \<equiv> \<lambda>j. head_after mem (take j (w_host w))"
  shows "tx (w_sock w') = tx (w_sock w) @ ring_packet resID b x \<and>
    (\<exists>k\<ge>2. r = Some (res\<lparr>rt_HeadStart := hw 1, rt_RingTailAfter := of_nat (length rt_instanceCS),
        rt_HeadAfter := hw k, rt_StatusAfter := get32 (take 4 (drop 128 (w_maps w' ! mem))), rt_HeadAdvanced := hw k \<noteq> hw 1\<rparr>) \<and>
      (\<forall>j. 1 < j \<and> j < k \<longrightarrow> hw j = hw 1) \<and> w_host w' = drop (Suc k) (w_host w) \<and>
      (hw k = hw 1 \<longrightarrow> w_clock w + t < w_clock w'))"
proof -
  let ?ring = "\<lparr>mr_ResID = resID, mr_mem = mem, mr_bufferSize = b, mr_cur = 0\<rparr>"
  let ?w1 = "w\<lparr>w_maps := (w_maps w)[mem := replicate (length (w_maps w ! mem)) 0]\<rparr>"
  from assms(1) obtain u w2 h0 w3 c w4 y w5 where sub: "on_sock (SubmitCmd2 (New rawconn_rw)
        \<lparr>sb_Flags = SubmitCmd2FlagRingIdx, sb_RingIdx = 0, sb_Syncs = [], sb_CmdData = EncodeVkCreateRingMESACS ringID
          (ringCreateInfoForBlob resID b x ringIdleTimeoutNS)\<rparr>) ?w1 = Some (Ok u, w2)"
      and hd: "Head ?ring w2 = Some (Ok h0, w3)"
      and wr: "writeCmd ?ring 0 rt_instanceCS w3 = Some (Ok c, w4)"
      and pl: "poll_loop ?ring (w_clock w4 + t) (res\<lparr>rt_HeadStart := h0, rt_RingTailAfter := c\<rparr>) w4
        = Some (Ok (r, None), w5)"
      and um: "Unmap ?ring w5 = Some (y, w')"
    unfolding rt_ring_def Let_def rt_instanceCS_def[symmetric]
    by (elim run_elims) (simp only: fill_map_def option.inject prod.inject)
  have sent: "tx (w_sock w2) = tx (w_sock w) @ ring_packet resID b x" "w_clock w2 = w_clock w"
      "w_maps w2 = w_maps ?w1" "w_host w2 = w_host w"
    using on_sock_tx[OF sub ring_packet_sent] on_sockD(2-4)[OF sub] by simp_all
  note h0 = Head_reads[OF hd, simplified] and keeps = writeCmd_keeps[OF wr]
  have w3: "w_sock w3 = w_sock w2" "w_clock w2 \<le> w_clock w3"
    using host_step_clock[of w2] by (simp_all add: h0(1))
  have p2: "mem < length (w_maps w2)" using assms(3) by (simp add: sent(3))
  have "length (w_maps w3 ! mem) = length (w_maps w2 ! mem)" unfolding h0(1) by (rule same_shapeD(2)[OF host_step_shape p2])
  then have zero: "head_bytes mem w2 = [0, 0, 0, 0]"
    using h0(3) assms(3) by (simp add: sent(3) numeral_eq_Suc)
  have hw1: "h0 = hw 1" using head_bytes_host(1)[OF p2] by (simp add: h0(1,2) zero sent(4) hw_def head_after_def)
  have p4: "mem < length (w_maps w4)" "w_host w4 = drop 1 (w_host w)"
      "head_bytes mem w4 = host_bytes mem (take 1 (w_host w)) [0, 0, 0, 0]"
    using writeCmd_beyond_head[OF wr, of mem] same_shapeD(1)[OF host_step_shape p2] head_bytes_host[OF p2]
    by (simp_all add: h0(1) zero sent(4))
  have hw: "get32 (host_bytes mem (take j (w_host w4)) (head_bytes mem w4)) = hw (Suc j)" for j
    by (simp add: p4(2,3) hw_def head_after_def take_Suc_drop[of j] host_bytes_append)
  from poll_loop_heads[OF pl] p4(1) obtain k res' where k: "0 < k" "r = Some res'" "rt_HeadAfter res' = hw (Suc k)"
      "rt_StatusAfter res' = get32 (take 4 (drop 128 (w_maps w5 ! mem)))" "w_host w5 = drop (Suc k) (w_host w4)"
    and polls: "\<And>j. 0 < j \<Longrightarrow> j < k \<Longrightarrow> hw (Suc j) = h0"
    by (auto simp: hw)
  from poll_loop_result[OF pl] assms(2) obtain h st where
      w5: "w_sock w5 = w_sock w4" "h = h0 \<longrightarrow> w_clock w4 + t < w_clock w5"
      and r: "r = Some (res\<lparr>rt_HeadStart := h0, rt_RingTailAfter := c,
        rt_HeadAfter := h, rt_StatusAfter := st, rt_HeadAdvanced := h \<noteq> h0\<rparr>)"
    by auto
  have w': "w_sock w' = w_sock w5" "w_clock w' = w_clock w5" "w_maps w' = w_maps w5" "w_host w' = w_host w5"
    using um by (auto simp: Unmap_def dest!: sys_munmap_keeps)
  have early: "hw j = hw 1" if "1 < j" "j < Suc k" for j
    using that polls[of "j - 1"] hw1 by auto
  show ?thesis
    using k r w5 w' p4(2) sent w3 keeps hw1 early by (intro conjI exI[of _ "Suc k"]) (auto simp: less_Suc_eq)
qed

text \<open>The commands a successful bring-up sends, in order.\<close>

definition ring_session :: "u32 \<Rightarrow> goint \<Rightarrow> goint \<Rightarrow> vcmd list" where
  "ring_session resID bufferSize extraSize =
     [CmdCreateRenderer ''go-virtio-venus'', CmdPing, CmdProtocolVersion 3,
      CmdGetParam VcmdParamMaxTimelineCount, CmdGetCapset CapsetVenus 0, CmdContextInit CapsetVenus,
      CmdResourceCreateBlob BlobTypeHost3D BlobFlagMappable (RingShmemSize bufferSize extraSize) 0,
      CmdSubmit2 \<lparr>sb_Flags = SubmitCmd2FlagRingIdx, sb_RingIdx = 0, sb_Syncs = [],
       sb_CmdData = EncodeVkCreateRingMESACS ringID
         (ringCreateInfoForBlob resID bufferSize extraSize ringIdleTimeoutNS)\<rparr>]"

section \<open>Properties of the round trip\<close>

lemma round_trip_success:
  assumes "VenusRingRoundTrip path bufferSize extraSize timeout w = Some (Ok (r, None), w')"
  defines "hw \<equiv> \<lambda>j. head_after (length (w_maps w)) (take j (w_host w))"
  shows "\<exists>res. r = Some res \<and> 3 \<le> rt_NegotiatedVersion res \<and> rt_MaxTimelineCount res \<noteq> 0 \<and>
    tx (w_sock w') = tx (w_sock w) @ concat (map encode_vcmd (ring_session (rt_BlobResID res) bufferSize extraSize)) \<and>
    (rt_HeadAdvanced res \<longleftrightarrow> rt_HeadAfter res \<noteq> rt_HeadStart res) \<and>
    (\<not> rt_HeadAdvanced res \<longrightarrow> w_clock w + timeout < w_clock w') \<and>
    rt_HeadStart res = hw 1 \<and> rt_StatusAfter res = get32 (take 4 (drop 128 (w_maps w' ! length (w_maps w)))) \<and>
    (\<exists>k\<ge>2. rt_HeadAfter res = hw k \<and> (\<forall>j. 1 < j \<and> j < k \<longrightarrow> hw j = hw 1) \<and> w_host w' = drop (Suc k) (w_host w))"
proof -
  let ?c = "New rawconn_rw"
  from assms obtain rc w1 neg w2 tl w3 capset w4 v w5 resID fd w6 mem w7 y w8 where
      d: "DialRaw path w = Some (Ok rc, w1)"
    and h: "on_sock (HandshakeVenus ?c ''go-virtio-venus'') w1 = Some (Ok neg, w2)" "\<not> neg < VtestProtocolVersionVenus"
    and p: "on_sock (GetParam ?c VcmdParamMaxTimelineCount) w2 = Some (Ok tl, w3)" "tl \<noteq> 0"
    and c: "on_sock (GetCapset ?c CapsetVenus 0) w3 = Some (Ok (capset, True), w4)"
    and x: "on_sock (ContextInit ?c CapsetVenus) w4 = Some (Ok v, w5)"
    and b: "on_sock (ResourceCreateBlob BlobTypeHost3D BlobFlagMappable (RingShmemSize bufferSize extraSize) 0) w5
        = Some (Ok (resID, fd), w6)"
    and m: "map_blob fd (RingShmemSize bufferSize extraSize) w6 = Some (Ok mem, w7)"
    and rr: "rt_ring bufferSize extraSize timeout (rt_zero\<lparr>rt_NegotiatedVersion := neg, rt_MaxTimelineCount := tl,
        rt_CapsetLen := length capset, rt_BlobResID := resID\<rparr>) resID mem w7 = Some (Ok (r, None), w8)"
    and cl: "RawConn_Close rc w8 = Some (y, w')"
    unfolding VenusRingRoundTrip_def Let_def
    by (elim run_elims) auto
  have w1: "tx (w_sock w1) = tx (w_sock w)" "w_clock w1 = w_clock w" "w_maps w1 = w_maps w" "w_host w1 = w_host w"
    using DialRaw_Ok[OF d] by auto
  have mm: "tx (w_sock w7) = tx (w_sock w6)" "w_clock w7 = w_clock w6" "mem = length (w_maps w6)" using m by (auto elim: map_blob_Ok)
  have w8: "tx (w_sock w') = tx (w_sock w8)" "w_clock w' = w_clock w8" "w_maps w' = w_maps w8" "w_host w' = w_host w8"
    using cl by (auto simp: RawConn_Close_def dest!: sys_close_keeps)
  have "tx (w_sock w7) = tx (w_sock w) @ concat (map encode_vcmd (butlast (ring_session resID bufferSize extraSize)))"
    using on_sock_tx[OF h(1)[unfolded HandshakeVenus_def] sends_Handshake] on_sock_tx[OF p(1) sends_GetParam]
      on_sock_tx[OF c sends_GetCapset] on_sock_tx[OF x sends_ContextInit] on_sock_tx[OF b sends_ResourceCreateBlob]
    by (simp add: mm w1 ring_session_def VtestProtocolVersionVenus_def)
  moreover have clock: "w_clock w7 = w_clock w" and keep: "w_maps w6 = w_maps w" "w_host w6 = w_host w"
    using h(1) p(1) c x b by (simp_all add: mm w1 on_sockD(2-4))
  have "mem = length (w_maps w)" "mem < length (w_maps w7)" "w_host w7 = w_host w"
    using keep by (rule_tac map_blob_run[OF m], simp)+
  note mem = this
  from rt_ring_result[OF rr _ mem(2)] obtain k where k: "tx (w_sock w8) = tx (w_sock w7) @ ring_packet resID bufferSize extraSize"
      "2 \<le> k" "r = Some (rt_zero\<lparr>rt_NegotiatedVersion := neg, rt_MaxTimelineCount := tl, rt_CapsetLen := length capset,
        rt_BlobResID := resID, rt_HeadStart := hw 1, rt_RingTailAfter := of_nat (length rt_instanceCS), rt_HeadAfter := hw k,
        rt_StatusAfter := get32 (take 4 (drop 128 (w_maps w8 ! length (w_maps w)))), rt_HeadAdvanced := hw k \<noteq> hw 1\<rparr>)"
      "\<forall>j. 1 < j \<and> j < k \<longrightarrow> hw j = hw 1" "w_host w8 = drop (Suc k) (w_host w)" "hw k = hw 1 \<longrightarrow> w_clock w7 + timeout < w_clock w8"
    unfolding hw_def mem(1,3)[symmetric] by (auto simp: rt_zero_def)
  have polls: "\<exists>k'\<ge>2. hw k = hw k' \<and> (\<forall>j. 1 < j \<and> j < k' \<longrightarrow> hw j = hw 1) \<and> w_host w' = drop (Suc k') (w_host w)"
    by (rule exI[of _ k], intro conjI HOL.refl k(2,4)) (simp add: w8(4) k(5))
  moreover have "3 \<le> neg" using h(2) by (simp add: VtestProtocolVersionVenus_def not_less)
  ultimately show ?thesis
    using polls k(1,6) unfolding k(3)
    by (intro exI[of _ "the r"]) (simp add: k(3) w8(1-3) clock p(2) ring_session_def ring_packet_def)
qed

text \<open>C8. A round trip that reports no error negotiated protocol version 3 or later and a
  non-zero timeline count, and sent exactly the eight commands of the bring-up in their order. The
  starting head it reports is the head word of the shared memory, zeroed by the driver and then
  written by the host's first action alone; the final head is that word at a later poll, after
  \<open>k\<close> actions of the host, every poll in between saw the starting value, and the status
  is the status word one action later. It reports an advance exactly when the two heads differ, and without an
  advance it waited until after the deadline. The driver's shared memory is mapping
  \<open>length (w_maps w)\<close>, and \<open>head_after\<close> reads its head word after the given host actions.\<close>

theorem round_trip_reports:
  assumes "VenusRingRoundTrip path bufferSize extraSize timeout w = Some (Ok (r, None), w')"
  defines "hw \<equiv> \<lambda>j. head_after (length (w_maps w)) (take j (w_host w))"
  shows "\<exists>res. r = Some res \<and> 3 \<le> rt_NegotiatedVersion res \<and> rt_MaxTimelineCount res \<noteq> 0 \<and>
    tx (w_sock w') = tx (w_sock w) @ concat (map encode_vcmd (ring_session (rt_BlobResID res) bufferSize extraSize)) \<and>
    (rt_HeadAdvanced res \<longleftrightarrow> rt_HeadAfter res \<noteq> rt_HeadStart res) \<and>
    (\<not> rt_HeadAdvanced res \<longrightarrow> w_clock w + timeout < w_clock w') \<and>
    rt_HeadStart res = hw 1 \<and> rt_StatusAfter res = get32 (take 4 (drop 128 (w_maps w' ! length (w_maps w)))) \<and>
    (\<exists>k\<ge>2. rt_HeadAfter res = hw k \<and> (\<forall>j. 1 < j \<and> j < k \<longrightarrow> hw j = hw 1) \<and> w_host w' = drop (Suc k) (w_host w))"
  using round_trip_success[OF assms(1)] unfolding hw_def .


definition rt_demo_world :: world where
  "rt_demo_world = \<lparr>w_sock = \<lparr>rd_script =
       [RdData (le32 0 @ le32 10 @ le32 1 @ le32 11 @ le32 3), RdIntr,
        RdData (le32 2 @ le32 VcmdGetParam @ le32 1 @ le32 64),
        RdData (le32 2 @ le32 VcmdGetCapset @ le32 1 @ [1, 2, 3, 4]),
        RdData (le32 1 @ le32 VcmdResourceCreateBlob @ le32 5), RdRights [0] (Cmsgs [Some [7]])],
       wr_script = [], tx = [], open_fds = [0, 1, 2]\<rparr>, w_dial = (None, None), w_mmap = [], w_maps = [], w_live = [],
     w_host = [HostAct [] 0, HostAct [(0, 0, 128)] 10], w_clock = 0\<rparr>"

theorem round_trip_reports_witness:
  "\<exists>res w'. VenusRingRoundTrip ''/tmp/.virgl_test'' 256 0 1000 rt_demo_world = Some (Ok (Some res, None), w') \<and>
    3 \<le> rt_NegotiatedVersion res \<and> rt_HeadStart res = 0 \<and> rt_HeadAfter res = 128 \<and> rt_HeadAdvanced res"
proof -
  have "(case VenusRingRoundTrip ''/tmp/.virgl_test'' 256 0 1000 rt_demo_world of
      Some (Ok (r, e), _) \<Rightarrow> e = None \<and> r \<noteq> None \<and> rt_HeadAdvanced (the r) | _ \<Rightarrow> False)"
    by code_simp
  then obtain res w' where run: "VenusRingRoundTrip ''/tmp/.virgl_test'' 256 0 1000 rt_demo_world = Some (Ok (Some res, None), w')"
    and adv: "rt_HeadAdvanced res"
    by (auto split: option.splits res.splits)
  have hw: "head_after 0 [HostAct [] 0] = 0" "head_after 0 [HostAct [] 0, HostAct [(0, 0, 128)] 10] = 128" by code_simp+
  from round_trip_reports[OF run] adv obtain k where "3 \<le> rt_NegotiatedVersion res" "rt_HeadStart res = 0" "2 \<le> k"
      "rt_HeadAfter res = head_after 0 (take k [HostAct [] 0, HostAct [(0, 0, 128)] 10])"
    by (auto simp: rt_demo_world_def hw)
  moreover from this(3) have "take k [HostAct [] 0, HostAct [(0, 0, 128)] 10] = [HostAct [] 0, HostAct [(0, 0, 128)] 10]" by simp
  ultimately show ?thesis using run adv hw(2) by auto
qed

text \<open>C28. Against a server that negotiates a protocol version below 3 the round trip stops with
  an error that carries the version, having sent nothing but the handshake.\<close>

theorem round_trip_rejects_old_server:
  assumes "w_dial w = (None, None)" "raw_live (w_sock w)" "v < 3"
    "raw_incoming (w_sock w) = le32 l1 @ le32 c1 @ le32 l2 @ le32 c2 @ le32 v @ rest"
  shows "\<exists>res fmt w'. VenusRingRoundTrip path bufferSize extraSize timeout w =
      Some (Ok (Some res, Some (Errorf fmt [ANum (uint v)])), w') \<and> rt_NegotiatedVersion res = v \<and>
    raw_incoming (w_sock w') = rest \<and> tx (w_sock w') = tx (w_sock w) @
      concat (map encode_vcmd [CmdCreateRenderer ''go-virtio-venus'', CmdPing, CmdProtocolVersion 3])"
proof -
  let ?fd = "fresh_fd (open_fds (w_sock w))"
  let ?w = "w\<lparr>w_sock := (w_sock w)\<lparr>open_fds := ?fd # open_fds (w_sock w)\<rparr>\<rparr>"
  have d: "DialRaw path w = Some (Ok ?fd, ?w)"
    using assms(1) by (simp add: DialRaw_def sys_socket_def sys_connect_def try_with_def check_io_def Let_def)
  have "raw.stream_at (le32 l1 @ le32 c1 @ le32 l2 @ le32 c2 @ le32 v @ rest) (tx (w_sock ?w)) (w_sock ?w)"
    using assms(2,4) by (simp add: raw.stream_at_def)
  from raw.Handshake_wp[OF this, of "''go-virtio-venus''" 3]
  obtain s' where s': "Handshake (New rawconn_rw) ''go-virtio-venus'' 3 (w_sock ?w) = Some (Ok v, s')"
      "raw_incoming s' = rest" "tx s' = tx (w_sock w) @ encodeCreateRenderer ''go-virtio-venus''
        @ encodePingProtocolVersion @ encodeProtocolVersion 3"
    by (auto simp: wp_run raw.stream_at_def)
  then have h: "on_sock (HandshakeVenus (New rawconn_rw) ''go-virtio-venus'') ?w = Some (Ok v, w\<lparr>w_sock := s'\<rparr>)"
    by (simp add: on_sock_def HandshakeVenus_def VtestProtocolVersionVenus_def)
  obtain r w' where c: "RawConn_Close ?fd (w\<lparr>w_sock := s'\<rparr>) = Some (r, w')" "r \<noteq> Panic"
    unfolding RawConn_Close_def using sys_close_returns by blast
  then have "raw_incoming (w_sock w') = rest" "tx (w_sock w') = tx s'"
    using s'(2) by (auto simp: RawConn_Close_def dest!: sys_close_keeps)
  with s'(3) c d h assms(3) show ?thesis
    by (cases r) (simp_all add: VenusRingRoundTrip_def check_io_def afterwards_def Let_def ret_err_def VtestProtocolVersionVenus_def rt_zero_def)
qed

theorem round_trip_rejects_old_server_witness:
  "\<exists>res fmt w'. VenusRingRoundTrip ''s'' 256 0 1000
      (demo_world\<lparr>w_sock := demo_sock (le32 0 @ le32 10 @ le32 1 @ le32 11 @ le32 2 @ [])\<rparr>) =
    Some (Ok (Some res, Some (Errorf fmt [ANum 2])), w')"
proof -
  let ?w = "demo_world\<lparr>w_sock := demo_sock (le32 0 @ le32 10 @ le32 1 @ le32 11 @ le32 2 @ [])\<rparr>"
  have "w_dial ?w = (None, None)" by (simp add: demo_world_def)
  moreover have "raw_live (w_sock ?w)" by (simp add: demo_sock_live)
  moreover have "raw_incoming (w_sock ?w) = le32 0 @ le32 10 @ le32 1 @ le32 11 @ le32 2 @ []"
    by (simp add: demo_sock_incoming)
  ultimately show ?thesis
    using round_trip_rejects_old_server[of ?w 2 0 10 1 11 "[]" "''s''" 256 0 1000] by auto
qed

end
