(* ===== verification/Venus_Clear.thy ===== *)
theory Venus_Clear
  imports Clear_CS Ring_Round_Trip
begin

text \<open>
  The clear-image driver of \<open>vtest/venusclear_linux.go\<close>: \<open>submitWithReply\<close>, \<open>submitNoReply\<close> and
  \<open>VenusClearImage\<close> with its twenty steps, one definition per step.

  The state \<open>cstate\<close> holds what the function shares between its steps: the world, the result
  record behind the pointer \<open>res\<close>, and the fields of \<open>clearDriver\<close>. A \<open>return res, err\<close> is the
  outcome \<open>Err\<close>; the result record is read from the final state, as the caller reads it through
  the pointer. The calls deferred so far are a stack that \<open>VenusClearImage\<close> runs on every way out.
  The external package \<open>clearcs\<close> is the parameter \<open>cc\<close>.
\<close>

section \<open>The driver\<close>

datatype deferred = DeferClose nat | DeferUnmap nat

record cstate =
  cs_world :: world
  cs_res :: ClearImageResult
  cs_ring :: MappedRing
  cs_replyMem :: nat
  cs_replySize :: goint
  cs_timeout :: int
  cs_defers :: "deferred list"

definition defer_call :: "deferred \<Rightarrow> (cstate, unit) io" where
  "defer_call d s = Some (Ok (), s\<lparr>cs_defers := d # cs_defers s\<rparr>)"

fun run_deferred :: "deferred \<Rightarrow> (world, unit) io" where
  "run_deferred (DeferClose fd) = RawConn_Close fd"
| "run_deferred (DeferUnmap h) = sys_munmap h"

definition run_defers :: "deferred list \<Rightarrow> world \<Rightarrow> world" where
  "run_defers ds w = fold (\<lambda>d w. case run_deferred d w of None \<Rightarrow> w | Some (_, w') \<Rightarrow> w') ds w"

definition on_world :: "(world, 'a) io \<Rightarrow> (cstate, 'a) io" where
  "on_world m s = (case m (cs_world s) of None \<Rightarrow> None | Some (r, w) \<Rightarrow> Some (r, s\<lparr>cs_world := w\<rparr>))"

definition set_res :: "(ClearImageResult \<Rightarrow> ClearImageResult) \<Rightarrow> (cstate, unit) io" where
  "set_res f s = Some (Ok (), s\<lparr>cs_res := f (cs_res s)\<rparr>)"

definition get_res :: "(ClearImageResult \<Rightarrow> 'a) \<Rightarrow> (cstate, 'a) io" where
  "get_res f s = Some (Ok (f (cs_res s)), s)"

definition driver_submit :: "bytes \<Rightarrow> (cstate, u32) io" where
  "driver_submit cmd s = (case Submit (cs_ring s) cmd (cs_world s) of
     None \<Rightarrow> None
   | Some (Ok (seqno, m), w) \<Rightarrow> Some (Ok seqno, s\<lparr>cs_ring := m, cs_world := w\<rparr>)
   | Some (Err e, w) \<Rightarrow> Some (Err e, s\<lparr>cs_world := w\<rparr>)
   | Some (Panic, w) \<Rightarrow> Some (Panic, s\<lparr>cs_world := w\<rparr>))"

definition driver_wait :: "u32 \<Rightarrow> (cstate, u32 \<times> bool) io" where
  "driver_wait seqno s = on_world (WaitHead (cs_ring s) seqno (cs_timeout s)) s"

definition trace :: "string \<Rightarrow> farg list \<Rightarrow> (cstate, unit) io" where
  "trace fmt args = set_res (\<lambda>r. r\<lparr>Trace := Trace r @ [(fmt, args)]\<rparr>)"

definition submitWithReply :: "string \<Rightarrow> i32 \<Rightarrow> bytes \<Rightarrow> (cstate, bytes) io" where
  "submitWithReply name wantCmdType cmd s0 = (
     let mem = cs_replyMem s0; replySize = cs_replySize s0 in
     bind_io (on_world (fill_map mem 0xCC)) (\<lambda>_.
     bind_io (get_res ReplyBlobResID) (\<lambda>rid.
     bind_io (driver_submit (padDword (EncodeVkSetReplyCommandStreamMESACS rid 0 replySize))) (\<lambda>_.
     bind_io (driver_submit (padDword cmd)) (\<lambda>seqno.
     bind_io (driver_wait seqno) (\<lambda>(head, ok).
     bind_io (on_world (load_slice mem 0 4)) (\<lambda>b.
     let echoed = get32 b; wrote = (echoed = wantCmdType) in
     bind_io (trace ''%-38s seqno=%-7d head=%-7d reached=%v reply_cmd=%d(want %d)%s''
        [AStr name, ANum (uint seqno), ANum (uint head), ABool ok, ANum (sint echoed), ANum (sint wantCmdType),
         AStr (if wrote then '' OK'' else '' NO-REPLY'')]) (\<lambda>_.
     if \<not> ok
     then fail_io (Errorf ''%s: host head=%d did not reach seqno=%d within %s (consumer stalled or rejected)''
            [AStr name, ANum (uint head), ANum (uint seqno), ANum (cs_timeout s0)])
     else if \<not> wrote
     then fail_io (Errorf ''%s: host advanced head but wrote NO valid reply (reply cmd_type=%d, want %d) -- the command CS-errored or the reply slot is stale''
            [AStr name, ANum (sint echoed), ANum (sint wantCmdType)])
     else on_world (load_slice mem 0 replySize)))))))) s0)"

definition submitNoReply :: "string \<Rightarrow> bytes \<Rightarrow> (cstate, unit) io" where
  "submitNoReply name cmd s0 = (
     bind_io (driver_submit (padDword cmd)) (\<lambda>seqno.
     bind_io (driver_wait seqno) (\<lambda>(head, ok).
     bind_io (trace ''%-38s seqno=%-7d head=%-7d reached=%v (void)''
        [AStr name, ANum (uint seqno), ANum (uint head), ABool ok]) (\<lambda>_.
     if \<not> ok
     then fail_io (Errorf ''%s: host head=%d did not reach seqno=%d within %s''
            [AStr name, ANum (uint head), ANum (uint seqno), ANum (cs_timeout s0)])
     else return_io ()))) s0)"

section \<open>The steps\<close>

definition idInstance :: u64 where "idInstance = 0x1001"
definition idDevice :: u64 where "idDevice = 0x1002"
definition idImage :: u64 where "idImage = 0x1003"
definition idMemory :: u64 where "idMemory = 0x1004"
definition idCmdPool :: u64 where "idCmdPool = 0x1005"
definition idCmdBuf :: u64 where "idCmdBuf = 0x1006"
definition idQueue :: u64 where "idQueue = 0x1007"
definition idFence :: u64 where "idFence = 0x1008"
definition idPhysDevBase :: u64 where "idPhysDevBase = 0x2000"
definition clear_replySize :: goint where "clear_replySize = 4096"

text \<open>The bring-up, the ring and the reply blob.\<close>

definition clear_blob :: "string \<Rightarrow> string \<Rightarrow> goint \<Rightarrow> (u32 \<Rightarrow> ClearImageResult \<Rightarrow> ClearImageResult) \<Rightarrow> (cstate, u32 \<times> nat) io" where
  "clear_blob fmt mfmt sz upd =
     try_io fmt (on_world (on_sock (ResourceCreateBlob BlobTypeHost3D BlobFlagMappable sz 0))) (\<lambda>(resID, fd).
     bind_io (set_res (upd resID)) (\<lambda>_.
     try_io mfmt (on_world (map_blob fd sz)) (\<lambda>mem. return_io (resID, mem))))"

definition clear_bring_up :: "string \<Rightarrow> (cstate, unit) io" where
  "clear_bring_up socketPath =
     (let c = New rawconn_rw in
     bind_io (on_world (DialRaw socketPath)) (\<lambda>rc.
     bind_io (defer_call (DeferClose rc)) (\<lambda>_.
     try_io ''handshake: %w'' (on_world (on_sock (HandshakeVenus c ''go-virtio-venus-clear''))) (\<lambda>neg.
     bind_io (set_res (\<lambda>r. r\<lparr>NegotiatedVersion := neg\<rparr>)) (\<lambda>_.
     if neg < VtestProtocolVersionVenus
     then fail_io (Errorf ''server negotiated v%d < 3: Venus unreachable'' [ANum (uint neg)])
     else
     try_io ''get_param(max_timeline_count): %w'' (on_world (on_sock (GetParam c VcmdParamMaxTimelineCount))) (\<lambda>tl.
     bind_io (set_res (\<lambda>r. r\<lparr>MaxTimelineCount := tl\<rparr>)) (\<lambda>_.
     if tl = 0
     then fail_io (Errorf ''max_timeline_count=0: no timeline support (VIRGL_DISABLE_MT set?)'' [])
     else
     try_io ''get_capset(venus): %w'' (on_world (on_sock (GetCapset c CapsetVenus 0))) (\<lambda>(capset, valid).
     if \<not> valid
     then fail_io (Errorf ''get_capset(venus) invalid: no Venus capset'' [])
     else
     bind_io (set_res (\<lambda>r. r\<lparr>CapsetLen := length capset\<rparr>)) (\<lambda>_.
     try_io ''context_init(venus): %w'' (on_world (on_sock (ContextInit c CapsetVenus))) (\<lambda>_.
     return_io ()))))))))))"

definition clear_ring_setup :: "goint \<Rightarrow> (cstate, unit) io" where
  "clear_ring_setup bufferSize =
     bind_io (clear_blob ''resource_create_blob (ring): %w'' ''mmap ring shmem: %w'' (RingShmemSize bufferSize 0)
        (\<lambda>resID r. r\<lparr>RingBlobResID := resID\<rparr>)) (\<lambda>(ringResID, ringMem).
     bind_io (on_world (fill_map ringMem 0)) (\<lambda>_.
     bind_io (\<lambda>s. Some (Ok (), s\<lparr>cs_ring := \<lparr>mr_ResID = ringResID, mr_mem = ringMem,
        mr_bufferSize = bufferSize, mr_cur = 0\<rparr>\<rparr>)) (\<lambda>_.
     bind_io (defer_call (DeferUnmap ringMem)) (\<lambda>_.
     try_io ''submit_cmd2(vkCreateRingMESA): %w'' (on_world (on_sock (SubmitCmd2 (New rawconn_rw)
        \<lparr>sb_Flags = SubmitCmd2FlagRingIdx, sb_RingIdx = 0, sb_Syncs = [],
         sb_CmdData = EncodeVkCreateRingMESACS 0x1000
           (ringCreateInfoForBlob ringResID bufferSize 0 ringIdleTimeoutNS)\<rparr>))) (\<lambda>_.
     bind_io (clear_blob ''resource_create_blob (reply): %w'' ''mmap reply shmem: %w'' clear_replySize
        (\<lambda>resID r. r\<lparr>ReplyBlobResID := resID\<rparr>)) (\<lambda>(replyResID, replyMem).
     bind_io (defer_call (DeferUnmap replyMem)) (\<lambda>_.
     (\<lambda>s. Some (Ok (), s\<lparr>cs_replyMem := replyMem, cs_replySize := clear_replySize\<rparr>)))))))))"

definition step_create_instance :: "clearcs \<Rightarrow> (cstate, unit) io" where
  "step_create_instance cc =
     bind_io (submitWithReply ''vkCreateInstance'' ctCreateInstance
        (EncodeCreateInstance cc CmdGenerateReplyBit \<lparr>ici_ApiVersion = 0\<rparr> idInstance)) (\<lambda>reply.
     let (result, inst, ok) = DecodeCreateInstanceReply cc reply in
     bind_io (set_res (\<lambda>r. r\<lparr>ResCreateInstance := result\<rparr>)) (\<lambda>_.
     if result \<noteq> 0 \<or> \<not> ok
     then fail_io (Errorf ''vkCreateInstance reply: result=%d ok=%v'' [ANum (sint result), ABool ok])
     else set_res (\<lambda>r. r\<lparr>Instance := inst\<rparr>)))"

definition step_enumerate :: "clearcs \<Rightarrow> (cstate, unit) io" where
  "step_enumerate cc =
     bind_io (get_res Instance) (\<lambda>inst.
     bind_io (submitWithReply ''vkEnumeratePhysicalDevices(count)'' ctEnumeratePhysDevices
        (EncodeEnumeratePhysicalDevices cc CmdGenerateReplyBit inst 0 [])) (\<lambda>reply.
     let (_, count, countOK, _) = DecodeEnumeratePhysicalDevicesReply cc reply in
     if \<not> countOK \<or> count = 0
     then fail_io (Errorf ''vkEnumeratePhysicalDevices count: countOK=%v count=%d'' [ABool countOK, ANum (uint count)])
     else
     bind_io (set_res (\<lambda>r. r\<lparr>PhysDevCount := count\<rparr>)) (\<lambda>_.
     let phys = map (\<lambda>i. idPhysDevBase + of_nat i) [0..<unat count] in
     bind_io (submitWithReply ''vkEnumeratePhysicalDevices(fetch)'' ctEnumeratePhysDevices
        (EncodeEnumeratePhysicalDevices cc CmdGenerateReplyBit inst count phys)) (\<lambda>reply2.
     let (_, _, _, devs) = DecodeEnumeratePhysicalDevicesReply cc reply2 in
     case devs of
       [] \<Rightarrow> fail_io (Errorf ''vkEnumeratePhysicalDevices fetch: empty device array'' [])
     | dev # _ \<Rightarrow> set_res (\<lambda>r. r\<lparr>PhysDev := dev\<rparr>)))))"

text \<open>The search for the first memory type with both property bits; \<open>None\<close> is the run-time panic
  of a type count beyond the array.\<close>

definition want_flags :: u32 where
  "want_flags = vkMemoryPropertyHostVisible OR vkMemoryPropertyHostCoherent"

fun find_mem_type :: "u32 list \<Rightarrow> nat \<Rightarrow> nat \<Rightarrow> (nat \<times> u32) option option" where
  "find_mem_type types i 0 = Some None"
| "find_mem_type types i (Suc n) =
     (if length types \<le> i then None
      else if types ! i AND want_flags = want_flags then Some (Some (i, types ! i))
      else find_mem_type types (Suc i) n)"

definition step_memory_properties :: "clearcs \<Rightarrow> (cstate, unit) io" where
  "step_memory_properties cc =
     bind_io (get_res PhysDev) (\<lambda>pd.
     bind_io (submitWithReply ''vkGetPhysicalDeviceMemoryProperties'' ctGetPhysDevMemoryProps
        (EncodeGetPhysicalDeviceMemoryProperties cc CmdGenerateReplyBit pd)) (\<lambda>reply.
     let (mp, ok) = DecodeGetPhysicalDeviceMemoryPropertiesReply cc reply in
     if \<not> ok then fail_io (Errorf ''vkGetPhysicalDeviceMemoryProperties: decode failed'' [])
     else
     bind_io (set_res (\<lambda>r. r\<lparr>MemTypeCount := mp_MemoryTypeCount mp\<rparr>)) (\<lambda>_.
     case find_mem_type (mp_MemoryTypes mp) 0 (unat (mp_MemoryTypeCount mp)) of
       None \<Rightarrow> panic_io
     | Some None \<Rightarrow> fail_io (Errorf ''no HOST_VISIBLE|COHERENT memory type among %d types'' [ANum (uint (mp_MemoryTypeCount mp))])
     | Some (Some (i, flags)) \<Rightarrow>
         bind_io (set_res (\<lambda>r. r\<lparr>MemTypeFlags := flags\<rparr>)) (\<lambda>_.
         set_res (\<lambda>r. r\<lparr>MemTypeIndex := of_nat i\<rparr>)))))"

definition step_queue_families :: "clearcs \<Rightarrow> (cstate, unit) io" where
  "step_queue_families cc =
     bind_io (get_res PhysDev) (\<lambda>pd.
     bind_io (submitWithReply ''vkGetPhysicalDeviceQueueFamilyProperties'' ctGetPhysDevQueueFamily
        (EncodeGetPhysicalDeviceQueueFamilyProperties cc CmdGenerateReplyBit pd 0)) (\<lambda>reply.
     let (count, countOK) = DecodeGetPhysicalDeviceQueueFamilyPropertiesReply cc reply in
     if \<not> countOK \<or> count = 0
     then fail_io (Errorf ''queue family count: countOK=%v count=%d'' [ABool countOK, ANum (uint count)])
     else set_res (\<lambda>r. r\<lparr>QueueFamCount := count, QueueFamilyIdx := 0\<rparr>)))"

definition step_create_device :: "clearcs \<Rightarrow> (cstate, unit) io" where
  "step_create_device cc =
     bind_io (get_res (\<lambda>r. (PhysDev r, QueueFamilyIdx r))) (\<lambda>(pd, fam).
     let dci = \<lparr>dc_QueueCreateInfoCount = 1, dc_PQueueCreateInfos =
           [\<lparr>dq_QueueFamilyIndex = fam, dq_QueueCount = 1, dq_PQueuePriorities = [1]\<rparr>]\<rparr> in
     bind_io (submitWithReply ''vkCreateDevice'' ctCreateDevice
        (EncodeCreateDevice cc CmdGenerateReplyBit pd dci idDevice)) (\<lambda>reply.
     let (result, dev, ok) = DecodeCreateDeviceReply cc reply in
     bind_io (set_res (\<lambda>r. r\<lparr>ResCreateDevice := result\<rparr>)) (\<lambda>_.
     if result \<noteq> 0 \<or> \<not> ok
     then fail_io (Errorf ''vkCreateDevice reply: result=%d ok=%v'' [ANum (sint result), ABool ok])
     else set_res (\<lambda>r. r\<lparr>Device := dev\<rparr>))))"

definition step_get_queue :: "(cstate, unit) io" where
  "step_get_queue =
     bind_io (get_res (\<lambda>r. (Device r, QueueFamilyIdx r))) (\<lambda>(dev, fam).
     bind_io (submitWithReply ''vkGetDeviceQueue2'' ctGetDeviceQueue2
        (encodeGetDeviceQueue2CS CmdGenerateReplyBit dev fam 0 queueSyncRingIdx idQueue)) (\<lambda>reply.
     let (queue, ok) = decodeGetDeviceQueue2Reply reply in
     if \<not> ok then fail_io (Errorf ''vkGetDeviceQueue2: absent queue'' [])
     else set_res (\<lambda>r. r\<lparr>Queue := queue\<rparr>)))"

definition step_create_image :: "clearcs \<Rightarrow> goint \<Rightarrow> goint \<Rightarrow> (cstate, unit) io" where
  "step_create_image cc width height =
     bind_io (get_res Device) (\<lambda>dev.
     let ici = \<lparr>im_ImageType = vkImageType2D, im_Format = vkFormatR8G8B8A8UNORM, im_Width = ucast width,
           im_Height = ucast height, im_Depth = 1, im_MipLevels = 1, im_ArrayLayers = 1,
           im_Samples = vkSampleCount1Bit, im_Tiling = vkImageTilingLinear, im_Usage = vkImageUsageTransferDstBit,
           im_SharingMode = vkSharingModeExclusive, im_InitialLayout = vkImageLayoutUndefined\<rparr> in
     bind_io (submitWithReply ''vkCreateImage'' ctCreateImage
        (EncodeCreateImage cc CmdGenerateReplyBit dev ici idImage)) (\<lambda>reply.
     let (result, img, ok) = DecodeCreateImageReply cc reply in
     bind_io (set_res (\<lambda>r. r\<lparr>ResCreateImage := result\<rparr>)) (\<lambda>_.
     if result \<noteq> 0 \<or> \<not> ok
     then fail_io (Errorf ''vkCreateImage reply: result=%d ok=%v'' [ANum (sint result), ABool ok])
     else set_res (\<lambda>r. r\<lparr>Image := img\<rparr>))))"

definition step_memory_requirements :: "clearcs \<Rightarrow> (cstate, unit) io" where
  "step_memory_requirements cc =
     bind_io (get_res Device) (\<lambda>dev. bind_io (get_res Image) (\<lambda>img. bind_io (get_res MemTypeIndex) (\<lambda>ti.
     bind_io (submitWithReply ''vkGetImageMemoryRequirements'' ctGetImageMemoryReqs
        (EncodeGetImageMemoryRequirements cc CmdGenerateReplyBit dev img)) (\<lambda>reply.
     let (mr, ok) = DecodeGetImageMemoryRequirementsReply cc reply in
     if \<not> ok then fail_io (Errorf ''vkGetImageMemoryRequirements: decode failed'' [])
     else
     bind_io (set_res (\<lambda>r. r\<lparr>MemReqSize := rq_Size mr, MemReqAlign := rq_Alignment mr,
        MemReqBits := rq_MemoryTypeBits mr\<rparr>)) (\<lambda>_.
     if rq_MemoryTypeBits mr AND push_bit (unat ti) 1 = 0
     then bind_io (trace ''memTypeBits=%#x disallows type %d; re-picking''
            [ANum (uint (rq_MemoryTypeBits mr)), ANum (uint ti)]) (\<lambda>_.
          fail_io (Errorf ''chosen mem type %d not in image memoryTypeBits %#x (need re-pick from memprops)''
            [ANum (uint ti), ANum (uint (rq_MemoryTypeBits mr))]))
     else return_io ())))))"

definition alloc_size :: "goint \<Rightarrow> goint \<Rightarrow> ClearImageResult \<Rightarrow> u64" where
  "alloc_size width height r = (if MemReqSize r = 0 then width * height * 4 else MemReqSize r)"

definition step_allocate_memory :: "clearcs \<Rightarrow> goint \<Rightarrow> goint \<Rightarrow> (cstate, unit) io" where
  "step_allocate_memory cc width height =
     bind_io (get_res (\<lambda>r. (Device r, MemTypeIndex r, alloc_size width height r))) (\<lambda>(dev, ti, allocSize).
     bind_io (submitWithReply ''vkAllocateMemory'' ctAllocateMemory
        (EncodeAllocateMemory cc CmdGenerateReplyBit dev allocSize ti idMemory)) (\<lambda>reply.
     let (result, mem, ok) = DecodeAllocateMemoryReply cc reply in
     bind_io (set_res (\<lambda>r. r\<lparr>ResAllocMemory := result\<rparr>)) (\<lambda>_.
     if result \<noteq> 0 \<or> \<not> ok
     then fail_io (Errorf ''vkAllocateMemory reply: result=%d ok=%v'' [ANum (sint result), ABool ok])
     else set_res (\<lambda>r. r\<lparr>Memory := mem\<rparr>))))"

definition step_bind_memory :: "clearcs \<Rightarrow> (cstate, unit) io" where
  "step_bind_memory cc =
     bind_io (get_res (\<lambda>r. (Device r, Image r, Memory r))) (\<lambda>(dev, img, mem).
     bind_io (submitWithReply ''vkBindImageMemory'' ctBindImageMemory
        (EncodeBindImageMemory cc CmdGenerateReplyBit dev img mem 0)) (\<lambda>reply.
     let result = DecodeBindImageMemoryReply cc reply in
     bind_io (set_res (\<lambda>r. r\<lparr>ResBindImage := result\<rparr>)) (\<lambda>_.
     if result \<noteq> 0 then fail_io (Errorf ''vkBindImageMemory reply: result=%d'' [ANum (sint result)])
     else return_io ())))"

definition step_create_pool :: "clearcs \<Rightarrow> (cstate, unit) io" where
  "step_create_pool cc =
     bind_io (get_res (\<lambda>r. (Device r, QueueFamilyIdx r))) (\<lambda>(dev, fam).
     bind_io (submitWithReply ''vkCreateCommandPool'' ctCreateCommandPool
        (EncodeCreateCommandPool cc CmdGenerateReplyBit dev fam idCmdPool)) (\<lambda>reply.
     let (result, pool, ok) = DecodeCreateCommandPoolReply cc reply in
     bind_io (set_res (\<lambda>r. r\<lparr>ResCreatePool := result\<rparr>)) (\<lambda>_.
     if result \<noteq> 0 \<or> \<not> ok
     then fail_io (Errorf ''vkCreateCommandPool reply: result=%d ok=%v'' [ANum (sint result), ABool ok])
     else set_res (\<lambda>r. r\<lparr>CmdPool := pool\<rparr>))))"

definition step_allocate_buffers :: "clearcs \<Rightarrow> (cstate, unit) io" where
  "step_allocate_buffers cc =
     bind_io (get_res (\<lambda>r. (Device r, CmdPool r))) (\<lambda>(dev, pool).
     bind_io (submitWithReply ''vkAllocateCommandBuffers'' ctAllocateCommandBuffers
        (EncodeAllocateCommandBuffers cc CmdGenerateReplyBit dev pool 0 1 [idCmdBuf])) (\<lambda>reply.
     let (result, bufs) = DecodeAllocateCommandBuffersReply cc reply 1 in
     bind_io (set_res (\<lambda>r. r\<lparr>ResAllocCmdBuf := result\<rparr>)) (\<lambda>_.
     if result \<noteq> 0 \<or> bufs = []
     then fail_io (Errorf ''vkAllocateCommandBuffers reply: result=%d bufs=%d'' [ANum (sint result), ANum (int (length bufs))])
     else set_res (\<lambda>r. r\<lparr>CmdBuf := hd bufs\<rparr>))))"

definition step_begin_buffer :: "clearcs \<Rightarrow> (cstate, unit) io" where
  "step_begin_buffer cc =
     bind_io (get_res CmdBuf) (\<lambda>buf.
     bind_io (submitWithReply ''vkBeginCommandBuffer'' ctBeginCommandBuffer
        (EncodeBeginCommandBuffer cc CmdGenerateReplyBit buf vkCommandBufferUsageOneTime)) (\<lambda>reply.
     let result = DecodeBeginCommandBufferReply cc reply in
     bind_io (set_res (\<lambda>r. r\<lparr>ResBeginCmdBuf := result\<rparr>)) (\<lambda>_.
     if result \<noteq> 0 then fail_io (Errorf ''vkBeginCommandBuffer reply: result=%d'' [ANum (sint result)])
     else return_io ())))"

definition color_range :: VkImageSubresourceRange where
  "color_range = \<lparr>sr_AspectMask = vkImageAspectColorBit, sr_BaseMipLevel = 0, sr_LevelCount = 1,
     sr_BaseArrayLayer = 0, sr_LayerCount = 1\<rparr>"

definition step_barrier :: "clearcs \<Rightarrow> (cstate, unit) io" where
  "step_barrier cc =
     bind_io (get_res (\<lambda>r. (CmdBuf r, Image r))) (\<lambda>(buf, img).
     let barrier = \<lparr>ib_SrcAccessMask = 0, ib_DstAccessMask = vkAccessTransferWriteBit,
           ib_OldLayout = vkImageLayoutUndefined, ib_NewLayout = vkImageLayoutGeneral,
           ib_SrcQueueFamilyIndex = vkQueueFamilyIgnored, ib_DstQueueFamilyIndex = vkQueueFamilyIgnored,
           ib_Image = img, ib_SubresourceRange = color_range\<rparr> in
     submitNoReply ''vkCmdPipelineBarrier''
       (EncodeCmdPipelineBarrier cc 0 buf vkPipelineStageTopOfPipe vkPipelineStageTransfer 0 [barrier]))"

definition step_clear_color :: "clearcs \<Rightarrow> rat list \<Rightarrow> (cstate, unit) io" where
  "step_clear_color cc clear =
     bind_io (get_res (\<lambda>r. (CmdBuf r, Image r))) (\<lambda>(buf, img).
     submitNoReply ''vkCmdClearColorImage''
       (EncodeCmdClearColorImage cc 0 buf img vkImageLayoutGeneral \<lparr>cv_Tag = 0, cv_Float32 = clear\<rparr> [color_range]))"

definition step_end_buffer :: "clearcs \<Rightarrow> (cstate, unit) io" where
  "step_end_buffer cc =
     bind_io (get_res CmdBuf) (\<lambda>buf.
     bind_io (submitWithReply ''vkEndCommandBuffer'' ctEndCommandBuffer
        (EncodeEndCommandBuffer cc CmdGenerateReplyBit buf)) (\<lambda>reply.
     let result = DecodeEndCommandBufferReply cc reply in
     bind_io (set_res (\<lambda>r. r\<lparr>ResEndCmdBuf := result\<rparr>)) (\<lambda>_.
     if result \<noteq> 0 then fail_io (Errorf ''vkEndCommandBuffer reply: result=%d'' [ANum (sint result)])
     else return_io ())))"

definition step_create_fence :: "clearcs \<Rightarrow> (cstate, unit) io" where
  "step_create_fence cc =
     bind_io (get_res Device) (\<lambda>dev.
     bind_io (submitWithReply ''vkCreateFence'' ctCreateFence
        (EncodeCreateFence cc CmdGenerateReplyBit dev idFence)) (\<lambda>reply.
     let (result, fence, ok) = DecodeCreateFenceReply cc reply in
     bind_io (set_res (\<lambda>r. r\<lparr>ResCreateFence := result\<rparr>)) (\<lambda>_.
     if result \<noteq> 0 \<or> \<not> ok
     then fail_io (Errorf ''vkCreateFence reply: result=%d ok=%v'' [ANum (sint result), ABool ok])
     else set_res (\<lambda>r. r\<lparr>Fence := fence\<rparr>))))"

definition step_queue_submit :: "clearcs \<Rightarrow> (cstate, unit) io" where
  "step_queue_submit cc =
     bind_io (get_res (\<lambda>r. (Queue r, CmdBuf r, Fence r))) (\<lambda>(queue, buf, fence).
     bind_io (submitWithReply ''vkQueueSubmit'' ctQueueSubmit
        (EncodeQueueSubmit cc CmdGenerateReplyBit queue [\<lparr>si_CommandBufferCount = 1, si_PCommandBuffers = [buf]\<rparr>] fence)) (\<lambda>reply.
     let (result, cmdOK) = DecodeQueueSubmitReply cc reply in
     bind_io (set_res (\<lambda>r. r\<lparr>ResQueueSubmit := result\<rparr>)) (\<lambda>_.
     if \<not> cmdOK then fail_io (Errorf ''vkQueueSubmit reply: unexpected cmd_type echo'' [])
     else if result \<noteq> 0 then fail_io (Errorf ''vkQueueSubmit reply: result=%d'' [ANum (sint result)])
     else return_io ())))"

definition step_wait_fences :: "clearcs \<Rightarrow> (cstate, unit) io" where
  "step_wait_fences cc =
     bind_io (get_res (\<lambda>r. (Device r, Fence r))) (\<lambda>(dev, fence).
     bind_io (submitWithReply ''vkWaitForFences'' ctWaitForFences
        (EncodeWaitForFences cc CmdGenerateReplyBit dev [fence] True 0xFFFFFFFFFFFFFFFF)) (\<lambda>reply.
     let result = DecodeWaitForFencesReply cc reply in
     bind_io (set_res (\<lambda>r. r\<lparr>ResWaitForFences := result\<rparr>)) (\<lambda>_.
     if result \<noteq> 0
     then fail_io (Errorf ''vkWaitForFences reply: result=%d (host did not signal the submit's fence)'' [ANum (sint result)])
     else return_io ())))"

text \<open>The readback loop over the first row, \<open>n\<close> texels from index \<open>i\<close>.\<close>

primrec readback_loop :: "nat \<Rightarrow> bytes \<Rightarrow> nat \<Rightarrow> bool \<Rightarrow> nat \<Rightarrow> (cstate, bool) io" where
  "readback_loop mem expect 0 allRed i = return_io allRed"
| "readback_loop mem expect (Suc n) allRed i =
     bind_io (on_world (load_slice mem (of_nat i * 4) (of_nat i * 4 + 4))) (\<lambda>t.
     bind_io (set_res (\<lambda>r. r\<lparr>TexelsChecked := TexelsChecked r + 1\<rparr>)) (\<lambda>_.
     if t = expect
     then bind_io (set_res (\<lambda>r. r\<lparr>TexelsRed := TexelsRed r + 1\<rparr>)) (\<lambda>_. readback_loop mem expect n allRed (i + 1))
     else readback_loop mem expect n False (i + 1)))"

definition step_readback :: "bool \<Rightarrow> goint \<Rightarrow> goint \<Rightarrow> rat list \<Rightarrow> (cstate, unit) io" where
  "step_readback fma width height clear =
     bind_io (get_res (alloc_size width height)) (\<lambda>allocSize.
     try_with (\<lambda>e. Errorf ''readback: resource_create_blob(device-memory blob_id=%#x): %w (host could not back/export the VkDeviceMemory as a mappable blob)''
         [ANum (uint idMemory), AErr e])
       (on_world (on_sock (ResourceCreateBlob BlobTypeHost3D BlobFlagMappable allocSize idMemory))) (\<lambda>(memBlobResID, memFD).
     bind_io (set_res (\<lambda>r. r\<lparr>MemBlobResID := memBlobResID\<rparr>)) (\<lambda>_.
     try_with (\<lambda>e. Errorf ''readback: mmap device-memory blob res_id=%d size=%d: %w''
         [ANum (uint memBlobResID), ANum (uint allocSize), AErr e])
       (on_world (map_blob memFD allocSize)) (\<lambda>mem.
     bind_io (defer_call (DeferUnmap mem)) (\<lambda>_.
     let expect = map (enc_unorm fma) clear in
     bind_io (set_res (\<lambda>r. r\<lparr>ExpectTexel := expect, ReadbackDone := True\<rparr>)) (\<lambda>_.
     bind_io (on_world (load_slice mem 0 4)) (\<lambda>first.
     bind_io (set_res (\<lambda>r. r\<lparr>FirstTexel := first\<rparr>)) (\<lambda>_.
     bind_io (\<lambda>s. Some (Ok (map_len mem (cs_world s)), s)) (\<lambda>len.
     let nTexels = (if sint len < sint (width * 4) then sint len div 4 else sint width) in
     bind_io (readback_loop mem expect (nat nTexels) (0 < nTexels) 0) (\<lambda>allRed.
     bind_io (set_res (\<lambda>r. r\<lparr>ReadbackPass := allRed\<rparr>)) (\<lambda>_.
     bind_io (get_res (\<lambda>r. [ABytes (FirstTexel r), ABytes (ExpectTexel r), ANum (int (TexelsRed r)), ANum (int (TexelsChecked r))])) (\<lambda>args.
     bind_io (trace ''readback device-memory blob res_id=%d size=%d: texel0=%v expect=%v texels_red=%d/%d pass=%v''
         ([ANum (uint memBlobResID), ANum (uint allocSize)] @ args @ [ABool allRed])) (\<lambda>_.
     if \<not> allRed
     then fail_io (Errorf ''readback: mapped device-memory texels are NOT the clear colour (texel0=%v expect=%v, %d/%d red) -- the clear did not land in the guest-visible mapping'' args)
     else return_io ())))))))))))))"

definition clear_steps :: "clearcs \<Rightarrow> bool \<Rightarrow> goint \<Rightarrow> goint \<Rightarrow> rat list \<Rightarrow> (cstate, unit) io list" where
  "clear_steps cc fma width height clear =
     [step_create_instance cc, step_enumerate cc, step_memory_properties cc, step_queue_families cc,
      step_create_device cc, step_get_queue, step_create_image cc width height, step_memory_requirements cc,
      step_allocate_memory cc width height, step_bind_memory cc, step_create_pool cc, step_allocate_buffers cc,
      step_begin_buffer cc, step_barrier cc, step_clear_color cc clear, step_end_buffer cc, step_create_fence cc,
      step_queue_submit cc, step_wait_fences cc, step_readback fma width height clear]"

primrec run_steps :: "('s, unit) io list \<Rightarrow> ('s, unit) io" where
  "run_steps [] = return_io ()"
| "run_steps (m # ms) = bind_io m (\<lambda>_. run_steps ms)"

definition clear_start :: "rat list \<Rightarrow> int \<Rightarrow> world \<Rightarrow> cstate" where
  "clear_start clear timeout w = \<lparr>cs_world = w, cs_res = clear_zero clear,
     cs_ring = \<lparr>mr_ResID = 0, mr_mem = 0, mr_bufferSize = 0, mr_cur = 0\<rparr>,
     cs_replyMem = 0, cs_replySize = 0, cs_timeout = timeout, cs_defers = []\<rparr>"

text \<open>The result record, the error and the final world of a run.\<close>

definition VenusClearImage :: "clearcs \<Rightarrow> bool \<Rightarrow> string \<Rightarrow> goint \<Rightarrow> goint \<Rightarrow> goint \<Rightarrow> rat list \<Rightarrow> int \<Rightarrow>
    (world, ClearImageResult \<times> go_error option) io" where
  "VenusClearImage cc fma socketPath bufferSize width height clear timeout w =
     (case run_steps (clear_bring_up socketPath # clear_ring_setup bufferSize
              # clear_steps cc fma width height clear) (clear_start clear timeout w) of
        None \<Rightarrow> None
      | Some (Ok _, s) \<Rightarrow> Some (Ok (cs_res s, None), run_defers (cs_defers s) (cs_world s))
      | Some (Err e, s) \<Rightarrow> Some (Ok (cs_res s, Some e), run_defers (cs_defers s) (cs_world s))
      | Some (Panic, s) \<Rightarrow> Some (Panic, run_defers (cs_defers s) (cs_world s)))"

end
