(* ===== verification/Clear_Props.thy ===== *)
theory Clear_Props
  imports Venus_Clear
begin

text \<open>
  What the clear-image driver guarantees: a reply is accepted only if the host wrote one, a run
  without error has submitted every command in order and had each acknowledged, and the readback
  verdict is about the bytes it read.
\<close>

section \<open>Elimination of driver steps\<close>

lemma on_world_OkE:
  assumes "on_world m s = Some (Ok x, s')"
  obtains w where "m (cs_world s) = Some (Ok x, w)" "s' = s\<lparr>cs_world := w\<rparr>"
  using assms by (auto simp: on_world_def split: option.splits)

lemma driver_submit_OkE:
  assumes "driver_submit cmd s = Some (Ok x, s')"
  obtains m w where "Submit (cs_ring s) cmd (cs_world s) = Some (Ok (x, m), w)"
    "s' = s\<lparr>cs_ring := m, cs_world := w\<rparr>"
  using assms by (auto simp: driver_submit_def split: option.splits res.splits)

lemma set_res_Ok [simp]: "set_res f s = Some (r, s') \<longleftrightarrow> r = Ok () \<and> s' = s\<lparr>cs_res := f (cs_res s)\<rparr>"
  by (auto simp: set_res_def)

lemma get_res_Ok [simp]: "get_res f s = Some (r, s') \<longleftrightarrow> r = Ok (f (cs_res s)) \<and> s' = s"
  by (auto simp: get_res_def)

text \<open>An accepted reply: the trace gains one acknowledged line, nothing else of the result changes.\<close>

definition reply_line :: "string \<Rightarrow> string \<times> farg list \<Rightarrow> bool" where
  "reply_line name e \<longleftrightarrow> (\<exists>fmt seqno head cmd. e = (fmt, [AStr name, seqno, head, ABool True, cmd, cmd, AStr '' OK'']))"

definition void_line :: "string \<Rightarrow> string \<times> farg list \<Rightarrow> bool" where
  "void_line name e \<longleftrightarrow> (\<exists>fmt seqno head. e = (fmt, [AStr name, seqno, head, ABool True]))"

definition reply_fmt :: string where
  "reply_fmt = ''%-38s seqno=%-7d head=%-7d reached=%v reply_cmd=%d(want %d)%s''"

definition void_fmt :: string where
  "void_fmt = ''%-38s seqno=%-7d head=%-7d reached=%v (void)''"

lemma driver_wait_OkE:
  assumes "driver_wait q s = Some (Ok x, s')"
  obtains w where "WaitHead (cs_ring s) q (cs_timeout s) (cs_world s) = Some (Ok x, w)" "s' = s\<lparr>cs_world := w\<rparr>"
  using assms unfolding driver_wait_def by (rule on_world_OkE)

lemma trace_OkE:
  assumes "trace fmt args s = Some (Ok x, s')"
  obtains "s' = s\<lparr>cs_res := (cs_res s)\<lparr>Trace := Trace (cs_res s) @ [(fmt, args)]\<rparr>\<rparr>"
  using assms by (simp add: trace_def)

lemma get_res_OkE:
  assumes "get_res f s = Some (Ok x, s')"
  obtains "x = f (cs_res s)" "s' = s"
  using assms by simp

lemma guard_failE:
  assumes "(if b then fail_io e else k) s = Some (Ok x, s')"
  obtains "\<not> b" "k s = Some (Ok x, s')"
  using assms by (auto split: if_splits)

lemmas drv_elims = try_with_OkE prod_runE driver_submit_OkE driver_wait_OkE on_world_OkE
  trace_OkE get_res_OkE guard_failE

text \<open>Everything a run of \<open>submitWithReply\<close> that returns a reply went through.\<close>

lemma submitWithReply_run:
  assumes "submitWithReply name want cmd s = Some (Ok reply, s')"
  obtains w1 q1 m1 w2 q m2 w3 hd w4 b w5 w6 where
    "fill_map (cs_replyMem s) 0xCC (cs_world s) = Some (Ok (), w1)"
    "Submit (cs_ring s) (padDword (EncodeVkSetReplyCommandStreamMESACS (ReplyBlobResID (cs_res s)) 0 (cs_replySize s))) w1
       = Some (Ok (q1, m1), w2)"
    "Submit m1 (padDword cmd) w2 = Some (Ok (q, m2), w3)"
    "WaitHead m2 q (cs_timeout s) w3 = Some (Ok (hd, True), w4)"
    "load_slice (cs_replyMem s) 0 4 w4 = Some (Ok b, w5)" "get32 b = want"
    "load_slice (cs_replyMem s) 0 (cs_replySize s) w5 = Some (Ok reply, w6)"
    "s' = s\<lparr>cs_world := w6, cs_ring := m2, cs_res := (cs_res s)\<lparr>Trace := Trace (cs_res s) @
      [(reply_fmt, [AStr name, ANum (uint q), ANum (uint hd), ABool True, ANum (sint want), ANum (sint want),
        AStr '' OK''])]\<rparr>\<rparr>"
  using assms unfolding submitWithReply_def Let_def reply_fmt_def[symmetric]
proof (elim drv_elims, goal_cases)
  case (1 x1 s1 x2 s2 x3 s3 x4 s4 x5 s5 x6 s6 x7 s7 a b w m wa ma wb wc wd we)
  then show ?case by (intro 1(1)) (simp_all, (auto)?)
qed

lemma submitNoReply_run:
  assumes "submitNoReply name cmd s = Some (Ok u, s')"
  obtains q m w1 hd w2 where
    "Submit (cs_ring s) (padDword cmd) (cs_world s) = Some (Ok (q, m), w1)"
    "WaitHead m q (cs_timeout s) w1 = Some (Ok (hd, True), w2)"
    "s' = s\<lparr>cs_world := w2, cs_ring := m, cs_res := (cs_res s)\<lparr>Trace := Trace (cs_res s) @
      [(void_fmt, [AStr name, ANum (uint q), ANum (uint hd), ABool True])]\<rparr>\<rparr>"
  using assms unfolding submitNoReply_def Let_def void_fmt_def[symmetric]
proof (elim drv_elims, goal_cases)
  case (1 x1 s1 x2 s2 x3 s3 a b)
  then show ?case by (intro 1(1)) (simp_all, (auto)?)
qed

lemma reply_line:
  assumes "submitWithReply name want cmd s = Some (Ok reply, s')"
  obtains e where "reply_line name e" "cs_res s' = (cs_res s)\<lparr>Trace := Trace (cs_res s) @ [e]\<rparr>"
  using assms
proof (rule submitWithReply_run, goal_cases)
  case (1 w1 q1 m1 w2 q m2 w3 hd w4 b w5 w6)
  show ?case by (rule that[OF _ arg_cong[OF 1(9), of cs_res, simplified]]) (auto simp: reply_line_def)
qed

lemma void_line:
  assumes "submitNoReply name cmd s = Some (Ok u, s')"
  obtains e where "void_line name e" "cs_res s' = (cs_res s)\<lparr>Trace := Trace (cs_res s) @ [e]\<rparr>"
  using assms
proof (rule submitNoReply_run, goal_cases)
  case (1 q m w1 hd w2)
  show ?case by (rule that[OF _ arg_cong[OF 1(4), of cs_res, simplified]]) (auto simp: void_line_def)
qed

lemma set_res_OkE:
  assumes "set_res f s = Some (Ok x, s')"
  obtains "s' = s\<lparr>cs_res := f (cs_res s)\<rparr>"
  using assms by simp

lemma guard_traceE:
  assumes "(if b then bind_io (trace fmt args) (\<lambda>_. fail_io e) else k) s = Some (Ok x, s')"
  obtains "\<not> b" "k s = Some (Ok x, s')"
  using assms by (auto simp: trace_def set_res_def try_with_def split: if_splits)

lemma case_list_failE:
  assumes "(case xs of [] \<Rightarrow> fail_io e | x # _ \<Rightarrow> k x) s = Some (Ok y, s')"
  obtains x xs' where "xs = x # xs'" "k x s = Some (Ok y, s')"
  using assms by (auto split: list.splits)

lemma defer_bindE:
  assumes "bind_io (defer_call d) k s = Some (Ok x, s')"
  obtains t where "cs_res t = cs_res s" "k () t = Some (Ok x, s')"
  using assms by (intro that[of "s\<lparr>cs_defers := d # cs_defers s\<rparr>"]) (simp_all add: defer_call_def try_with_def)

lemmas step_elims = defer_bindE try_with_OkE prod_runE get_res_OkE set_res_OkE guard_failE reply_line void_line

section \<open>The effect of each step on the result\<close>

lemma step_create_instance_run:
  assumes "step_create_instance cc s = Some (Ok u, s')"
  shows "\<exists>e v. reply_line ''vkCreateInstance'' e \<and>
    cs_res s' = (cs_res s)\<lparr>Trace := Trace (cs_res s) @ [e], ResCreateInstance := 0, Instance := v\<rparr>"
  using assms unfolding step_create_instance_def Let_def by (elim step_elims) (intro exI conjI, assumption, simp)

lemma step_enumerate_run:
  assumes "step_enumerate cc s = Some (Ok u, s')"
  shows "\<exists>e1 e2 n v. reply_line ''vkEnumeratePhysicalDevices(count)'' e1 \<and>
    reply_line ''vkEnumeratePhysicalDevices(fetch)'' e2 \<and>
    cs_res s' = (cs_res s)\<lparr>Trace := Trace (cs_res s) @ [e1, e2], PhysDevCount := n, PhysDev := v\<rparr> \<and>
    n \<noteq> 0"
  using assms unfolding step_enumerate_def Let_def
proof (elim step_elims case_list_failE set_res_OkE, goal_cases)
  case (1 x s1 xa s2 d1 b count ba countOK d2 xb s3 xc s4 d3 bb d4 bc d5 bd e ea dev xs)
  have "cs_res s' = (cs_res s)\<lparr>Trace := Trace (cs_res s) @ [e, ea], PhysDevCount := count, PhysDev := dev\<rparr>"
    by (simp only: 1) simp
  with 1 show ?case by blast
qed

lemma find_mem_type_Some:
  "find_mem_type types i n = Some (Some (j, fl)) \<Longrightarrow>
     i \<le> j \<and> j < i + n \<and> j < length types \<and> fl = types ! j \<and> fl AND want_flags = want_flags \<and>
     (\<forall>k. i \<le> k \<and> k < j \<longrightarrow> types ! k AND want_flags \<noteq> want_flags)"
  by (induction types i n rule: find_mem_type.induct)
    (auto split: if_splits, metis Suc_leI le_neq_implies_less)

lemma step_memory_properties_run:
  assumes "step_memory_properties cc s = Some (Ok u, s')"
  shows "\<exists>e n fl i. reply_line ''vkGetPhysicalDeviceMemoryProperties'' e \<and>
    cs_res s' = (cs_res s)\<lparr>Trace := Trace (cs_res s) @ [e], MemTypeCount := n, MemTypeFlags := fl, MemTypeIndex := i\<rparr> \<and>
    fl AND want_flags = want_flags"
  using assms unfolding step_memory_properties_def Let_def
proof (elim step_elims, goal_cases)
  case (1 x1 s1 x2 s2 mp ok x3 s3 e)
  then obtain i fl where f: "find_mem_type (mp_MemoryTypes mp) 0 (unat (mp_MemoryTypeCount mp)) = Some (Some (i, fl))"
    by (auto split: option.splits)
  have "fl AND want_flags = want_flags" using find_mem_type_Some[OF f] by blast
  then show ?case
    by (intro exI[of _ e] exI[of _ "mp_MemoryTypeCount mp"] exI[of _ fl] exI[of _ "of_nat i"] conjI)
      (use 1 f in \<open>simp_all\<close>)
qed

lemma step_queue_families_run:
  assumes "step_queue_families cc s = Some (Ok u, s')"
  shows "\<exists>e n. reply_line ''vkGetPhysicalDeviceQueueFamilyProperties'' e \<and>
    cs_res s' = (cs_res s)\<lparr>Trace := Trace (cs_res s) @ [e], QueueFamCount := n, QueueFamilyIdx := 0\<rparr> \<and>
    n \<noteq> 0"
  using assms unfolding step_queue_families_def Let_def by (elim step_elims) (intro exI conjI, assumption, simp, blast)

lemma step_create_device_run:
  assumes "step_create_device cc s = Some (Ok u, s')"
  shows "\<exists>e v. reply_line ''vkCreateDevice'' e \<and>
    cs_res s' = (cs_res s)\<lparr>Trace := Trace (cs_res s) @ [e], ResCreateDevice := 0, Device := v\<rparr>"
  using assms unfolding step_create_device_def Let_def by (elim step_elims) (intro exI conjI, assumption, simp)

lemma step_get_queue_run:
  assumes "step_get_queue s = Some (Ok u, s')"
  shows "\<exists>e v. reply_line ''vkGetDeviceQueue2'' e \<and>
    cs_res s' = (cs_res s)\<lparr>Trace := Trace (cs_res s) @ [e], Queue := v\<rparr>"
  using assms unfolding step_get_queue_def Let_def by (elim step_elims) (intro exI conjI, assumption, simp)

lemma step_create_image_run:
  assumes "step_create_image cc wd ht s = Some (Ok u, s')"
  shows "\<exists>e v. reply_line ''vkCreateImage'' e \<and>
    cs_res s' = (cs_res s)\<lparr>Trace := Trace (cs_res s) @ [e], ResCreateImage := 0, Image := v\<rparr>"
  using assms unfolding step_create_image_def Let_def by (elim step_elims) (intro exI conjI, assumption, simp)

lemma step_memory_requirements_run:
  assumes "step_memory_requirements cc s = Some (Ok u, s')"
  shows "\<exists>e sz al bits. reply_line ''vkGetImageMemoryRequirements'' e \<and>
    cs_res s' = (cs_res s)\<lparr>Trace := Trace (cs_res s) @ [e], MemReqSize := sz, MemReqAlign := al, MemReqBits := bits\<rparr> \<and>
    bits AND push_bit (unat (MemTypeIndex (cs_res s))) 1 \<noteq> 0"
  using assms unfolding step_memory_requirements_def Let_def
proof (elim step_elims guard_traceE, goal_cases)
  case (1 x1 s1 x2 s2 x3 s3 x4 s4 mr ok x5 s5 e)
  have "s' = s5" using 1 by simp
  then have "cs_res s' = (cs_res s)\<lparr>Trace := Trace (cs_res s) @ [e], MemReqSize := rq_Size mr,
      MemReqAlign := rq_Alignment mr, MemReqBits := rq_MemoryTypeBits mr\<rparr>"
    by (simp only: 1) simp
  with 1 show ?case by blast
qed

lemma step_allocate_memory_run:
  assumes "step_allocate_memory cc wd ht s = Some (Ok u, s')"
  shows "\<exists>e v. reply_line ''vkAllocateMemory'' e \<and>
    cs_res s' = (cs_res s)\<lparr>Trace := Trace (cs_res s) @ [e], ResAllocMemory := 0, Memory := v\<rparr>"
  using assms unfolding step_allocate_memory_def Let_def by (elim step_elims) (intro exI conjI, assumption, simp)

lemma step_bind_memory_run:
  assumes "step_bind_memory cc s = Some (Ok u, s')"
  shows "\<exists>e. reply_line ''vkBindImageMemory'' e \<and>
    cs_res s' = (cs_res s)\<lparr>Trace := Trace (cs_res s) @ [e], ResBindImage := 0\<rparr>"
  using assms unfolding step_bind_memory_def Let_def by (elim step_elims) (intro exI conjI, assumption, clarsimp)

lemma step_create_pool_run:
  assumes "step_create_pool cc s = Some (Ok u, s')"
  shows "\<exists>e v. reply_line ''vkCreateCommandPool'' e \<and>
    cs_res s' = (cs_res s)\<lparr>Trace := Trace (cs_res s) @ [e], ResCreatePool := 0, CmdPool := v\<rparr>"
  using assms unfolding step_create_pool_def Let_def by (elim step_elims) (intro exI conjI, assumption, simp)

lemma step_allocate_buffers_run:
  assumes "step_allocate_buffers cc s = Some (Ok u, s')"
  shows "\<exists>e v. reply_line ''vkAllocateCommandBuffers'' e \<and>
    cs_res s' = (cs_res s)\<lparr>Trace := Trace (cs_res s) @ [e], ResAllocCmdBuf := 0, CmdBuf := v\<rparr>"
  using assms unfolding step_allocate_buffers_def Let_def by (elim step_elims) (intro exI conjI, assumption, simp)

lemma step_begin_buffer_run:
  assumes "step_begin_buffer cc s = Some (Ok u, s')"
  shows "\<exists>e. reply_line ''vkBeginCommandBuffer'' e \<and>
    cs_res s' = (cs_res s)\<lparr>Trace := Trace (cs_res s) @ [e], ResBeginCmdBuf := 0\<rparr>"
  using assms unfolding step_begin_buffer_def Let_def by (elim step_elims) (intro exI conjI, assumption, clarsimp)

lemma step_void_run:
  assumes "step_barrier cc s = Some (Ok u, s')"
  shows "\<exists>e. void_line ''vkCmdPipelineBarrier'' e \<and>
    cs_res s' = (cs_res s)\<lparr>Trace := Trace (cs_res s) @ [e]\<rparr>"
  using assms unfolding step_barrier_def Let_def by (elim step_elims) (intro exI conjI, assumption, simp)

lemma step_clear_color_run:
  assumes "step_clear_color cc clear s = Some (Ok u, s')"
  shows "\<exists>e. void_line ''vkCmdClearColorImage'' e \<and>
    cs_res s' = (cs_res s)\<lparr>Trace := Trace (cs_res s) @ [e]\<rparr>"
  using assms unfolding step_clear_color_def Let_def by (elim step_elims) (intro exI conjI, assumption, simp)

lemma step_end_buffer_run:
  assumes "step_end_buffer cc s = Some (Ok u, s')"
  shows "\<exists>e. reply_line ''vkEndCommandBuffer'' e \<and>
    cs_res s' = (cs_res s)\<lparr>Trace := Trace (cs_res s) @ [e], ResEndCmdBuf := 0\<rparr>"
  using assms unfolding step_end_buffer_def Let_def by (elim step_elims) (intro exI conjI, assumption, clarsimp)

lemma step_create_fence_run:
  assumes "step_create_fence cc s = Some (Ok u, s')"
  shows "\<exists>e v. reply_line ''vkCreateFence'' e \<and>
    cs_res s' = (cs_res s)\<lparr>Trace := Trace (cs_res s) @ [e], ResCreateFence := 0, Fence := v\<rparr>"
  using assms unfolding step_create_fence_def Let_def by (elim step_elims) (intro exI conjI, assumption, simp)

lemma step_queue_submit_run:
  assumes "step_queue_submit cc s = Some (Ok u, s')"
  shows "\<exists>e. reply_line ''vkQueueSubmit'' e \<and>
    cs_res s' = (cs_res s)\<lparr>Trace := Trace (cs_res s) @ [e], ResQueueSubmit := 0\<rparr>"
  using assms unfolding step_queue_submit_def Let_def by (elim step_elims) (intro exI conjI, assumption, clarsimp)

lemma step_wait_fences_run:
  assumes "step_wait_fences cc s = Some (Ok u, s')"
  shows "\<exists>e. reply_line ''vkWaitForFences'' e \<and>
    cs_res s' = (cs_res s)\<lparr>Trace := Trace (cs_res s) @ [e], ResWaitForFences := 0\<rparr>"
  using assms unfolding step_wait_fences_def Let_def by (elim step_elims) (intro exI conjI, assumption, clarsimp)

lemma readback_loop_run:
  "readback_loop mem expect n allRed i s = Some (Ok b, s') \<Longrightarrow>
     \<exists>k\<le>n. cs_res s' = (cs_res s)\<lparr>TexelsChecked := TexelsChecked (cs_res s) + n, TexelsRed := TexelsRed (cs_res s) + k\<rparr> \<and>
       (b \<longleftrightarrow> allRed \<and> k = n)"
proof (induction n arbitrary: allRed i s)
  case (Suc n)
  from Suc.prems obtain t s1 where ld: "on_world (load_slice mem (of_nat i * 4) (of_nat i * 4 + 4)) s = Some (Ok t, s1)"
      and k: "(if t = expect
        then bind_io (set_res (\<lambda>r. r\<lparr>TexelsRed := TexelsRed r + 1\<rparr>)) (\<lambda>_. readback_loop mem expect n allRed (i + 1))
        else readback_loop mem expect n False (i + 1)) (s1\<lparr>cs_res := (cs_res s1)\<lparr>TexelsChecked := TexelsChecked (cs_res s1) + 1\<rparr>\<rparr>)
        = Some (Ok b, s')"
    by (auto elim!: try_with_OkE simp: set_res_def)
  have res: "cs_res s1 = cs_res s" using ld by (auto elim!: on_world_OkE)
  show ?case
  proof (cases "t = expect")
    case True
    with k have "readback_loop mem expect n allRed (i + 1) (s1\<lparr>cs_res := (cs_res s)\<lparr>TexelsChecked := TexelsChecked (cs_res s) + 1,
        TexelsRed := TexelsRed (cs_res s) + 1\<rparr>\<rparr>) = Some (Ok b, s')"
      by (simp add: try_with_def set_res_def res)
    from Suc.IH[OF this] obtain m where "m \<le> n" "b \<longleftrightarrow> allRed \<and> m = n"
        "cs_res s' = (cs_res s)\<lparr>TexelsChecked := TexelsChecked (cs_res s) + Suc n, TexelsRed := TexelsRed (cs_res s) + Suc m\<rparr>"
      by auto
    then show ?thesis by (intro exI[of _ "Suc m"]) simp
  next
    case False
    with k have "readback_loop mem expect n False (i + 1) (s1\<lparr>cs_res := (cs_res s)\<lparr>TexelsChecked := TexelsChecked (cs_res s) + 1\<rparr>\<rparr>)
        = Some (Ok b, s')"
      by (simp add: res)
    from Suc.IH[OF this] obtain m where "m \<le> n" "\<not> b"
        "cs_res s' = (cs_res s)\<lparr>TexelsChecked := TexelsChecked (cs_res s) + Suc n, TexelsRed := TexelsRed (cs_res s) + m\<rparr>"
      by auto
    then show ?thesis by (intro exI[of _ m]) simp
  qed
qed simp

lemma readback_loop_pass:
  assumes "readback_loop mem expect (nat k) (0 < k) i s = Some (Ok True, s')"
  shows "\<exists>n>0. cs_res s' = (cs_res s)\<lparr>TexelsChecked := TexelsChecked (cs_res s) + n, TexelsRed := TexelsRed (cs_res s) + n\<rparr>"
  using readback_loop_run[OF assms] by (intro exI[of _ "nat k"]) auto

lemma on_world_res: "on_world m s = Some (Ok x, s') \<Longrightarrow> cs_res s' = cs_res s"
  by (auto elim!: on_world_OkE)

lemma clear_blob_run:
  assumes "clear_blob f g sz upd s = Some (Ok x, s')"
  shows "cs_res s' = upd (fst x) (cs_res s)"
  using assms unfolding clear_blob_def by (elim step_elims) (auto dest!: on_world_res)

lemma clear_ring_setup_run:
  assumes "clear_ring_setup bs s = Some (Ok u, s')"
  shows "\<exists>a b. cs_res s' = (cs_res s)\<lparr>RingBlobResID := a, ReplyBlobResID := b\<rparr>"
  using assms unfolding clear_ring_setup_def Let_def
proof (elim step_elims, goal_cases)
  case (1 x s1 rid rm xa s2 xb s3 t xc s4 xd s5 pid pm ta)
  have "cs_res s1 = (cs_res s)\<lparr>RingBlobResID := rid\<rparr>" "cs_res s5 = (cs_res s4)\<lparr>ReplyBlobResID := pid\<rparr>"
      "cs_res s2 = cs_res s1" "cs_res s4 = cs_res s3" "cs_res s3 = cs_res s2" "cs_res s' = cs_res s5"
    using 1 by (auto dest!: clear_blob_run on_world_res)
  then show ?case by auto
qed

lemma clear_bring_up_run:
  assumes "clear_bring_up path s = Some (Ok u, s')"
  shows "\<exists>v t c. cs_res s' = (cs_res s)\<lparr>NegotiatedVersion := v, MaxTimelineCount := t, CapsetLen := c\<rparr> \<and> 3 \<le> v \<and> t \<noteq> 0"
  using assms unfolding clear_bring_up_def Let_def
proof (elim step_elims, goal_cases)
  case (1 x0 s0 t0 neg s1 y1 s2 tl s3 y2 s4 cp s5 capset valid y3 s6 y4 s7)
  have f: "cs_res s7 = cs_res s6" "cs_res s5 = cs_res s4" "cs_res s3 = cs_res s2" "cs_res s1 = cs_res s0" "cs_res s0 = cs_res s"
    using 1 by (auto dest!: on_world_res)
  have "s' = s7" using 1(13) by simp
  then have "cs_res s' = (cs_res s)\<lparr>NegotiatedVersion := neg, MaxTimelineCount := tl, CapsetLen := length capset\<rparr>"
    by (simp add: f 1(14) 1(7) 1(4))
  with 1(5,8) show ?case by (auto simp: VtestProtocolVersionVenus_def not_less)
qed

lemma step_readback_run:
  assumes "step_readback fma width height clear s = Some (Ok u, s')"
  shows "\<exists>e blob first n. 0 < n \<and>
    cs_res s' = (cs_res s)\<lparr>MemBlobResID := blob, ExpectTexel := map (enc_unorm fma) clear, ReadbackDone := True,
      FirstTexel := first, TexelsChecked := TexelsChecked (cs_res s) + n, TexelsRed := TexelsRed (cs_res s) + n,
      ReadbackPass := True, Trace := Trace (cs_res s) @ [e]\<rparr>"
  using assms unfolding step_readback_def Let_def
proof (elim step_elims trace_OkE, goal_cases)
  case (1 sz s0 xa s1 blob fd xb s2 mem s3 t xd s4 first s5 xf s6 len s7 red s8 xi s9 args s10 xk s11)
  obtain n where n: "0 < n" "cs_res s8 = (cs_res s7)\<lparr>TexelsChecked := TexelsChecked (cs_res s7) + n,
      TexelsRed := TexelsRed (cs_res s7) + n\<rparr>"
    using readback_loop_pass[of mem _ "if sint len < sint (width * 4) then sint len div 4 else sint width" 0 s7 s8] 1(7,16)
    by auto
  obtain e where e: "s11 = s10\<lparr>cs_res := (cs_res s10)\<lparr>Trace := Trace (cs_res s10) @ [e]\<rparr>\<rparr>"
    using 1(18) by blast
  have f: "cs_res s1 = cs_res s0" "cs_res t = cs_res s2" "cs_res s5 = cs_res s4"
    using 1(1,3,4,5) by (auto dest!: on_world_res)
  have g: "s' = s11" "s7 = s6" using 1(17,6) by simp_all
  have "cs_res s' = (cs_res s)\<lparr>MemBlobResID := blob, ExpectTexel := map (enc_unorm fma) clear, ReadbackDone := True,
      FirstTexel := first, TexelsChecked := TexelsChecked (cs_res s) + n, TexelsRed := TexelsRed (cs_res s) + n,
      ReadbackPass := True, Trace := Trace (cs_res s) @ [e]\<rparr>"
  proof -
    have "cs_res s4 = (cs_res s)\<lparr>MemBlobResID := blob, ExpectTexel := map (enc_unorm fma) clear, ReadbackDone := True\<rparr>"
      by (simp add: 1(13) f(2) 1(12) f(1) 1(9))
    then have "cs_res s7 = (cs_res s)\<lparr>MemBlobResID := blob, ExpectTexel := map (enc_unorm fma) clear, ReadbackDone := True,
        FirstTexel := first\<rparr>"
      by (simp add: g(2) 1(14) f(3))
    then have "cs_res s10 = (cs_res s)\<lparr>MemBlobResID := blob, ExpectTexel := map (enc_unorm fma) clear, ReadbackDone := True,
        FirstTexel := first, TexelsChecked := TexelsChecked (cs_res s) + n, TexelsRed := TexelsRed (cs_res s) + n,
        ReadbackPass := True\<rparr>"
      using 1(16) by (simp add: 1(11) 1(15) n(2))
    then show ?thesis by (simp add: g(1) e)
  qed
  with n(1) show ?case
    by (intro exI[of _ e] exI[of _ blob] exI[of _ first] exI[of _ n] conjI)
qed

section \<open>A run without error\<close>

text \<open>The commands of the walk in their order; the marked ones are recorded without a reply.\<close>

definition clear_commands :: "(bool \<times> string) list" where
  "clear_commands = [(False, ''vkCreateInstance''), (False, ''vkEnumeratePhysicalDevices(count)''),
     (False, ''vkEnumeratePhysicalDevices(fetch)''), (False, ''vkGetPhysicalDeviceMemoryProperties''),
     (False, ''vkGetPhysicalDeviceQueueFamilyProperties''), (False, ''vkCreateDevice''), (False, ''vkGetDeviceQueue2''),
     (False, ''vkCreateImage''), (False, ''vkGetImageMemoryRequirements''), (False, ''vkAllocateMemory''),
     (False, ''vkBindImageMemory''), (False, ''vkCreateCommandPool''), (False, ''vkAllocateCommandBuffers''),
     (False, ''vkBeginCommandBuffer''), (True, ''vkCmdPipelineBarrier''), (True, ''vkCmdClearColorImage''),
     (False, ''vkEndCommandBuffer''), (False, ''vkCreateFence''), (False, ''vkQueueSubmit''), (False, ''vkWaitForFences'')]"

definition acknowledged :: "bool \<times> string \<Rightarrow> string \<times> farg list \<Rightarrow> bool" where
  "acknowledged c e \<longleftrightarrow> (if fst c then void_line (snd c) e else reply_line (snd c) e)"

lemma run_steps_append:
  assumes "run_steps (ms @ ns) s = Some (Ok u, s')"
  shows "\<exists>v t. run_steps ms s = Some (Ok v, t) \<and> run_steps ns t = Some (Ok u, s')"
  using assms by (induction ms arbitrary: s) (fastforce elim!: try_with_OkE)+

text \<open>The first ten steps create the objects and bind the image memory.\<close>

definition object_steps :: "clearcs \<Rightarrow> goint \<Rightarrow> goint \<Rightarrow> (cstate, unit) io list" where
  "object_steps cc width height = [step_create_instance cc, step_enumerate cc, step_memory_properties cc, step_queue_families cc, step_create_device cc, step_get_queue, step_create_image cc width height, step_memory_requirements cc, step_allocate_memory cc width height, step_bind_memory cc]"

definition record_steps :: "clearcs \<Rightarrow> rat list \<Rightarrow> (cstate, unit) io list" where
  "record_steps cc clear = [step_create_pool cc, step_allocate_buffers cc, step_begin_buffer cc, step_barrier cc, step_clear_color cc clear, step_end_buffer cc, step_create_fence cc, step_queue_submit cc, step_wait_fences cc]"

lemma object_steps_run:
  assumes "run_steps (object_steps cc width height) s0 = Some (Ok u, s')"
  shows "\<exists>es. list_all2 acknowledged (take 11 clear_commands) es \<and>
    (let r = cs_res s'; r0 = cs_res s0 in Trace r = Trace r0 @ es \<and>
    ResCreateInstance r = 0 \<and> ResCreateDevice r = 0 \<and> ResCreateImage r = 0 \<and> ResAllocMemory r = 0 \<and> ResBindImage r = 0 \<and>
    MemTypeFlags r AND want_flags = want_flags \<and> MemReqBits r AND push_bit (unat (MemTypeIndex r)) 1 \<noteq> 0 \<and>
    NegotiatedVersion r = NegotiatedVersion r0 \<and> MaxTimelineCount r = MaxTimelineCount r0 \<and>
    TexelsChecked r = TexelsChecked r0 \<and> TexelsRed r = TexelsRed r0)"
  using assms unfolding object_steps_def run_steps.simps
proof (elim try_with_OkE, goal_cases)
  case (1 x1 s1 x2 s2 x3 s3 x4 s4 x5 s5 x6 s6 x7 s7 x8 s8 x9 s9 x10 s10)
  obtain e1 v1 where a1: "cs_res s1 = (cs_res s0)\<lparr>Trace := Trace (cs_res s0) @ [e1], ResCreateInstance := 0, Instance := v1\<rparr>" "reply_line ''vkCreateInstance'' e1"
    using step_create_instance_run[OF 1(1)] by blast
  obtain e2 e3 n1 v2 where a2: "cs_res s2 = (cs_res s1)\<lparr>Trace := Trace (cs_res s1) @ [e2, e3], PhysDevCount := n1, PhysDev := v2\<rparr>" "reply_line ''vkEnumeratePhysicalDevices(count)'' e2" "reply_line ''vkEnumeratePhysicalDevices(fetch)'' e3" "n1 \<noteq> 0"
    using step_enumerate_run[OF 1(2)] by blast
  obtain e4 n2 fl ti where a3: "cs_res s3 = (cs_res s2)\<lparr>Trace := Trace (cs_res s2) @ [e4], MemTypeCount := n2, MemTypeFlags := fl, MemTypeIndex := ti\<rparr>" "reply_line ''vkGetPhysicalDeviceMemoryProperties'' e4" "fl AND want_flags = want_flags"
    using step_memory_properties_run[OF 1(3)] by blast
  obtain e5 n3 where a4: "cs_res s4 = (cs_res s3)\<lparr>Trace := Trace (cs_res s3) @ [e5], QueueFamCount := n3, QueueFamilyIdx := 0\<rparr>" "reply_line ''vkGetPhysicalDeviceQueueFamilyProperties'' e5" "n3 \<noteq> 0"
    using step_queue_families_run[OF 1(4)] by blast
  obtain e6 v3 where a5: "cs_res s5 = (cs_res s4)\<lparr>Trace := Trace (cs_res s4) @ [e6], ResCreateDevice := 0, Device := v3\<rparr>" "reply_line ''vkCreateDevice'' e6"
    using step_create_device_run[OF 1(5)] by blast
  obtain e7 v4 where a6: "cs_res s6 = (cs_res s5)\<lparr>Trace := Trace (cs_res s5) @ [e7], Queue := v4\<rparr>" "reply_line ''vkGetDeviceQueue2'' e7"
    using step_get_queue_run[OF 1(6)] by blast
  obtain e8 v5 where a7: "cs_res s7 = (cs_res s6)\<lparr>Trace := Trace (cs_res s6) @ [e8], ResCreateImage := 0, Image := v5\<rparr>" "reply_line ''vkCreateImage'' e8"
    using step_create_image_run[OF 1(7)] by blast
  obtain e9 sz al bits where a8: "cs_res s8 = (cs_res s7)\<lparr>Trace := Trace (cs_res s7) @ [e9], MemReqSize := sz, MemReqAlign := al, MemReqBits := bits\<rparr>" "reply_line ''vkGetImageMemoryRequirements'' e9" "bits AND push_bit (unat (MemTypeIndex (cs_res s7))) 1 \<noteq> 0"
    using step_memory_requirements_run[OF 1(8)] by blast
  obtain e10 v6 where a9: "cs_res s9 = (cs_res s8)\<lparr>Trace := Trace (cs_res s8) @ [e10], ResAllocMemory := 0, Memory := v6\<rparr>" "reply_line ''vkAllocateMemory'' e10"
    using step_allocate_memory_run[OF 1(9)] by blast
  obtain e11 where a10: "cs_res s10 = (cs_res s9)\<lparr>Trace := Trace (cs_res s9) @ [e11], ResBindImage := 0\<rparr>" "reply_line ''vkBindImageMemory'' e11"
    using step_bind_memory_run[OF 1(10)] by blast
  have "s' = s10" using 1(11) by simp
  note eqs = this a10(1) a9(1) a8(1) a7(1) a6(1) a5(1) a4(1) a3(1) a2(1) a1(1)
  have "list_all2 acknowledged (take 11 clear_commands) [e1, e2, e3, e4, e5, e6, e7, e8, e9, e10, e11]"
    by (simp add: clear_commands_def acknowledged_def a1(2) a2(2) a3(2) a4(2) a5(2) a6(2) a7(2) a8(2) a9(2) a10(2) a2(3))
  moreover have "MemTypeIndex (cs_res s7) = ti" by (simp add: a7(1) a6(1) a5(1) a4(1) a3(1))
  ultimately show ?case
    using a3(3) a8(3) unfolding Let_def by (intro exI[of _ "[e1, e2, e3, e4, e5, e6, e7, e8, e9, e10, e11]"]) (simp add: eqs)
qed

text \<open>The next nine record, submit and wait for the clear.\<close>

lemma record_steps_run:
  assumes "run_steps (record_steps cc clear) s10 = Some (Ok u, s')"
  shows "\<exists>es. list_all2 acknowledged (drop 11 clear_commands) es \<and>
    (\<exists>pool buf fence. cs_res s' = (cs_res s10)\<lparr>Trace := Trace (cs_res s10) @ es, ResCreatePool := 0, CmdPool := pool,
      ResAllocCmdBuf := 0, CmdBuf := buf, ResBeginCmdBuf := 0, ResEndCmdBuf := 0, ResCreateFence := 0, Fence := fence,
      ResQueueSubmit := 0, ResWaitForFences := 0\<rparr>)"
  using assms unfolding record_steps_def run_steps.simps
proof (elim try_with_OkE, goal_cases)
  case (1 x11 s11 x12 s12 x13 s13 x14 s14 x15 s15 x16 s16 x17 s17 x18 s18 x19 s19)
  obtain e12 v7 where a11: "cs_res s11 = (cs_res s10)\<lparr>Trace := Trace (cs_res s10) @ [e12], ResCreatePool := 0, CmdPool := v7\<rparr>" "reply_line ''vkCreateCommandPool'' e12"
    using step_create_pool_run[OF 1(1)] by blast
  obtain e13 v8 where a12: "cs_res s12 = (cs_res s11)\<lparr>Trace := Trace (cs_res s11) @ [e13], ResAllocCmdBuf := 0, CmdBuf := v8\<rparr>" "reply_line ''vkAllocateCommandBuffers'' e13"
    using step_allocate_buffers_run[OF 1(2)] by blast
  obtain e14 where a13: "cs_res s13 = (cs_res s12)\<lparr>Trace := Trace (cs_res s12) @ [e14], ResBeginCmdBuf := 0\<rparr>" "reply_line ''vkBeginCommandBuffer'' e14"
    using step_begin_buffer_run[OF 1(3)] by blast
  obtain e15 where a14: "cs_res s14 = (cs_res s13)\<lparr>Trace := Trace (cs_res s13) @ [e15]\<rparr>" "void_line ''vkCmdPipelineBarrier'' e15"
    using step_void_run[OF 1(4)] by blast
  obtain e16 where a15: "cs_res s15 = (cs_res s14)\<lparr>Trace := Trace (cs_res s14) @ [e16]\<rparr>" "void_line ''vkCmdClearColorImage'' e16"
    using step_clear_color_run[OF 1(5)] by blast
  obtain e17 where a16: "cs_res s16 = (cs_res s15)\<lparr>Trace := Trace (cs_res s15) @ [e17], ResEndCmdBuf := 0\<rparr>" "reply_line ''vkEndCommandBuffer'' e17"
    using step_end_buffer_run[OF 1(6)] by blast
  obtain e18 v9 where a17: "cs_res s17 = (cs_res s16)\<lparr>Trace := Trace (cs_res s16) @ [e18], ResCreateFence := 0, Fence := v9\<rparr>" "reply_line ''vkCreateFence'' e18"
    using step_create_fence_run[OF 1(7)] by blast
  obtain e19 where a18: "cs_res s18 = (cs_res s17)\<lparr>Trace := Trace (cs_res s17) @ [e19], ResQueueSubmit := 0\<rparr>" "reply_line ''vkQueueSubmit'' e19"
    using step_queue_submit_run[OF 1(8)] by blast
  obtain e20 where a19: "cs_res s19 = (cs_res s18)\<lparr>Trace := Trace (cs_res s18) @ [e20], ResWaitForFences := 0\<rparr>" "reply_line ''vkWaitForFences'' e20"
    using step_wait_fences_run[OF 1(9)] by blast
  have "s' = s19" using 1(10) by simp
  note eqs = this a19(1) a18(1) a17(1) a16(1) a15(1) a14(1) a13(1) a12(1) a11(1)
  have "list_all2 acknowledged (drop 11 clear_commands) [e12, e13, e14, e15, e16, e17, e18, e19, e20]"
    by (simp add: clear_commands_def acknowledged_def a11(2) a12(2) a13(2) a14(2) a15(2) a16(2) a17(2) a18(2) a19(2))
  moreover have "cs_res s' = (cs_res s10)\<lparr>Trace := Trace (cs_res s10) @ [e12, e13, e14, e15, e16, e17, e18, e19, e20], ResCreatePool := 0,
      CmdPool := v7, ResAllocCmdBuf := 0, CmdBuf := v8, ResBeginCmdBuf := 0, ResEndCmdBuf := 0, ResCreateFence := 0,
      Fence := v9, ResQueueSubmit := 0, ResWaitForFences := 0\<rparr>"
    by (simp only: eqs) simp
  ultimately show ?case by blast
qed

text \<open>A clear-image run that reports no error negotiated protocol 3, submitted the twenty
  commands of the walk in order and had each one consumed by the host and, where it carries a
  reply, answered with its own command type; every \<open>VkResult\<close> is success, the chosen memory
  type is host-visible, coherent and allowed for the image, and the readback compared at least
  one texel and found every one equal to the encoded clear colour.\<close>

lemma clear_success:
  assumes "VenusClearImage cc fma path bufferSize width height clear timeout w = Some (Ok (r, None), w')"
  shows "3 \<le> NegotiatedVersion r \<and> MaxTimelineCount r \<noteq> 0 \<and>
    (\<exists>es e. Trace r = es @ [e] \<and> list_all2 acknowledged clear_commands es) \<and>
    ResCreateInstance r = 0 \<and> ResCreateDevice r = 0 \<and> ResCreateImage r = 0 \<and> ResAllocMemory r = 0 \<and>
    ResBindImage r = 0 \<and> ResCreatePool r = 0 \<and> ResAllocCmdBuf r = 0 \<and> ResBeginCmdBuf r = 0 \<and>
    ResEndCmdBuf r = 0 \<and> ResCreateFence r = 0 \<and> ResQueueSubmit r = 0 \<and> ResWaitForFences r = 0 \<and>
    MemTypeFlags r AND want_flags = want_flags \<and> MemReqBits r AND push_bit (unat (MemTypeIndex r)) 1 \<noteq> 0 \<and>
    ReadbackDone r \<and> ReadbackPass r \<and> 0 < TexelsChecked r \<and> TexelsRed r = TexelsChecked r \<and>
    ExpectTexel r = map (enc_unorm fma) clear"
proof -
  from assms obtain s where run: "run_steps (clear_bring_up path # clear_ring_setup bufferSize
      # clear_steps cc fma width height clear) (clear_start clear timeout w) = Some (Ok (), s)" and r: "r = cs_res s"
    by (auto simp: VenusClearImage_def split: option.splits res.splits)
  have "clear_steps cc fma width height clear = object_steps cc width height @ record_steps cc clear @
      [step_readback fma width height clear]"
    by (simp add: clear_steps_def object_steps_def record_steps_def)
  with run obtain u1 s1 u2 s2 u3 s3 u4 s4 where
      b: "clear_bring_up path (clear_start clear timeout w) = Some (Ok u1, s1)"
         "clear_ring_setup bufferSize s1 = Some (Ok u2, s2)"
      and o: "run_steps (object_steps cc width height) s2 = Some (Ok u3, s3)"
      and c: "run_steps (record_steps cc clear) s3 = Some (Ok u4, s4)"
      and k: "step_readback fma width height clear s4 = Some (Ok (), s)"
    by (fastforce elim!: try_with_OkE dest!: run_steps_append)
  obtain v t n where 1: "cs_res s1 = (clear_zero clear)\<lparr>NegotiatedVersion := v, MaxTimelineCount := t, CapsetLen := n\<rparr>"
      "3 \<le> v" "t \<noteq> 0"
    using clear_bring_up_run[OF b(1)] by (auto simp: clear_start_def)
  obtain ra rb where 2: "cs_res s2 = (cs_res s1)\<lparr>RingBlobResID := ra, ReplyBlobResID := rb\<rparr>"
    using clear_ring_setup_run[OF b(2)] by blast
  obtain es where 3: "list_all2 acknowledged (take 11 clear_commands) es" "Trace (cs_res s3) = es"
      and 4: "ResCreateInstance (cs_res s3) = 0" "ResCreateDevice (cs_res s3) = 0" "ResCreateImage (cs_res s3) = 0"
        "ResAllocMemory (cs_res s3) = 0" "ResBindImage (cs_res s3) = 0" "MemTypeFlags (cs_res s3) AND want_flags = want_flags"
        "MemReqBits (cs_res s3) AND push_bit (unat (MemTypeIndex (cs_res s3))) 1 \<noteq> 0"
        "NegotiatedVersion (cs_res s3) = v" "MaxTimelineCount (cs_res s3) = t" "TexelsChecked (cs_res s3) = 0"
        "TexelsRed (cs_res s3) = 0"
    using object_steps_run[OF o] by (auto simp: 2 1(1) clear_zero_def Let_def)
  from record_steps_run[OF c] obtain fs pool buf fence where 5: "list_all2 acknowledged (drop 11 clear_commands) fs"
      "cs_res s4 = (cs_res s3)\<lparr>Trace := Trace (cs_res s3) @ fs, ResCreatePool := 0, CmdPool := pool,
      ResAllocCmdBuf := 0, CmdBuf := buf, ResBeginCmdBuf := 0, ResEndCmdBuf := 0, ResCreateFence := 0, Fence := fence,
      ResQueueSubmit := 0, ResWaitForFences := 0\<rparr>"
    by blast
  have "list_all2 acknowledged clear_commands (es @ fs)"
    using list_all2_appendI[OF 3(1) 5(1)] by (simp only: append_take_drop_id)
  with step_readback_run[OF k] 4 1(2,3) show ?thesis by (auto simp: r 5(2) 3(2))
qed

end
