(* ===== verification/Clear_Verdict.thy ===== *)
theory Clear_Verdict
  imports Clear_Props
begin

text \<open>
  The verdict of the clear-image driver on every outcome. \<open>keeps\<close> is the frame of a
  field of the result record that holds however a step ends; with it, the error that
  \<open>VenusClearImage\<close> returns and the \<open>ReadbackPass\<close> flag are shown to agree, and a reply window
  the host never stored into is shown to be rejected.
\<close>

section \<open>What a step leaves alone\<close>

abbreviation keeps :: "(ClearImageResult \<Rightarrow> 'b) \<Rightarrow> (cstate, 'a) io \<Rightarrow> bool" where
  "keeps f \<equiv> framed (same (\<lambda>s. f (cs_res s)))"

named_theorems keeps_intros

lemmas keeps_shared [keeps_intros] = view.framed_pure view.framed_try framed_cases framed_list framed_option

lemma keeps_def: "keeps f m \<longleftrightarrow> (\<forall>s r s'. m s = Some (r, s') \<longrightarrow> f (cs_res s') = f (cs_res s))"
  by (simp add: framed_def same_def)

lemma keepsD: "keeps f m \<Longrightarrow> m s = Some (r, s') \<Longrightarrow> f (cs_res s') = f (cs_res s)"
  by (auto simp: keeps_def)

lemma keeps_basic [keeps_intros]:
  "keeps f (get_res g)" "keeps f (on_world m)" "keeps f (driver_submit c)" "keeps f (driver_wait q)"
  "keeps f (defer_call d)"
  by (auto simp: keeps_def on_world_def driver_submit_def driver_wait_def defer_call_def split: option.splits res.splits)

lemma keeps_set_res [keeps_intros]: "(\<And>r. f (u r) = f r) \<Longrightarrow> keeps f (set_res u)"
  by (simp add: keeps_def)

lemma keeps_trace [keeps_intros]: "(\<And>r. f (r\<lparr>Trace := Trace r @ [(a, b)]\<rparr>) = f r) \<Longrightarrow> keeps f (trace a b)"
  by (simp add: trace_def keeps_set_res)

lemma keeps_submitWithReply [keeps_intros]:
  assumes "\<And>r t. f (r\<lparr>Trace := t\<rparr>) = f r"
  shows "keeps f (submitWithReply name want cmd)"
  unfolding submitWithReply_def Let_def
  by (rule framed_at) (intro keeps_intros assms)

lemma keeps_submitNoReply [keeps_intros]:
  assumes "\<And>r t. f (r\<lparr>Trace := t\<rparr>) = f r"
  shows "keeps f (submitNoReply name cmd)"
  unfolding submitNoReply_def Let_def
  by (rule framed_at) (intro keeps_intros assms)

lemma keeps_readback_loop: "keeps ReadbackPass (readback_loop mem expect n b i)"
proof (induction n arbitrary: b i)
  case (Suc n)
  show ?case unfolding readback_loop.simps by (intro keeps_intros Suc) simp_all
qed (simp add: keeps_intros)

lemma keeps_blob [keeps_intros]:
  assumes "\<And>x r. f (u x r) = f r"
  shows "keeps f (clear_blob a b sz u)"
  unfolding clear_blob_def by (intro keeps_intros assms)

section \<open>The flag and the error agree\<close>

definition verdict :: "(cstate, 'a) io \<Rightarrow> bool" where
  "verdict m \<longleftrightarrow> (\<forall>s r s'. \<not> ReadbackPass (cs_res s) \<longrightarrow> m s = Some (r, s') \<longrightarrow>
     (ReadbackPass (cs_res s') \<longleftrightarrow> (\<exists>x. r = Ok x)))"

lemma verdictD:
  "verdict m \<Longrightarrow> \<not> ReadbackPass (cs_res s) \<Longrightarrow> m s = Some (r, s') \<Longrightarrow> ReadbackPass (cs_res s') \<longleftrightarrow> (\<exists>x. r = Ok x)"
  by (auto simp: verdict_def)

lemma verdict_try:
  assumes "keeps ReadbackPass m" "\<And>x. verdict (k x)"
  shows "verdict (try_with h m k)"
  unfolding verdict_def
proof (intro allI impI)
  fix s r s' assume start: "\<not> ReadbackPass (cs_res s)" and run: "try_with h m k s = Some (r, s')"
  then obtain y t where m: "m s = Some (y, t)" by (auto simp: try_with_def split: option.splits)
  with run start keepsD[OF assms(1) m] show "ReadbackPass (cs_res s') \<longleftrightarrow> (\<exists>x. r = Ok x)"
    using verdictD[OF assms(2)] by (cases y) auto
qed

lemma verdict_cases:
  "(\<And>x y. p = (x, y) \<Longrightarrow> verdict (g x y)) \<Longrightarrow> verdict (case p of (x, y) \<Rightarrow> g x y)"
  by (auto split: prod.splits)

text \<open>The end of the readback: the flag is set, the line is traced, and the error is returned
  exactly when a texel differed.\<close>

lemma verdict_tail:
  "verdict (bind_io (set_res (\<lambda>r. r\<lparr>ReadbackPass := b\<rparr>)) (\<lambda>_.
     bind_io (get_res g) (\<lambda>args. bind_io (trace fmt (h args)) (\<lambda>_.
       if \<not> b then fail_io (e args) else return_io ()))))"
  by (auto simp: verdict_def try_with_def trace_def set_res_def get_res_def)

lemma verdict_readback: "verdict (step_readback fma width height clear)"
  unfolding step_readback_def Let_def
  by (intro verdict_try verdict_cases verdict_tail keeps_intros keeps_readback_loop)
    (simp_all add: keeps_def)

lemma verdict_run_steps:
  assumes "list_all (keeps ReadbackPass) ms" "verdict m"
  shows "verdict (run_steps (ms @ [m]))"
  using assms(1)
proof (induction ms)
  case Nil
  show ?case using assms(2) by (auto simp: verdict_def try_with_def split: option.splits res.splits)
qed (auto intro!: verdict_try)

lemmas walk_defs = step_create_instance_def step_enumerate_def step_memory_properties_def step_queue_families_def
  step_create_device_def step_get_queue_def step_create_image_def step_memory_requirements_def
  step_allocate_memory_def step_bind_memory_def step_create_pool_def step_allocate_buffers_def
  step_begin_buffer_def step_barrier_def step_clear_color_def step_end_buffer_def step_create_fence_def
  step_queue_submit_def step_wait_fences_def

lemma keeps_bring_up: "keeps ReadbackPass (clear_bring_up path)"
  unfolding clear_bring_up_def Let_def by (intro keeps_intros) simp_all

lemma keeps_ring_setup: "keeps ReadbackPass (clear_ring_setup bufferSize)"
  unfolding clear_ring_setup_def by (intro keeps_intros) (simp_all add: keeps_def)

lemma keeps_object_steps: "list_all (keeps ReadbackPass) (object_steps cc width height)"
  unfolding object_steps_def walk_defs Let_def list.pred_inject
  by (intro conjI keeps_intros TrueI) simp_all

lemma keeps_record_steps: "list_all (keeps ReadbackPass) (record_steps cc clear)"
  unfolding record_steps_def walk_defs Let_def list.pred_inject
  by (intro conjI keeps_intros TrueI) simp_all

lemma clear_steps_split:
  "clear_steps cc fma width height clear = (object_steps cc width height @ record_steps cc clear) @
     [step_readback fma width height clear]"
  by (simp add: clear_steps_def object_steps_def record_steps_def)

lemma verdict_clear:
  "verdict (run_steps (clear_bring_up path # clear_ring_setup bufferSize # clear_steps cc fma width height clear))"
  unfolding clear_steps_split append_Cons[symmetric]
  by (rule verdict_run_steps) (simp_all add: keeps_bring_up keeps_ring_setup keeps_object_steps keeps_record_steps verdict_readback)

section \<open>A reply is accepted only if the host wrote one\<close>

definition leaves_alone :: "nat \<Rightarrow> host_act \<Rightarrow> bool" where
  "leaves_alone p a = (case a of HostAct sts t \<Rightarrow> list_all (\<lambda>(h, i, v). h \<noteq> p) sts)"

definition untouched :: "nat \<Rightarrow> world \<Rightarrow> world \<Rightarrow> bool" where
  "untouched p w w' \<longleftrightarrow> w_maps w' ! p = w_maps w ! p \<and>
     (list_all (leaves_alone p) (w_host w) \<longrightarrow> list_all (leaves_alone p) (w_host w'))"

lemma untouched_trans: "untouched p a b \<Longrightarrow> untouched p b c \<Longrightarrow> untouched p a c"
  by (simp add: untouched_def)

lemma host_stores_frame: "list_all (\<lambda>(h, i, v). h \<noteq> p) sts \<Longrightarrow> fold host_store sts ms ! p = ms ! p"
  by (induction sts arbitrary: ms) auto

lemma host_step_frame: "list_all (leaves_alone p) (w_host w) \<Longrightarrow> untouched p w (host_step w)"
  by (auto simp: untouched_def host_step_def leaves_alone_def host_stores_frame split: list.splits host_act.splits)

lemma store_slice_frame: "store_slice h lo hi src w = Some (r, w') \<Longrightarrow> h \<noteq> p \<Longrightarrow> untouched p w w'"
  by (auto simp: store_slice_def untouched_def Let_def split: if_splits)

lemma writeCmd_frame:
  assumes "writeCmd m cur cmd w = Some (Ok q, w')" "mr_mem m \<noteq> p"
  shows "untouched p w w'"
  using assms unfolding writeCmd_def Let_def
  by (auto elim!: try_with_OkE dest!: store_slice_frame[where p = p] split: if_splits intro: untouched_trans)

lemma Submit_frame:
  assumes "Submit m cmd w = Some (Ok (q, m'), w')" "mr_mem m \<noteq> p"
  shows "untouched p w w'" "mr_mem m' = mr_mem m"
  using assms by (auto simp: Submit_def elim!: try_with_OkE dest: writeCmd_frame)

lemma Head_frame:
  "Head m w = Some (r, w') \<Longrightarrow> list_all (leaves_alone p) (w_host w) \<Longrightarrow> untouched p w w'"
  using host_step_frame[of p w]
  by (auto simp: Head_def load_slice_def Let_def try_with_def split: if_splits)

lemma wait_loop_frame:
  "wait_loop m q dl w = Some (r, w') \<Longrightarrow> list_all (leaves_alone p) (w_host w) \<Longrightarrow> untouched p w w'"
proof (induction m q dl w rule: wait_loop.induct)
  case (1 m q dl w)
  note run = "1.prems"(1)[unfolded wait_loop.simps[of m q dl w]]
  obtain y w1 where h: "Head m w = Some (y, w1)" using run by (auto split: option.splits)
  have u: "untouched p w w1" by (rule Head_frame[OF h "1.prems"(2)])
  show ?case
  proof (cases "\<exists>hd. y = Ok hd \<and> \<not> q \<le> hd \<and> \<not> dl < w_clock w1")
    case True
    then obtain hd where y: "y = Ok hd" "\<not> q \<le> hd" "\<not> dl < w_clock w1" by blast
    have "untouched p (sleep 500000 w1) w'"
      by (rule "1.IH"[OF h refl y]) (use run "1.prems"(2) h y u in \<open>auto simp: untouched_def\<close>)
    with u show ?thesis by (auto simp: untouched_def)
  next
    case False
    with run h have "w' = w1" by (auto split: res.splits if_splits)
    with u show ?thesis by simp
  qed
qed

lemma sentinel_word: "4 \<le> n \<Longrightarrow> get32 (take 4 (replicate n 0xCC)) = 0xCCCCCCCC"
proof -
  assume "4 \<le> n"
  then have "take 4 (replicate n (0xCC::byte)) = [0xCC, 0xCC, 0xCC, 0xCC]" by (simp add: min_def numeral_eq_Suc)
  moreover have "get32 [0xCC, 0xCC, 0xCC, 0xCC] = 0xCCCCCCCC" by code_simp
  ultimately show ?thesis by simp
qed

lemma load_word:
  assumes "load_slice p 0 4 w = Some (Ok b, w')"
  shows "w' = host_step w" "b = take 4 (w_maps w' ! p)" "4 \<le> length (w_maps w' ! p)"
  using assms by (auto simp: load_slice_def Let_def slice_ok_def split: if_splits)

section \<open>A served command returns its reply\<close>

text \<open>The world after the window has been filled and both commands are in the ring, and the ring
  of the driver then.\<close>

definition set_reply :: "cstate \<Rightarrow> bytes" where
  "set_reply s = padDword (EncodeVkSetReplyCommandStreamMESACS (ReplyBlobResID (cs_res s)) 0 (cs_replySize s))"

definition posted :: "bytes \<Rightarrow> cstate \<Rightarrow> world" where
  "posted cmd s = (let w = cs_world s; m = cs_ring s; sz = unat (mr_bufferSize m); p = cs_replyMem s in
     w\<lparr>w_maps := (w_maps w)[p := replicate (length (w_maps w ! p)) 0xCC,
       mr_mem m := ring_mem sz (mr_cur m + of_nat (length (set_reply s))) (padDword cmd)
         (ring_mem sz (mr_cur m) (set_reply s) (w_maps w ! mr_mem m))]\<rparr>)"

definition posted_seqno :: "bytes \<Rightarrow> cstate \<Rightarrow> u32" where
  "posted_seqno cmd s = mr_cur (cs_ring s) + of_nat (length (set_reply s)) + of_nat (length (padDword cmd))"

definition serves :: "i32 \<Rightarrow> bytes \<Rightarrow> cstate \<Rightarrow> bool" where
  "serves want cmd s \<longleftrightarrow> (let w = host_step (posted cmd s) in
     posted_seqno cmd s \<le> ctrl_word 0 (cs_ring s) w \<and>
     take 4 (w_maps (host_step w) ! cs_replyMem s) = le32 want)"

definition ready :: "bytes \<Rightarrow> cstate \<Rightarrow> bool" where
  "ready cmd s \<longleftrightarrow> wf_ring (cs_ring s) (cs_world s) \<and> cs_replyMem s \<noteq> mr_mem (cs_ring s) \<and>
     cs_replyMem s < length (w_maps (cs_world s)) \<and> 4 \<le> unat (cs_replySize s) \<and> unat (cs_replySize s) < 2 ^ 63 \<and>
     length (w_maps (cs_world s) ! cs_replyMem s) = unat (cs_replySize s) \<and>
     length (set_reply s) \<le> unat (mr_bufferSize (cs_ring s)) \<and>
     length (padDword cmd) \<le> unat (mr_bufferSize (cs_ring s))"

lemma same_shape_update:
  "length x = length (w_maps w ! h) \<Longrightarrow> same_shape w (w\<lparr>w_maps := (w_maps w)[h := x]\<rparr>)"
  by (cases "h < length (w_maps w)") (auto simp: same_shape_def list_eq_iff_nth_eq nth_list_update)

lemma wf_ring_cur [simp]: "wf_ring (m\<lparr>mr_cur := c\<rparr>) w = wf_ring m w"
  by (simp add: wf_ring_def)

lemma post_run:
  assumes "ready cmd s"
  shows "fill_map (cs_replyMem s) 0xCC (cs_world s) = Some (Ok (), w1) \<Longrightarrow>
    \<exists>m1 w2. Submit (cs_ring s) (set_reply s) w1 = Some (Ok (mr_cur (cs_ring s) + of_nat (length (set_reply s)), m1), w2) \<and>
      Submit m1 (padDword cmd) w2 = Some (Ok (posted_seqno cmd s, (cs_ring s)\<lparr>mr_cur := posted_seqno cmd s\<rparr>), posted cmd s)"
    "wf_ring ((cs_ring s)\<lparr>mr_cur := c\<rparr>) (posted cmd s)" "same_shape (cs_world s) (posted cmd s)"
proof -
  let ?w = "cs_world s" and ?m = "cs_ring s" and ?p = "cs_replyMem s" and ?sz = "unat (mr_bufferSize (cs_ring s))"
  let ?w1 = "?w\<lparr>w_maps := (w_maps ?w)[?p := replicate (length (w_maps ?w ! ?p)) 0xCC]\<rparr>"
  let ?m1 = "?m\<lparr>mr_cur := mr_cur ?m + of_nat (length (set_reply s))\<rparr>"
  let ?w2 = "?w1\<lparr>w_maps := (w_maps ?w1)[mr_mem ?m := ring_mem ?sz (mr_cur ?m) (set_reply s) (w_maps ?w1 ! mr_mem ?m)]\<rparr>"
  from assms have wf: "wf_ring ?m ?w" and ne: "?p \<noteq> mr_mem ?m"
      and len: "length (set_reply s) \<le> ?sz" "length (padDword cmd) \<le> ?sz"
    by (auto simp: ready_def)
  have wf1: "wf_ring ?m ?w1" by (rule wf_ring_shape[OF same_shape_update wf]) simp
  have sz: "0 < ?sz" "192 + ?sz \<le> length (w_maps ?w1 ! mr_mem ?m)" using wf1 by (auto simp: wf_ring_def)
  have sh2: "same_shape ?w1 ?w2" using ring_mem_length[OF len(1) sz(2,1)] by (intro same_shape_update)
  have wf2: "wf_ring ?m1 ?w2" using wf_ring_shape[OF sh2 wf1] by simp
  have sub1: "Submit ?m (set_reply s) ?w1 = Some (Ok (mr_cur ?m1, ?m1), ?w2)"
    by (simp add: Submit_effect[OF wf1 len(1)])
  have p: "posted cmd s = ?w2\<lparr>w_maps := (w_maps ?w2)[mr_mem ?m := ring_mem ?sz (mr_cur ?m1) (padDword cmd) (w_maps ?w2 ! mr_mem ?m)]\<rparr>"
    using ne wf by (simp add: posted_def Let_def wf_ring_def)
  have sub2: "Submit ?m1 (padDword cmd) ?w2 = Some (Ok (posted_seqno cmd s, ?m\<lparr>mr_cur := posted_seqno cmd s\<rparr>), posted cmd s)"
    using len(2) by (subst Submit_effect[OF wf2]) (simp_all add: posted_seqno_def p)
  have sz2: "192 + ?sz \<le> length (w_maps ?w2 ! mr_mem ?m)"
    using wf_ring_shape[OF sh2 wf1] unfolding wf_ring_def by blast
  have sh3: "same_shape ?w2 (posted cmd s)"
    unfolding p using ring_mem_length[OF len(2) sz2 sz(1)] by (intro same_shape_update)
  show "wf_ring (?m\<lparr>mr_cur := c\<rparr>) (posted cmd s)"
    using wf_ring_shape[OF sh3 wf2] by simp
  have "same_shape ?w ?w1" by (rule same_shape_update) simp
  then show "same_shape ?w (posted cmd s)" using same_shape_trans sh2 sh3 by blast
  show "\<exists>m1 w2. Submit ?m (set_reply s) w1 = Some (Ok (mr_cur ?m + of_nat (length (set_reply s)), m1), w2) \<and>
      Submit m1 (padDword cmd) w2 = Some (Ok (posted_seqno cmd s, ?m\<lparr>mr_cur := posted_seqno cmd s\<rparr>), posted cmd s)"
    if "fill_map ?p 0xCC ?w = Some (Ok (), w1)"
  proof -
    from that have "w1 = ?w1" by (simp add: fill_map_def)
    with sub1 sub2 show ?thesis by auto
  qed
qed

lemma load_reply:
  assumes "length (w_maps w ! p) = unat n" "p < length (w_maps w)" "unat (n :: goint) < 2 ^ 63" "k \<le> unat n"
  shows "load_slice p 0 (of_nat k) w = Some (Ok (take k (w_maps (host_step w) ! p)), host_step w)"
  using load_slice_nat[of w p 0 k] same_shapeD(2)[OF host_step_shape assms(2)] assms by simp

lemma reply_served_run:
  assumes "ready cmd s" "serves want cmd s"
  shows "\<exists>t. submitWithReply name want cmd s =
      Some (Ok (w_maps (host_step (host_step (host_step (posted cmd s)))) ! cs_replyMem s),
        s\<lparr>cs_ring := (cs_ring s)\<lparr>mr_cur := posted_seqno cmd s\<rparr>, cs_res := (cs_res s)\<lparr>Trace := t\<rparr>,
          cs_world := host_step (host_step (host_step (posted cmd s)))\<rparr>)"
proof -
  let ?p = "cs_replyMem s" and ?n = "cs_replySize s" and ?w = "posted cmd s" and ?q = "posted_seqno cmd s"
  let ?m = "(cs_ring s)\<lparr>mr_cur := ?q\<rparr>"
  obtain w1 where fill: "fill_map ?p 0xCC (cs_world s) = Some (Ok (), w1)" by (simp add: fill_map_def)
  obtain m1 w2 where sub: "Submit (cs_ring s) (set_reply s) w1 = Some (Ok (mr_cur (cs_ring s) + of_nat (length (set_reply s)), m1), w2)"
      "Submit m1 (padDword cmd) w2 = Some (Ok (?q, ?m), ?w)"
    using post_run(1)[OF assms(1) fill] by blast
  have wf: "wf_ring ?m ?w" and sh: "same_shape (cs_world s) ?w" using post_run(2,3)[OF assms(1)] .
  from assms(1) have n: "length (w_maps (cs_world s) ! ?p) = unat ?n" "unat ?n < 2 ^ 63" "4 \<le> unat ?n" "?p < length (w_maps (cs_world s))"
    by (auto simp: ready_def)
  from assms(2) have hd: "?q \<le> ctrl_word 0 ?m (host_step ?w)"
      and echo: "take 4 (w_maps (host_step (host_step ?w)) ! ?p) = le32 want"
    by (auto simp: serves_def Let_def ctrl_word_def)
  have wait: "WaitHead ?m ?q (cs_timeout s) ?w = Some (Ok (ctrl_word 0 ?m (host_step ?w), True), host_step ?w)"
    unfolding WaitHead_def using hd by (simp add: wait_loop_unfold[OF wf] Let_def)
  have "same_shape (cs_world s) (host_step ?w)" "same_shape (cs_world s) (host_step (host_step ?w))"
    using sh host_step_shape same_shape_trans by blast+
  note sh' = this[THEN same_shapeD(1)] this[THEN same_shapeD(2)]
  have l4: "load_slice ?p 0 4 (host_step ?w) = Some (Ok (le32 want), host_step (host_step ?w))"
    using load_reply[of "host_step ?w" ?p ?n 4] sh' n echo by simp
  have ln: "load_slice ?p 0 ?n (host_step (host_step ?w)) = Some (Ok (w_maps (host_step (host_step (host_step ?w))) ! ?p), host_step (host_step (host_step ?w)))"
    using load_reply[of "host_step (host_step ?w)" ?p ?n "unat ?n"] sh' n
      same_shapeD(2)[OF host_step_shape[of "host_step (host_step ?w)"], of ?p] by simp
  show ?thesis
    unfolding submitWithReply_def Let_def set_reply_def[symmetric] driver_submit_def driver_wait_def on_world_def
    using fill sub wait l4 ln
    by (intro exI[of _ "Trace (cs_res s) @ [(reply_fmt, [AStr name, ANum (uint ?q),
        ANum (uint (ctrl_word 0 ?m (host_step ?w))), ABool True, ANum (sint want), ANum (sint want), AStr '' OK''])]"])
      (simp add: try_with_def get_res_def trace_def set_res_def set_reply_def reply_fmt_def)
qed

end
