(* ===== verification/Driver_Frames.thy ===== *)
theory Driver_Frames
  imports Clear_Verdict
begin

text \<open>
  Frames of the ring and of the clear-image driver. A relation on worlds that the host's actions,
  the passing of time and the driver's stores into its mappings respect is respected by every
  operation on the ring, and by every step of the walk; the locale \<open>world_frame\<close> proves it once
  for all such relations.
\<close>

section \<open>Relations on worlds\<close>

definition lifted :: "(world \<Rightarrow> world \<Rightarrow> bool) \<Rightarrow> cstate \<Rightarrow> cstate \<Rightarrow> bool" where
  "lifted R s s' \<longleftrightarrow> R (cs_world s) (cs_world s') \<and> cs_defers s' = cs_defers s"

locale world_frame = frame R for R :: "world \<Rightarrow> world \<Rightarrow> bool" +
  assumes host: "R w (host_step w)"
    and time: "R w (sleep d w)"
    and stores: "length x = length (w_maps w ! h) \<Longrightarrow> R w (w\<lparr>w_maps := (w_maps w)[h := x]\<rparr>)"

sublocale world_frame \<subseteq> lifted: frame "lifted R"
  by unfold_locales (auto simp: lifted_def refl intro: trans)

context world_frame
begin

lemma framed_access [frame_intros]:
  "framed R (load_slice h lo hi)" "framed R (store_slice h lo hi b)" "framed R (fill_map h v)"
proof -
  show "framed R (load_slice h lo hi)" "framed R (fill_map h v)"
    by (auto simp: framed_def load_slice_def fill_map_def Let_def host intro!: stores split: if_splits)
  show "framed R (store_slice h lo hi b)"
    by (rule framedI) (auto simp: store_slice_def Let_def refl intro!: stores length_blit slice_fits split: if_splits)
qed

lemma framed_ctrl [frame_intros]: "framed R (Head m)" "framed R (Status m)"
  unfolding Head_def Status_def by (intro frame_intros)+

lemma framed_writeCmd [frame_intros]: "framed R (writeCmd m cur cmd)"
  unfolding writeCmd_def[abs_def] Let_def by (rule framed_at) (intro frame_intros)

lemma framed_Submit [frame_intros]: "framed R (Submit m cmd)"
  unfolding Submit_def by (intro frame_intros)

lemma wait_loop_respects: "wait_loop m q dl w = Some (r, w') \<Longrightarrow> R w w'"
proof (induction m q dl w rule: wait_loop.induct)
  case (1 m q dl w)
  note run = "1.prems"[unfolded wait_loop.simps[of m q dl w]]
  obtain y w1 where h: "Head m w = Some (y, w1)" using run by (auto split: option.splits)
  have s: "R w w1" "R w (sleep 500000 w1)"
    using framedD[OF framed_ctrl(1) h] time trans by blast+
  with run h "1.IH"[OF h HOL.refl] show ?case
    by (auto split: res.splits if_splits intro: trans)
qed

lemma poll_loop_respects: "poll_loop m dl res w = Some (r, w') \<Longrightarrow> R w w'"
proof (induction m dl res w rule: poll_loop.induct)
  case (1 m dl res w)
  note run = "1.prems"[unfolded poll_loop.simps[of m dl res w]]
  obtain y w1 where h: "Head m w = Some (y, w1)" using run by (auto split: option.splits)
  have s: "R w w1" "R w (sleep 2000000 w1)"
    using framedD[OF framed_ctrl(1) h] time trans by blast+
  have st: "R w1 w'" if "bind_io (Status m) (\<lambda>st. return_io (f st)) w1 = Some (r, w')" for f
    using that by (rule framedD[where m = "bind_io (Status m) (\<lambda>st. return_io (f st))", rotated]) (intro frame_intros)
  from run h s "1.IH"[OF h HOL.refl] show ?case
    by (auto split: res.splits if_splits dest: st intro: trans)
qed

lemma framed_loops [frame_intros]:
  "framed R (WaitHead m q t)" "framed R (\<lambda>w. poll_loop m (w_clock w + t) res w)"
  by (auto intro!: framedI simp: WaitHead_def dest: wait_loop_respects poll_loop_respects)

text \<open>The steps of the driver.\<close>

lemma lifted_on_world [frame_intros]: "framed R m \<Longrightarrow> framed (lifted R) (on_world m)"
  by (rule framedI) (auto simp: on_world_def lifted_def dest: framedD split: option.splits)

lemma lifted_res [frame_intros]:
  "framed (lifted R) (set_res f)" "framed (lifted R) (get_res g)" "framed (lifted R) (trace fmt args)"
  by (auto simp: framed_def lifted_def refl trace_def)

lemma lifted_submit [frame_intros]: "framed (lifted R) (driver_submit cmd)"
  using framedD[OF framed_Submit] by (auto simp: framed_def driver_submit_def lifted_def split: option.splits res.splits)

lemma lifted_wait [frame_intros]: "framed (lifted R) (driver_wait q)"
  unfolding driver_wait_def[abs_def] by (rule framed_at) (intro frame_intros)

lemma lifted_reply [frame_intros]:
  "framed (lifted R) (submitWithReply name want cmd)" "framed (lifted R) (submitNoReply name cmd)"
  unfolding submitWithReply_def[abs_def] submitNoReply_def[abs_def] Let_def by (rule framed_at, intro frame_intros)+

lemma lifted_object_steps: "list_all (framed (lifted R)) (object_steps cc width height)"
  unfolding object_steps_def walk_defs Let_def list.pred_inject by (intro conjI frame_intros TrueI) simp

lemma lifted_record_steps: "list_all (framed (lifted R)) (record_steps cc clear)"
  unfolding record_steps_def walk_defs Let_def list.pred_inject by (intro conjI frame_intros TrueI) simp

lemma lifted_fields [frame_intros]:
  "framed (lifted R) (\<lambda>s. Some (Ok (), s\<lparr>cs_ring := m\<rparr>))" "framed (lifted R) (\<lambda>s. Some (Ok (f s), s))"
  "framed (lifted R) (\<lambda>s. Some (Ok (), s\<lparr>cs_replyMem := h, cs_replySize := n\<rparr>))"
  by (auto simp: framed_def lifted_def refl)

lemma lifted_readback_loop [frame_intros]: "framed (lifted R) (readback_loop mem expect n b i)"
proof (induction n arbitrary: b i)
  case (Suc n)
  show ?case unfolding readback_loop.simps by (intro frame_intros Suc)
qed (simp add: frame_intros)

end

lemma framed_run_steps:
  assumes "frame R" "list_all (framed R) ms"
  shows "framed R (run_steps ms)"
  using assms(2) by (induction ms) (auto intro: frame.framed_try[OF assms(1)] frame.framed_pure[OF assms(1)])

end
