(* ===== verification/Clear_Texels.thy ===== *)
theory Clear_Texels
  imports Driver_Frames
begin

text \<open>
  What the readback of the clear-image driver says of the device memory: the third mapping the
  driver makes is the device memory, every texel of its first row that fits is compared, and a
  verdict without error means that those bytes of the mapping are the encoded clear colour.
\<close>

section \<open>The mappings of a run\<close>

definition stable :: "nat \<Rightarrow> world \<Rightarrow> world \<Rightarrow> bool" where
  "stable p w w' \<longleftrightarrow> same_shape w w' \<and>
     (list_all (leaves_alone p) (w_host w) \<longrightarrow> list_all (leaves_alone p) (w_host w'))"

interpretation stable: world_frame "stable p" for p
proof unfold_locales
  show "stable p w (host_step w)" for w
    using host_step_frame[of p w] by (simp add: stable_def untouched_def)
  show "stable p w (w\<lparr>w_maps := (w_maps w)[h := x]\<rparr>)" if "length x = length (w_maps w ! h)" for w h x
    using same_shape_update[OF that] by (simp add: stable_def)
qed (auto simp: stable_def intro: same_shape_trans)

lemma stable_maps: "stable p w w' \<Longrightarrow> length (w_maps w') = length (w_maps w)"
  unfolding stable_def same_shape_def by (metis length_map)

text \<open>How many mappings there are and what the host has yet to do.\<close>

definition layout :: "cstate \<Rightarrow> nat \<times> host_act list" where
  "layout s = (length (w_maps (cs_world s)), w_host (cs_world s))"

lemma defer_call_OkE:
  assumes "defer_call d s = Some (Ok x, s')"
  obtains "s' = s\<lparr>cs_defers := d # cs_defers s\<rparr>"
  using assms by (simp add: defer_call_def)

lemmas world_elims = try_with_OkE prod_runE get_res_OkE set_res_OkE guard_failE trace_OkE on_world_OkE defer_call_OkE

lemma layout_world:
  "on_world (on_sock m) s = Some (r, s') \<Longrightarrow> layout s' = layout s"
  "on_world (DialRaw path) s = Some (Ok fd, s') \<Longrightarrow> layout s' = layout s"
  "on_world (fill_map h v) s = Some (Ok u, s') \<Longrightarrow> layout s' = layout s"
  "on_world (map_blob fd' n) s = Some (Ok mem, s') \<Longrightarrow> layout s' = (Suc (fst (layout s)), snd (layout s))"
  by (auto simp: on_world_def on_sock_def fill_map_def layout_def dest!: DialRaw_Ok elim!: map_blob_run split: option.splits)

lemma layout_update [simp]:
  "layout (s\<lparr>cs_res := r\<rparr>) = layout s" "layout (s\<lparr>cs_defers := ds\<rparr>) = layout s" "layout (s\<lparr>cs_ring := m\<rparr>) = layout s"
  "layout (s\<lparr>cs_replyMem := h, cs_replySize := n\<rparr>) = layout s"
  by (simp_all add: layout_def)

lemmas layout_elims = try_with_OkE prod_runE set_res_OkE guard_failE defer_call_OkE

lemma layout_bring_up:
  assumes "clear_bring_up path s = Some (Ok u, s')"
  shows "layout s' = layout s"
  using assms unfolding clear_bring_up_def Let_def
proof (elim layout_elims, goal_cases)
  case (1 x1 s1 x2 s2 x3 s3 x4 s4 x5 s5 x6 s6 x7 s7 capset valid x8 s8 x9 s9)
  have "s' = s9" using 1(12) by simp
  then show ?case
    using layout_world(2)[OF 1(1)] layout_world(1)[OF 1(2)] layout_world(1)[OF 1(5)] layout_world(1)[OF 1(8)]
      layout_world(1)[OF 1(11)] by (simp add: 1(3,6,13,14))
qed

lemma layout_blob:
  assumes "clear_blob f g sz upd s = Some (Ok x, s')"
  shows "layout s' = (Suc (fst (layout s)), snd (layout s))"
  using assms unfolding clear_blob_def
proof (elim layout_elims, goal_cases)
  case (1 x1 s1 resID fd x2 s2 x3 s3)
  show ?case using layout_world(1)[OF 1(1)] layout_world(4)[OF 1(3)] 1(4) by (simp add: 1(5))
qed

lemma layout_ring_setup:
  assumes "clear_ring_setup bs s = Some (Ok u, s')"
  shows "layout s' = (fst (layout s) + 2, snd (layout s))"
  using assms unfolding clear_ring_setup_def
  by (elim layout_elims) (drule layout_blob, drule layout_blob, drule layout_world(3), drule layout_world(1), clarsimp)

section \<open>The readback\<close>

lemma load_texel:
  assumes "load_slice p (of_nat i * 4) (of_nat i * 4 + 4) w = Some (Ok t, w')"
    "4 * i + 4 \<le> length (w_maps (host_step w) ! p)" "length (w_maps (host_step w) ! p) < 2 ^ 63"
  shows "w' = host_step w" "t = take 4 (drop (4 * i) (w_maps (host_step w) ! p))"
proof -
  have e: "(of_nat i * 4 :: goint) = of_nat (4 * i)" "(of_nat i * 4 + 4 :: goint) = of_nat (4 * i + 4)" by simp_all
  have "load_slice p (of_nat i * 4) (of_nat i * 4 + 4) w =
      Some (Ok (take (4 * i + 4 - 4 * i) (drop (4 * i) (w_maps (host_step w) ! p))), host_step w)"
    by (subst e(2), subst e(1), rule load_slice_nat[OF assms(3) _ assms(2)]) simp
  with assms(1) show "w' = host_step w" "t = take 4 (drop (4 * i) (w_maps (host_step w) ! p))" by auto
qed

text \<open>A texel that can be loaded lies in the mapping.\<close>

lemma load_texel_bound:
  assumes "load_slice p (of_nat i * 4) (of_nat i * 4 + 4) w = Some (Ok t, w')"
    "4 * i \<le> length (w_maps (host_step w) ! p)" "length (w_maps (host_step w) ! p) < 2 ^ 63"
  shows "4 * i + 4 \<le> length (w_maps (host_step w) ! p)"
proof -
  let ?hi = "of_nat (4 * i + 4) :: goint"
  have "slice_ok (of_nat i * 4) (of_nat i * 4 + 4) (w_maps (host_step w) ! p)"
    using assms(1) by (auto simp: load_slice_def Let_def split: if_splits)
  then have "0 \<le> sint ?hi" "sint ?hi \<le> int (length (w_maps (host_step w) ! p))"
    by (auto simp: slice_ok_def ac_simps)
  then obtain b where b: "?hi = of_nat b" "b < 2 ^ 63" "b \<le> length (w_maps (host_step w) ! p)"
    by (metis goint_nonneg of_nat_le_iff)
  have "4 * i + 4 = unat ?hi" using assms(2,3) by (intro unat_of_nat_u64[symmetric]) simp
  also have "unat ?hi = b" unfolding b(1) using b(2) by (intro unat_of_nat_u64) simp
  finally show ?thesis using b(3) by simp
qed

lemma readback_loop_texels:
  assumes "readback_loop p e n b i s = Some (Ok True, s')" "p < length (w_maps (cs_world s))"
    "4 * i \<le> length (w_maps (cs_world s) ! p)" "length (w_maps (cs_world s) ! p) < 2 ^ 63"
    "list_all (leaves_alone p) (w_host (cs_world s))"
  shows "w_maps (cs_world s') ! p = w_maps (cs_world s) ! p \<and>
    (\<forall>j<n. take 4 (drop (4 * (i + j)) (w_maps (cs_world s) ! p)) = e)"
  using assms
proof (induction n arbitrary: b i s)
  case (Suc n)
  let ?w = "cs_world s"
  note h = host_step_frame[OF Suc.prems(5)]
  then have same: "w_maps (host_step ?w) ! p = w_maps ?w ! p" and lv: "list_all (leaves_alone p) (w_host (host_step ?w))"
    using Suc.prems(5) by (simp_all add: untouched_def)
  from Suc.prems(1) obtain t s1 where ld: "load_slice p (of_nat i * 4) (of_nat i * 4 + 4) ?w = Some (Ok t, cs_world s1)"
      and k: "(if t = e
        then bind_io (set_res (\<lambda>r. r\<lparr>TexelsRed := TexelsRed r + 1\<rparr>)) (\<lambda>_. readback_loop p e n b (i + 1))
        else readback_loop p e n False (i + 1)) s1 = Some (Ok True, s')"
    unfolding readback_loop.simps
    by (elim world_elims) (rule that[of _ "s\<lparr>cs_world := _, cs_res := _\<rparr>"], simp_all)
  have len: "length (w_maps (host_step ?w) ! p) < 2 ^ 63" using Suc.prems(4) by (simp add: same)
  have fit: "4 * i + 4 \<le> length (w_maps (host_step ?w) ! p)"
    using load_texel_bound[OF ld _ len] Suc.prems(3) by (simp add: same)
  note t = load_texel[OF ld fit len, unfolded same]
  have te: "t = e" using k readback_loop_run[of p e n False "i + 1" s1 True s'] by (auto split: if_splits)
  with k obtain s2 where r: "readback_loop p e n b (i + 1) s2 = Some (Ok True, s')" "cs_world s2 = host_step ?w"
    using t(1) by (auto elim!: world_elims)
  have "p < length (w_maps (host_step ?w))" using same_shapeD(1)[OF host_step_shape Suc.prems(2)] .
  then have ih: "w_maps (cs_world s') ! p = w_maps ?w ! p" "\<forall>j<n. take 4 (drop (4 * (i + 1 + j)) (w_maps ?w ! p)) = e"
    using Suc.IH[OF r(1)] fit Suc.prems(4) lv by (simp_all add: r(2) same)
  have "take 4 (drop (4 * (i + j)) (w_maps ?w ! p)) = e" if "j < Suc n" for j
    using that ih(2) t(2) te by (cases j) (auto dest!: spec[of _ "j - 1"])
  with ih(1) show ?case by simp
qed simp

lemma step_readback_texels:
  assumes "step_readback fma width height clear s = Some (Ok u, s')" "TexelsChecked (cs_res s) = 0"
  defines "p \<equiv> length (w_maps (cs_world s))"
  shows "p < length (w_maps (cs_world s')) \<and>
    int (TexelsChecked (cs_res s')) = (if int (length (w_maps (cs_world s') ! p)) < sint (width * 4)
      then int (length (w_maps (cs_world s') ! p)) div 4 else sint width) \<and>
    (list_all (leaves_alone p) (w_host (cs_world s)) \<longrightarrow>
      (\<forall>i<TexelsChecked (cs_res s'). take 4 (drop (4 * i) (w_maps (cs_world s') ! p)) = map (enc_unorm fma) clear))"
  using assms(1) unfolding step_readback_def Let_def
proof (elim world_elims, goal_cases)
  case (1 sz s0 x1 s1 blob fd x2 s2 mem s3 x3 s4 x4 s5 first s6 x5 s7 len s8 red s9 x6 s10 args s11 x7 s12 w1 w2 w3)
  obtain b where b: "0 < sint sz" "mem = length (w_maps (cs_world s2))" "w_maps w2 = w_maps (cs_world s2) @ [b]"
      "length b = unat sz" "w_host w2 = w_host (cs_world s2)"
    using 1(17) by (rule map_blob_run)
  have s2: "w_maps (cs_world s2) = w_maps (cs_world s)" "w_host (cs_world s2) = w_host (cs_world s)"
    using 1(15) by (auto simp: 1(8) 1(16) 1(5) on_sock_def split: option.splits)
  have p: "mem = p" by (simp add: b(2) s2 p_def)
  have res: "TexelsChecked (cs_res s8) = 0" using 1(2) assms(2) by (auto simp: 1(10) 1(20) 1(9) 1(21) 1(18) 1(8) 1(16) 1(5))
  have w: "cs_world s8 = host_step w2" using 1(2) 1(19) by (auto simp: 1(10) 1(20) 1(9) 1(21) 1(18) load_slice_def Let_def split: if_splits)
  obtain k where k: "sz = of_nat k" "k < 2 ^ 63" "sint sz = int k" using b(1) by (auto intro: goint_nonneg[of sz])
  then have k': "unat sz = k" by (simp add: unat_of_nat_u64)
  let ?n = "nat (if sint len < sint (width * 4) then sint len div 4 else sint width)"
  have maps: "p < length (w_maps w2)" "w_maps w2 ! p = b" by (simp_all add: b(3) s2 p_def nth_append)
  have "p < length (w_maps (cs_world s8))" "length (w_maps (cs_world s8) ! p) = k"
    using same_shapeD[OF host_step_shape maps(1)] by (simp_all add: w maps(2) b(4) k')
  note s8 = this
  have len: "sint len = int k" using 1(2) s8(2) k(2) by (auto simp: map_len_def p)
  obtain c where c: "cs_res s9 = (cs_res s8)\<lparr>TexelsChecked := TexelsChecked (cs_res s8) + ?n, TexelsRed := TexelsRed (cs_res s8) + c\<rparr>"
    and red: "red \<longleftrightarrow> 0 < (if sint len < sint (width * 4) then sint len div 4 else sint width) \<and> c = ?n"
    using readback_loop_run[OF 1(3)] by blast
  have "framed (lifted (stable p)) (readback_loop mem (map (enc_unorm fma) clear) ?n (0 < (if sint len < sint (width * 4) then sint len div 4 else sint width)) 0)"
    by (intro frame_intros)
  from framedD[OF this 1(3)] have st: "same_shape (cs_world s8) (cs_world s9)" by (simp add: lifted_def stable_def)
  have "s' = s12" using 1(13) by simp
  then have w': "cs_world s' = cs_world s9" "TexelsChecked (cs_res s') = ?n"
    by (simp_all add: 1(14) 1(7) 1(11) c res)
  have p': "p < length (w_maps (cs_world s9))" "length (w_maps (cs_world s9) ! p) = k"
    using same_shapeD[OF st s8(1)] s8(2) by simp_all
  have texels: "\<forall>i<?n. take 4 (drop (4 * i) (w_maps (cs_world s9) ! p)) = map (enc_unorm fma) clear"
    if "list_all (leaves_alone p) (w_host (cs_world s))"
  proof -
    have "list_all (leaves_alone p) (w_host (cs_world s8))"
      using host_step_frame[of p w2] that by (simp add: w b(5) s2(2) untouched_def)
    note lv = this
    have red': "red = True" using 1(12) by blast
    note loop = 1(3)[unfolded p red']
    have "w_maps (cs_world s9) ! p = w_maps (cs_world s8) ! p \<and>
        (\<forall>j<?n. take 4 (drop (4 * (0 + j)) (w_maps (cs_world s8) ! p)) = map (enc_unorm fma) clear)"
      by (rule readback_loop_texels[OF loop s8(1) _ _ lv]) (use s8(2) k(2) in simp_all)
    then show ?thesis by (simp only: add_0) simp
  qed
  have pos: "0 \<le> (if sint len < sint (width * 4) then sint len div 4 else sint width)" using red 1(12) by (simp split: if_splits)
  show ?case using p' texels pos by (simp add: w' len del: nat_eq_iff)
qed

section \<open>A run without error\<close>

lemma run_defers_maps: "w_maps (run_defers ds w) = w_maps w"
proof (induction ds arbitrary: w)
  case (Cons d ds)
  have "w_maps w' = w_maps w" if "run_deferred d w = Some (z, w')" for z w'
    using that by (cases d) (auto simp: RawConn_Close_def dest!: sys_close_keeps sys_munmap_keeps)
  then have "w_maps (case run_deferred d w of None \<Rightarrow> w | Some (_, w') \<Rightarrow> w') = w_maps w"
    by (auto split: option.split)
  with Cons.IH show ?case by (simp add: run_defers_def)
qed (simp add: run_defers_def)

lemma keeps_count:
  "keeps TexelsChecked (clear_bring_up path)" "keeps TexelsChecked (clear_ring_setup bufferSize)"
  "list_all (keeps TexelsChecked) (object_steps cc width height)" "list_all (keeps TexelsChecked) (record_steps cc clear)"
proof -
  show "keeps TexelsChecked (clear_bring_up path)"
    unfolding clear_bring_up_def Let_def by (intro keeps_intros) simp_all
  show "keeps TexelsChecked (clear_ring_setup bufferSize)"
    unfolding clear_ring_setup_def by (intro keeps_intros) (simp_all add: keeps_def)
  show "list_all (keeps TexelsChecked) (object_steps cc width height)" "list_all (keeps TexelsChecked) (record_steps cc clear)"
    unfolding object_steps_def record_steps_def walk_defs Let_def list.pred_inject
    by (intro conjI keeps_intros TrueI, simp_all)+
qed

lemma run_walk:
  assumes "run_steps (a # b # ms @ [c]) s = Some (Ok u, s')"
  obtains u1 s1 u2 s2 u3 s3 where "a s = Some (Ok u1, s1)" "b s1 = Some (Ok u2, s2)"
    "run_steps ms s2 = Some (Ok u3, s3)" "c s3 = Some (Ok (), s')"
  using assms by (fastforce elim!: try_with_OkE dest!: run_steps_append)

lemma clear_texels:
  assumes "VenusClearImage cc fma path bufferSize width height clear timeout w = Some (Ok (r, None), w')"
  defines "p \<equiv> length (w_maps w) + 2"
  shows "p < length (w_maps w') \<and>
    int (TexelsChecked r) = (if int (length (w_maps w' ! p)) < sint (width * 4)
      then int (length (w_maps w' ! p)) div 4 else sint width) \<and>
    (list_all (leaves_alone p) (w_host w) \<longrightarrow>
      (\<forall>i<TexelsChecked r. take 4 (drop (4 * i) (w_maps w' ! p)) = map (enc_unorm fma) clear))"
proof -
  let ?walk = "object_steps cc width height @ record_steps cc clear"
  from assms(1) obtain s where run: "run_steps (clear_bring_up path # clear_ring_setup bufferSize
      # clear_steps cc fma width height clear) (clear_start clear timeout w) = Some (Ok (), s)"
      and r: "r = cs_res s" and w': "w_maps w' = w_maps (cs_world s)"
    by (auto simp: VenusClearImage_def run_defers_maps split: option.splits res.splits)
  then obtain u1 s1 u2 s2 u3 s3 where
      a: "clear_bring_up path (clear_start clear timeout w) = Some (Ok u1, s1)" "clear_ring_setup bufferSize s1 = Some (Ok u2, s2)"
      and b: "run_steps ?walk s2 = Some (Ok u3, s3)" and c: "step_readback fma width height clear s3 = Some (Ok (), s)"
    unfolding clear_steps_split by - (erule run_walk, rule that)
  have "layout s2 = (length (w_maps w) + 2, w_host w)"
    using layout_bring_up[OF a(1)] layout_ring_setup[OF a(2)] by (simp add: layout_def clear_start_def)
  then have s2: "length (w_maps (cs_world s2)) = p" "w_host (cs_world s2) = w_host w" by (simp_all add: layout_def p_def)
  have "framed (lifted (stable p)) (run_steps ?walk)"
    by (rule framed_run_steps[OF stable.lifted.frame_axioms]) (simp add: stable.lifted_object_steps stable.lifted_record_steps)
  from framedD[OF this b] have "stable p (cs_world s2) (cs_world s3)" by (simp add: lifted_def)
  note st = this
  have s3: "length (w_maps (cs_world s3)) = p"
      "list_all (leaves_alone p) (w_host w) \<Longrightarrow> list_all (leaves_alone p) (w_host (cs_world s3))"
    using stable_maps[OF st] st s2 by (simp_all add: stable_def)
  have "keeps TexelsChecked (run_steps ?walk)"
    by (rule framed_run_steps[OF view.frame_axioms]) (simp add: keeps_count)
  from keepsD[OF this b] keepsD[OF keeps_count(2) a(2)] keepsD[OF keeps_count(1) a(1)]
  have "TexelsChecked (cs_res s3) = 0" by (simp add: clear_start_def clear_zero_def)
  from step_readback_texels[OF c this] show ?thesis using s3 by (simp add: r w')
qed

end
