(* ===== verification/Clear_Demo.thy ===== *)
theory Clear_Demo
  imports Clear_Texels
begin

text \<open>
  A concrete run of the clear-image driver against a host that serves every command: the
  decoders of \<open>demo_cc\<close> accept, the host's script answers each command with its own type, and the
  device memory holds the clear colour. It shows that the success the properties speak about is
  reachable.
\<close>

section \<open>The host and the encoders\<close>

definition demo_cc :: clearcs where
  "demo_cc = \<lparr>EncodeCreateInstance = \<lambda>_ _ _. [], DecodeCreateInstanceReply = \<lambda>_. (0, 1, True),
   EncodeEnumeratePhysicalDevices = \<lambda>_ _ _ _. [], DecodeEnumeratePhysicalDevicesReply = \<lambda>_. (0, 1, True, [2]),
   EncodeGetPhysicalDeviceMemoryProperties = \<lambda>_ _. [],
   DecodeGetPhysicalDeviceMemoryPropertiesReply = \<lambda>_. (\<lparr>mp_MemoryTypeCount = 2, mp_MemoryTypes = [1, 7]\<rparr>, True),
   EncodeGetPhysicalDeviceQueueFamilyProperties = \<lambda>_ _ _. [],
   DecodeGetPhysicalDeviceQueueFamilyPropertiesReply = \<lambda>_. (1, True),
   EncodeCreateDevice = \<lambda>_ _ _ _. [], DecodeCreateDeviceReply = \<lambda>_. (0, 3, True),
   EncodeCreateImage = \<lambda>_ _ _ _. [], DecodeCreateImageReply = \<lambda>_. (0, 4, True),
   EncodeGetImageMemoryRequirements = \<lambda>_ _ _. [],
   DecodeGetImageMemoryRequirementsReply = \<lambda>_. (\<lparr>rq_Size = 8, rq_Alignment = 4, rq_MemoryTypeBits = 2\<rparr>, True),
   EncodeAllocateMemory = \<lambda>_ _ _ _ _. [], DecodeAllocateMemoryReply = \<lambda>_. (0, 5, True),
   EncodeBindImageMemory = \<lambda>_ _ _ _ _. [], DecodeBindImageMemoryReply = \<lambda>_. 0,
   EncodeCreateCommandPool = \<lambda>_ _ _ _. [], DecodeCreateCommandPoolReply = \<lambda>_. (0, 6, True),
   EncodeAllocateCommandBuffers = \<lambda>_ _ _ _ _ _. [], DecodeAllocateCommandBuffersReply = \<lambda>_ _. (0, [7]),
   EncodeBeginCommandBuffer = \<lambda>_ _ _. [], DecodeBeginCommandBufferReply = \<lambda>_. 0,
   EncodeCmdPipelineBarrier = \<lambda>_ _ _ _ _ _. [], EncodeCmdClearColorImage = \<lambda>_ _ _ _ _ _. [],
   EncodeEndCommandBuffer = \<lambda>_ _. [], DecodeEndCommandBufferReply = \<lambda>_. 0,
   EncodeCreateFence = \<lambda>_ _ _. [], DecodeCreateFenceReply = \<lambda>_. (0, 8, True),
   EncodeQueueSubmit = \<lambda>_ _ _ _. [], DecodeQueueSubmitReply = \<lambda>_. (0, True),
   EncodeWaitForFences = \<lambda>_ _ _ _ _. [], DecodeWaitForFencesReply = \<lambda>_. 0\<rparr>"

text \<open>An answer is three host actions: the stores of the head word and of a reply that begins with the command type and
  carries a present handle, then nothing.\<close>

definition stores_at :: "nat \<Rightarrow> bytes \<Rightarrow> (nat \<times> nat \<times> byte) list" where
  "stores_at h b = map (\<lambda>(i, v). (h, i, v)) (enumerate 0 b)"

definition head_stores :: "(nat \<times> nat \<times> byte) list" where
  "head_stores = stores_at 0 (replicate 4 255)"

definition answer :: "u32 \<Rightarrow> host_act list" where
  "answer c = [HostAct (head_stores @ stores_at 1 (le32 c @ le64 1 @ le64 9)) 1, HostAct [] 1, HostAct [] 1]"

text \<open>The socket before the bring-up, and after the bring-up, the ring blob, the ring creation and
  the reply blob.\<close>

definition after :: "('s, 'a) io \<Rightarrow> 's \<Rightarrow> 's" where "after m k = snd (the (m k))"

definition returns :: "('s, 'a) io \<Rightarrow> 's \<Rightarrow> ('a \<Rightarrow> bool) \<Rightarrow> bool" where
  "returns m k P = (case m k of Some (Ok x, k') \<Rightarrow> P x | _ \<Rightarrow> False)"

lemma returns_after: "returns m k P \<Longrightarrow> \<exists>x. m k = Some (Ok x, after m k) \<and> P x"
  by (auto simp: returns_def after_def split: option.splits res.splits)

definition demo_script :: "host_act list" where
  "demo_script = answer ctCreateInstance @ answer ctEnumeratePhysDevices @ answer ctEnumeratePhysDevices @
     answer ctGetPhysDevMemoryProps @ answer ctGetPhysDevQueueFamily @ answer ctCreateDevice @
     answer ctGetDeviceQueue2 @ answer ctCreateImage @ answer ctGetImageMemoryReqs @ answer ctAllocateMemory @
     answer ctBindImageMemory @ answer ctCreateCommandPool @ answer ctAllocateCommandBuffers @
     answer ctBeginCommandBuffer @ (HostAct head_stores 1 # HostAct head_stores 1 # answer ctEndCommandBuffer @
     answer ctCreateFence @ answer ctQueueSubmit @ answer ctWaitForFences @ [])"

definition clear_world :: world where
  "clear_world = \<lparr>w_sock = \<lparr>rd_script =
       [RdData (le32 0 @ le32 10 @ le32 1 @ le32 11 @ le32 3),
        RdData (le32 2 @ le32 VcmdGetParam @ le32 1 @ le32 64),
        RdData (le32 2 @ le32 VcmdGetCapset @ le32 1 @ [1, 2, 3, 4]),
        RdData (le32 1 @ le32 VcmdResourceCreateBlob @ le32 5), RdRights [0] (Cmsgs [Some [7]]),
        RdData (le32 1 @ le32 VcmdResourceCreateBlob @ le32 6), RdRights [0] (Cmsgs [Some [8]]),
        RdData (le32 1 @ le32 VcmdResourceCreateBlob @ le32 9), RdRights [0] (Cmsgs [Some [9]])],
       wr_script = [], tx = [], open_fds = [0, 1, 2]\<rparr>, w_dial = (None, None),
     w_mmap = [Inr [], Inr [], Inr [255, 0, 0, 255, 255, 0, 0, 255]], w_maps = [], w_live = [],
     w_host = demo_script, w_clock = 0\<rparr>"

definition demo_bring_up :: "(cstate, unit) io" where "demo_bring_up = clear_bring_up ''/tmp/.virgl_test''"
definition demo_start :: cstate where "demo_start = clear_start [1, 0, 0, 1] 1000 clear_world"
definition demo_up :: cstate where "demo_up = after demo_bring_up demo_start"
definition demo_sock1 :: sock where "demo_sock1 = w_sock (cs_world demo_up)"
definition demo_blob :: "u64 \<Rightarrow> u64 \<Rightarrow> (sock, u32 \<times> nat) io" where
  "demo_blob = ResourceCreateBlob BlobTypeHost3D BlobFlagMappable"
definition closed :: "nat \<Rightarrow> sock \<Rightarrow> sock" where "closed fd k = k\<lparr>open_fds := remove1 fd (open_fds k)\<rparr>"
definition demo_sock2 :: sock where "demo_sock2 = closed 7 (after (demo_blob 320 0) demo_sock1)"
definition demo_create_ring :: "(sock, unit) io" where
  "demo_create_ring = SubmitCmd2 (New rawconn_rw) \<lparr>sb_Flags = SubmitCmd2FlagRingIdx, sb_RingIdx = 0, sb_Syncs = [],
     sb_CmdData = EncodeVkCreateRingMESACS 0x1000 (ringCreateInfoForBlob 5 128 0 ringIdleTimeoutNS)\<rparr>"
definition demo_sock3 :: sock where "demo_sock3 = after demo_create_ring demo_sock2"
definition demo_sock4 :: sock where "demo_sock4 = closed 8 (after (demo_blob 4096 0) demo_sock3)"

lemma demo_up_runs: "returns demo_bring_up demo_start (\<lambda>_. True)"
  by code_simp

lemma demo_ring_blob: "returns (demo_blob 320 0) demo_sock1 (\<lambda>x. x = (5, 7))"
  by code_simp

lemma demo_ring_open: "7 \<in> set (open_fds (after (demo_blob 320 0) demo_sock1))"
  by code_simp

lemma demo_ring_created: "returns demo_create_ring demo_sock2 (\<lambda>_. True)"
  by code_simp

lemma demo_reply_blob: "returns (demo_blob 4096 0) demo_sock3 (\<lambda>x. x = (6, 8))"
  by code_simp

lemma demo_reply_open: "8 \<in> set (open_fds (after (demo_blob 4096 0) demo_sock3))"
  by code_simp

lemma demo_memory_blob: "returns (demo_blob 8 idMemory) demo_sock4 (\<lambda>x. snd x = 9)"
  by code_simp

lemma demo_memory_open: "9 \<in> set (open_fds (after (demo_blob 8 idMemory) demo_sock4))"
  by code_simp

lemma map_blob_runs:
  assumes "fd \<in> set (open_fds (w_sock w))" "0 < sint n" "w_mmap w = Inr b # ms"
  shows "map_blob fd n w = Some (Ok (length (w_maps w)), w\<lparr>w_sock := closed fd (w_sock w), w_mmap := ms,
    w_maps := w_maps w @ [take (unat n) (b @ replicate (unat n) 0)], w_live := length (w_maps w) # w_live w\<rparr>)"
  using assms by (simp add: map_blob_def afterwards_def sys_mmap_def sys_close_def closed_def)

definition answering :: "host_act list \<Rightarrow> cstate \<Rightarrow> bool" where
  "answering hs s \<longleftrightarrow> wf_ring (cs_ring s) (cs_world s) \<and> mr_mem (cs_ring s) = 0 \<and> mr_bufferSize (cs_ring s) = 128 \<and>
     cs_replyMem s = 1 \<and> cs_replySize s = 4096 \<and> length (w_maps (cs_world s)) = 2 \<and>
     length (w_maps (cs_world s) ! 1) = 4096 \<and>
     w_host (cs_world s) = hs \<and>
     w_sock (cs_world s) = demo_sock4 \<and> w_mmap (cs_world s) = [Inr [255, 0, 0, 255, 255, 0, 0, 255]]"

lemma answering_res [simp]: "answering hs (s\<lparr>cs_res := r\<rparr>) = answering hs s"
  by (simp add: answering_def)

lemma fold_stores:
  assumes "h < length ms" "k + length b \<le> length (ms ! h)"
  shows "fold host_store (map (\<lambda>(i, v). (h, i, v)) (enumerate k b)) ms = ms[h := blit k b (ms ! h)]"
  using assms
proof (induction b arbitrary: k ms)
  case (Cons v b)
  have "blit (Suc k) b ((ms ! h)[k := v]) = blit k (v # b) (ms ! h)"
    using Cons.prems(2) by (intro nth_equalityI) (auto simp: nth_blit nth_list_update)
  then show ?case using Cons.prems Cons.IH[of "ms[h := (ms ! h)[k := v]]" "Suc k"] by simp
qed simp

lemma set_reply_length [simp]: "length (set_reply s) = 36"
  by (simp add: set_reply_def padDword_replicate pad_len_def set_reply_bytes)

lemma answering_ready: "answering hs s \<Longrightarrow> length (padDword cmd) \<le> 128 \<Longrightarrow> ready cmd s"
  by (simp add: answering_def ready_def)

lemma host_head_stores:
  assumes "4 \<le> length mem"
  shows "fold host_store head_stores (mem # rest) = blit 0 (replicate 4 255) mem # rest"
  unfolding head_stores_def stores_at_def using assms by (subst fold_stores) auto

lemma answer_stores:
  assumes "4 \<le> length mem" "length win = 4096"
  shows "fold host_store (head_stores @ stores_at 1 (le32 c @ le64 1 @ le64 9)) [mem, win] =
    [blit 0 (replicate 4 255) mem, blit 0 (le32 c @ le64 1 @ le64 9) win]"
  using assms unfolding fold_append comp_def host_head_stores[OF assms(1)] stores_at_def
  by (subst fold_stores) auto

lemmas answer_stores' = answer_stores[unfolded fold_append comp_def One_nat_def]

lemma posted_maps:
  assumes "answering hs s" "length (padDword cmd) \<le> 128"
  shows "\<exists>mem. w_maps (posted cmd s) = [mem, replicate 4096 0xCC] \<and> 4 \<le> length mem \<and>
    w_host (posted cmd s) = hs \<and> w_sock (posted cmd s) = w_sock (cs_world s) \<and> w_mmap (posted cmd s) = w_mmap (cs_world s)"
proof -
  from assms(1) obtain mem rest where maps: "w_maps (cs_world s) = [mem, rest]" "length rest = 4096"
    by (auto simp: answering_def length_Suc_conv numeral_2_eq_2)
  have fit: "192 + 128 \<le> length mem" using assms(1) maps by (auto simp: answering_def wf_ring_def)
  then have "4 \<le> length (ring_mem 128 (mr_cur (cs_ring s) + 36) (padDword cmd) (ring_mem 128 (mr_cur (cs_ring s)) (set_reply s) mem))"
    using assms(2) by (simp add: ring_mem_length)
  then show ?thesis using assms(1) maps by (simp add: posted_def Let_def answering_def)
qed

lemma served_world:
  assumes "answering (answer c @ hs) s" "length (padDword cmd) \<le> 128"
  shows "\<exists>mem. host_step (host_step (host_step (posted cmd s))) = (posted cmd s)\<lparr>w_host := hs,
      w_maps := [mem, le32 c @ le64 1 @ le64 9 @ replicate 4076 0xCC], w_clock := w_clock (posted cmd s) + 3\<rparr>"
    and "serves c cmd s"
proof -
  obtain mem where mem: "w_maps (posted cmd s) = [mem, replicate 4096 0xCC]" "4 \<le> length mem"
      "w_host (posted cmd s) = answer c @ hs"
    using posted_maps[OF assms] by blast
  let ?reply = "le32 c @ le64 1 @ le64 9 @ replicate 4076 (0xCC::byte)"
  let ?w = "posted cmd s" and ?mem = "blit 0 (replicate 4 255) mem"
  have b: "blit 0 (le32 c @ le64 1 @ le64 9) (replicate 4096 0xCC) = ?reply" by (simp add: blit_def)
  have w1: "host_step ?w = ?w\<lparr>w_host := [HostAct [] 1, HostAct [] 1] @ hs, w_maps := [?mem, ?reply], w_clock := w_clock ?w + 1\<rparr>"
    using mem(3) b by (simp add: host_step_def answer_def mem(1) answer_stores'[OF mem(2)])
  show "\<exists>mem. host_step (host_step (host_step ?w)) = ?w\<lparr>w_host := hs, w_maps := [mem, ?reply], w_clock := w_clock ?w + 3\<rparr>"
    unfolding w1 by (intro exI[of _ ?mem]) (simp add: host_step_def)
  have p: "cs_replyMem s = 1" "mr_mem (cs_ring s) = 0" using assms(1) by (simp_all add: answering_def)
  have top: "get32 (replicate 4 255) = - 1" by code_simp
  show "serves c cmd s"
    unfolding serves_def Let_def w1 ctrl_word_def p using mem(2) top by (simp add: host_step_def blit_def)
qed

lemma answered:
  assumes "answering (answer c @ hs) s" "length (padDword cmd) \<le> 128"
  shows "\<exists>s' t. submitWithReply name c cmd s = Some (Ok (le32 c @ le64 1 @ le64 9 @ replicate 4076 0xCC), s') \<and>
    answering hs s' \<and> cs_res s' = (cs_res s)\<lparr>Trace := t\<rparr>"
proof -
  let ?reply = "le32 c @ le64 1 @ le64 9 @ replicate 4076 (0xCC::byte)" and ?w = "posted cmd s"
  note rdy = answering_ready[OF assms]
  obtain mem where w3: "host_step (host_step (host_step ?w)) =
      ?w\<lparr>w_host := hs, w_maps := [mem, ?reply], w_clock := w_clock ?w + 3\<rparr>"
    using served_world(1)[OF assms] by blast
  have p: "cs_replyMem s = 1" "w_sock ?w = w_sock (cs_world s)" "w_mmap ?w = w_mmap (cs_world s)"
    using assms(1) by (simp_all add: answering_def posted_def Let_def)
  from reply_served_run[OF rdy served_world(2)[OF assms], of name] obtain t where
    run: "submitWithReply name c cmd s = Some (Ok ?reply, s\<lparr>cs_ring := (cs_ring s)\<lparr>mr_cur := posted_seqno cmd s\<rparr>,
      cs_res := (cs_res s)\<lparr>Trace := t\<rparr>, cs_world := host_step (host_step (host_step ?w))\<rparr>)"
    by (auto simp: w3 p)
  have "wf_ring (cs_ring s) (host_step (host_step (host_step ?w)))"
    using post_run(2)[OF rdy] by (auto intro: wf_ring_poll(1))
  then have "answering hs (s\<lparr>cs_ring := (cs_ring s)\<lparr>mr_cur := posted_seqno cmd s\<rparr>,
      cs_res := (cs_res s)\<lparr>Trace := t\<rparr>, cs_world := host_step (host_step (host_step ?w))\<rparr>)"
    using assms(1) p by (simp add: answering_def w3)
  with run show ?thesis by (intro exI conjI) auto
qed

section \<open>The walk\<close>

definition walk_at :: "host_act list \<Rightarrow> u32 \<Rightarrow> u64 \<Rightarrow> cstate \<Rightarrow> bool" where
  "walk_at hs ti sz s \<longleftrightarrow> answering hs s \<and> MemTypeIndex (cs_res s) = ti \<and> MemReqSize (cs_res s) = sz"

definition leads :: "(cstate \<Rightarrow> bool) \<Rightarrow> (cstate, unit) io \<Rightarrow> (cstate \<Rightarrow> bool) \<Rightarrow> bool" where
  "leads P m Q \<longleftrightarrow> (\<forall>s. P s \<longrightarrow> (\<exists>s'. m s = Some (Ok (), s') \<and> Q s'))"

lemma leads_run: "leads P m Q \<Longrightarrow> leads Q (run_steps ms) R \<Longrightarrow> leads P (run_steps (m # ms)) R"
  unfolding leads_def by fastforce

lemma leads_answer:
  assumes "\<And>s. length (padDword (cmd s)) \<le> 128"
    "\<And>s1 s2 reply t. walk_at (answer c @ hs) ti sz s1 \<Longrightarrow> submitWithReply name c (cmd s1) s1 = Some (Ok reply, s2) \<Longrightarrow>
      reply = le32 c @ le64 1 @ le64 9 @ replicate 4076 0xCC \<Longrightarrow> answering hs s2 \<Longrightarrow> cs_res s2 = (cs_res s1)\<lparr>Trace := t\<rparr> \<Longrightarrow>
      \<exists>s'. m s1 = Some (Ok (), s') \<and> Q s'"
  shows "leads (walk_at (answer c @ hs) ti sz) m Q"
  unfolding leads_def
proof (intro allI impI)
  fix s assume a: "walk_at (answer c @ hs) ti sz s"
  then have "answering (answer c @ hs) s" by (simp add: walk_at_def)
  from answered[OF this assms(1), of name] obtain s2 t where
      "submitWithReply name c (cmd s) s = Some (Ok (le32 c @ le64 1 @ le64 9 @ replicate 4076 0xCC), s2)"
      "answering hs s2" "cs_res s2 = (cs_res s)\<lparr>Trace := t\<rparr>"
    by blast
  from assms(2)[OF a this(1) refl this(2,3)] show "\<exists>s'. m s = Some (Ok (), s') \<and> Q s'" .
qed

lemma padDword_Nil [simp]: "padDword [] = []"
  by (simp add: padDword_replicate pad_len_def)

lemma queue2_length: "length (padDword (encodeGetDeviceQueue2CS fl dev fam i ri q)) \<le> 128"
  by (simp add: padDword_replicate pad_len_def encodeGetDeviceQueue2CS_def Let_def put_defs)

lemma queue2_answer: "decodeGetDeviceQueue2Reply (le32 ctGetDeviceQueue2 @ le64 1 @ le64 9 @ r) = (9, True)"
  by (simp add: decodeGetDeviceQueue2Reply_def)

lemmas leads_empty = leads_answer[of "\<lambda>_. []", simplified]

lemmas demo_simps = demo_cc_def try_with_def set_res_def get_res_def walk_at_def Let_def

lemma demo_mem_type: "find_mem_type [1, 7] 0 2 = Some (Some (1, 7))"
  by code_simp

lemma lead_objects:
  "leads (walk_at (answer ctCreateInstance @ hs) ti sz) (step_create_instance demo_cc) (walk_at hs ti sz)"
  "leads (walk_at (answer ctGetPhysDevMemoryProps @ hs) ti sz) (step_memory_properties demo_cc) (walk_at hs 1 sz)"
  "leads (walk_at (answer ctGetPhysDevQueueFamily @ hs) ti sz) (step_queue_families demo_cc) (walk_at hs ti sz)"
  "leads (walk_at (answer ctCreateDevice @ hs) ti sz) (step_create_device demo_cc) (walk_at hs ti sz)"
  "leads (walk_at (answer ctGetDeviceQueue2 @ hs) ti sz) step_get_queue (walk_at hs ti sz)"
  "leads (walk_at (answer ctCreateImage @ hs) ti sz) (step_create_image demo_cc w h) (walk_at hs ti sz)"
  "leads (walk_at (answer ctGetImageMemoryReqs @ hs) 1 sz) (step_memory_requirements demo_cc) (walk_at hs 1 8)"
  "leads (walk_at (answer ctAllocateMemory @ hs) ti sz) (step_allocate_memory demo_cc w h) (walk_at hs ti sz)"
  "leads (walk_at (answer ctBindImageMemory @ hs) ti sz) (step_bind_memory demo_cc) (walk_at hs ti sz)"
  subgoal by (rule leads_empty[of _ _ _ _ "''vkCreateInstance''"]) (simp add: step_create_instance_def demo_simps)
  subgoal by (rule leads_empty[of _ _ _ _ "''vkGetPhysicalDeviceMemoryProperties''"]) (simp add: step_memory_properties_def demo_simps demo_mem_type)
  subgoal by (rule leads_empty[of _ _ _ _ "''vkGetPhysicalDeviceQueueFamilyProperties''"]) (simp add: step_queue_families_def demo_simps)
  subgoal by (rule leads_empty[of _ _ _ _ "''vkCreateDevice''"]) (simp add: step_create_device_def demo_simps)
  subgoal by (rule leads_answer[of "\<lambda>s. encodeGetDeviceQueue2CS CmdGenerateReplyBit (Device (cs_res s)) (QueueFamilyIdx (cs_res s)) 0
      queueSyncRingIdx idQueue" _ _ _ _ "''vkGetDeviceQueue2''", OF queue2_length]) (simp add: step_get_queue_def demo_simps queue2_answer)
  subgoal by (rule leads_empty[of _ _ _ _ "''vkCreateImage''"]) (simp add: step_create_image_def demo_simps)
  subgoal by (rule leads_empty[of _ _ _ _ "''vkGetImageMemoryRequirements''"]) (simp add: step_memory_requirements_def demo_simps)
  subgoal by (rule leads_empty[of _ _ _ _ "''vkAllocateMemory''"]) (simp add: step_allocate_memory_def demo_simps)
  subgoal by (rule leads_empty[of _ _ _ _ "''vkBindImageMemory''"]) (simp add: step_bind_memory_def demo_simps)
  done

lemma lead_record:
  "leads (walk_at (answer ctCreateCommandPool @ hs) ti sz) (step_create_pool demo_cc) (walk_at hs ti sz)"
  "leads (walk_at (answer ctAllocateCommandBuffers @ hs) ti sz) (step_allocate_buffers demo_cc) (walk_at hs ti sz)"
  "leads (walk_at (answer ctBeginCommandBuffer @ hs) ti sz) (step_begin_buffer demo_cc) (walk_at hs ti sz)"
  "leads (walk_at (answer ctEndCommandBuffer @ hs) ti sz) (step_end_buffer demo_cc) (walk_at hs ti sz)"
  "leads (walk_at (answer ctCreateFence @ hs) ti sz) (step_create_fence demo_cc) (walk_at hs ti sz)"
  "leads (walk_at (answer ctQueueSubmit @ hs) ti sz) (step_queue_submit demo_cc) (walk_at hs ti sz)"
  "leads (walk_at (answer ctWaitForFences @ hs) ti sz) (step_wait_fences demo_cc) (walk_at hs ti sz)"
  subgoal by (rule leads_empty[of _ _ _ _ "''vkCreateCommandPool''"]) (simp add: step_create_pool_def demo_simps)
  subgoal by (rule leads_empty[of _ _ _ _ "''vkAllocateCommandBuffers''"]) (simp add: step_allocate_buffers_def demo_simps)
  subgoal by (rule leads_empty[of _ _ _ _ "''vkBeginCommandBuffer''"]) (simp add: step_begin_buffer_def demo_simps)
  subgoal by (rule leads_empty[of _ _ _ _ "''vkEndCommandBuffer''"]) (simp add: step_end_buffer_def demo_simps)
  subgoal by (rule leads_empty[of _ _ _ _ "''vkCreateFence''"]) (simp add: step_create_fence_def demo_simps)
  subgoal by (rule leads_empty[of _ _ _ _ "''vkQueueSubmit''"]) (simp add: step_queue_submit_def demo_simps)
  subgoal by (rule leads_empty[of _ _ _ _ "''vkWaitForFences''"]) (simp add: step_wait_fences_def demo_simps)
  done

text \<open>The enumeration uses two answers; the two recorded commands only wait for the head.\<close>

lemma lead_enumerate:
  "leads (walk_at (answer ctEnumeratePhysDevices @ answer ctEnumeratePhysDevices @ hs) ti sz) (step_enumerate demo_cc) (walk_at hs ti sz)"
proof (rule leads_empty[of _ _ _ _ "''vkEnumeratePhysicalDevices(count)''"])
  fix s1 s2 reply t
  assume a: "walk_at (answer ctEnumeratePhysDevices @ answer ctEnumeratePhysDevices @ hs) ti sz s1"
    "submitWithReply ''vkEnumeratePhysicalDevices(count)'' ctEnumeratePhysDevices [] s1 = Some (Ok reply, s2)"
    "answering (answer ctEnumeratePhysDevices @ hs) s2" "cs_res s2 = (cs_res s1)\<lparr>Trace := t\<rparr>"
  let ?s2 = "s2\<lparr>cs_res := (cs_res s2)\<lparr>PhysDevCount := 1\<rparr>\<rparr>"
  have "answering (answer ctEnumeratePhysDevices @ hs) ?s2" using a(3) by simp
  from answered[OF this, of "[]" "''vkEnumeratePhysicalDevices(fetch)''"] obtain s3 u where
    "submitWithReply ''vkEnumeratePhysicalDevices(fetch)'' ctEnumeratePhysDevices [] ?s2 =
      Some (Ok (le32 ctEnumeratePhysDevices @ le64 1 @ le64 9 @ replicate 4076 0xCC), s3)" "answering hs s3"
    "cs_res s3 = (cs_res ?s2)\<lparr>Trace := u\<rparr>" by auto
  with a show "\<exists>s'. step_enumerate demo_cc s1 = Some (Ok (), s') \<and> walk_at hs ti sz s'"
    by (simp add: step_enumerate_def demo_simps)
qed

lemma silent:
  assumes "answering (HostAct head_stores 1 # hs) s"
  shows "\<exists>s' t. submitNoReply name [] s = Some (Ok (), s') \<and> answering hs s' \<and> cs_res s' = (cs_res s)\<lparr>Trace := t\<rparr>"
proof -
  let ?w = "cs_world s" and ?m = "cs_ring s"
  from assms obtain mem rest where maps: "w_maps ?w = [mem, rest]" "mr_mem ?m = 0"
      and wf: "wf_ring ?m ?w" "mr_bufferSize ?m = 128" and h: "w_host ?w = HostAct head_stores 1 # hs"
    by (auto simp: answering_def length_Suc_conv numeral_2_eq_2)
  let ?mem = "ring_mem 128 (mr_cur ?m) [] mem"
  let ?w1 = "?w\<lparr>w_maps := [?mem, rest]\<rparr>"
  have sub: "Submit ?m [] ?w = Some (Ok (mr_cur ?m, ?m), ?w1)"
    using Submit_effect[OF wf(1), of "[]"] maps wf(2) by simp
  have fit: "192 + 128 \<le> length mem" using wf maps by (simp add: wf_ring_def)
  then have mem: "length ?mem = length mem" "4 \<le> length ?mem" by (simp_all add: ring_mem_length)
  have wf1: "wf_ring ?m ?w1" using wf maps mem(1) by (simp add: wf_ring_def)
  have step: "host_step ?w1 = ?w1\<lparr>w_host := hs, w_maps := [blit 0 (replicate 4 255) ?mem, rest], w_clock := w_clock ?w + 1\<rparr>"
    using h by (simp add: host_step_def host_head_stores[OF mem(2)])
  have top: "get32 (replicate 4 255) = - 1" by code_simp
  have "WaitHead ?m (mr_cur ?m) (cs_timeout s) ?w1 = Some (Ok (- 1, True), host_step ?w1)"
    unfolding WaitHead_def using maps(2) top by (simp add: wait_loop_unfold[OF wf1] Let_def ctrl_word_def step blit_def)
  with sub have run: "submitNoReply name [] s = Some (Ok (), s\<lparr>cs_res := (cs_res s)\<lparr>Trace := Trace (cs_res s) @
      [(void_fmt, [AStr name, ANum (uint (mr_cur ?m)), ANum (uint (- 1 :: u32)), ABool True])]\<rparr>, cs_world := host_step ?w1\<rparr>)"
    by (simp add: submitNoReply_def try_with_def driver_submit_def driver_wait_def on_world_def trace_def set_res_def
        padDword_replicate pad_len_def void_fmt_def)
  have "answering hs (s\<lparr>cs_res := r, cs_world := host_step ?w1\<rparr>)" for r
    using assms wf1 maps mem(2) by (simp add: answering_def step wf_ring_def)
  then show ?thesis using run by (intro exI conjI) (assumption, simp_all)
qed

lemma leads_silent:
  assumes "\<And>s1 s2 t. walk_at (HostAct head_stores 1 # hs) ti sz s1 \<Longrightarrow> submitNoReply name [] s1 = Some (Ok (), s2) \<Longrightarrow>
      answering hs s2 \<Longrightarrow> cs_res s2 = (cs_res s1)\<lparr>Trace := t\<rparr> \<Longrightarrow> \<exists>s'. m s1 = Some (Ok (), s') \<and> Q s'"
  shows "leads (walk_at (HostAct head_stores 1 # hs) ti sz) m Q"
  unfolding leads_def
proof (intro allI impI)
  fix s assume a: "walk_at (HostAct head_stores 1 # hs) ti sz s"
  then have "answering (HostAct head_stores 1 # hs) s" by (simp add: walk_at_def)
  from silent[OF this, of name] obtain s2 t where "submitNoReply name [] s = Some (Ok (), s2)"
      "answering hs s2" "cs_res s2 = (cs_res s)\<lparr>Trace := t\<rparr>" by blast
  from assms[OF a this] show "\<exists>s'. m s = Some (Ok (), s') \<and> Q s'" .
qed

lemma lead_void:
  "leads (walk_at (HostAct head_stores 1 # hs) ti sz) (step_barrier demo_cc) (walk_at hs ti sz)"
  "leads (walk_at (HostAct head_stores 1 # hs) ti sz) (step_clear_color demo_cc clear) (walk_at hs ti sz)"
  subgoal by (rule leads_silent[of _ _ _ "''vkCmdPipelineBarrier''"]) (simp add: step_barrier_def demo_simps)
  subgoal by (rule leads_silent[of _ _ _ "''vkCmdClearColorImage''"]) (simp add: step_clear_color_def demo_simps)
  done

lemma demo_expect: "map (enc_unorm False) [1, 0, 0, 1] = [255, 0, 0, 255]"
  by code_simp

lemma lead_readback: "leads (walk_at [] 1 8) (step_readback False 2 1 [1, 0, 0, 1]) (\<lambda>_. True)"
  unfolding leads_def
proof (intro allI impI)
  fix s assume a: "walk_at [] 1 8 s"
  let ?w = "cs_world s"
  let ?dev = "[255, 0, 0, 255, 255, 0, 0, 255] :: bytes"
  from a obtain mem rest where w: "w_maps ?w = [mem, rest]" "w_host ?w = []" "w_sock ?w = demo_sock4" "w_mmap ?w = [Inr ?dev]"
      and sz: "MemReqSize (cs_res s) = 8"
    by (auto simp: walk_at_def answering_def length_Suc_conv numeral_2_eq_2)
  obtain blob where blob: "ResourceCreateBlob BlobTypeHost3D BlobFlagMappable 8 idMemory demo_sock4 =
      Some (Ok (blob, 9), after (demo_blob 8 idMemory) demo_sock4)"
    using returns_after[OF demo_memory_blob] by (auto simp: demo_blob_def)
  let ?w1 = "?w\<lparr>w_sock := after (demo_blob 8 idMemory) demo_sock4\<rparr>"
  have 1: "on_sock (ResourceCreateBlob BlobTypeHost3D BlobFlagMappable 8 idMemory) ?w = Some (Ok (blob, 9), ?w1)"
    by (simp add: on_sock_def w(3) blob)
  let ?w2 = "?w\<lparr>w_sock := closed 9 (after (demo_blob 8 idMemory) demo_sock4), w_mmap := [], w_maps := [mem, rest, ?dev], w_live := 2 # w_live ?w\<rparr>"
  have 2: "map_blob 9 8 ?w1 = Some (Ok 2, ?w2)"
    by (subst map_blob_runs) (simp_all add: w demo_memory_open, simp add: numeral_eq_Suc)
  have ld: "load_slice 2 0 4 ?w2 = Some (Ok [255, 0, 0, 255], ?w2)" "load_slice 2 4 8 ?w2 = Some (Ok [255, 0, 0, 255], ?w2)"
    by (simp_all add: load_slice_def Let_def slice_ok_def w(2))
  have len: "map_len 2 ?w2 = 8" by (simp add: map_len_def)
  have two: "sint (2 :: goint) = 2" "nat 2 = Suc (Suc 0)" "sint (8 :: goint) = 8" "(8 :: u64) \<noteq> 0" by simp_all
  have loop: "readback_loop m e 2 b i = readback_loop m e (Suc (Suc 0)) b i" for m e b i
    by (simp only: numeral_2_eq_2)
  show "\<exists>s'. step_readback False 2 1 [1, 0, 0, 1] s = Some (Ok (), s') \<and> True"
    unfolding step_readback_def Let_def demo_expect
    by (simp add: try_with_def on_world_def set_res_def get_res_def trace_def defer_call_def alloc_size_def sz 1 2 ld len two loop)
qed

lemma walk_completes: "leads (walk_at demo_script 0 0) (run_steps (clear_steps demo_cc False 2 1 [1, 0, 0, 1])) (\<lambda>_. True)"
  unfolding demo_script_def clear_steps_def
  by (rule leads_run, rule lead_objects lead_record lead_enumerate lead_void lead_readback)+
    (simp add: leads_def)

section \<open>The whole run\<close>

lemma demo_up_facts:
  "w_maps (cs_world demo_up) = []" "w_host (cs_world demo_up) = demo_script"
  "w_mmap (cs_world demo_up) = [Inr [], Inr [], Inr [255, 0, 0, 255, 255, 0, 0, 255]]"
  "MemTypeIndex (cs_res demo_up) = 0" "MemReqSize (cs_res demo_up) = 0"
  by code_simp+

lemma demo_ring_setup:
  "\<exists>s. clear_ring_setup 128 demo_up = Some (Ok (), s) \<and> walk_at demo_script 0 0 s"
proof -
  let ?k1 = "after (demo_blob 320 0) demo_sock1" and ?k2 = "after (demo_blob 4096 0) demo_sock3"
  have b1: "ResourceCreateBlob BlobTypeHost3D BlobFlagMappable 320 0 demo_sock1 = Some (Ok (5, 7), ?k1)"
    using returns_after[OF demo_ring_blob] by (auto simp: demo_blob_def)
  have cr: "SubmitCmd2 (New rawconn_rw) \<lparr>sb_Flags = SubmitCmd2FlagRingIdx, sb_RingIdx = 0, sb_Syncs = [],
     sb_CmdData = EncodeVkCreateRingMESACS 0x1000 (ringCreateInfoForBlob 5 128 0 ringIdleTimeoutNS)\<rparr> demo_sock2 = Some (Ok (), demo_sock3)"
    using returns_after[OF demo_ring_created] by (auto simp: demo_create_ring_def demo_sock3_def)
  have b2: "ResourceCreateBlob BlobTypeHost3D BlobFlagMappable 4096 0 demo_sock3 = Some (Ok (6, 8), ?k2)"
    using returns_after[OF demo_reply_blob] by (auto simp: demo_blob_def)
  have sz: "RingShmemSize 128 0 = 320" by (simp add: RingShmemSize_def ring_layout_defs)
  note up = demo_up_facts demo_sock1_def[symmetric]
  show ?thesis
    unfolding clear_ring_setup_def clear_blob_def sz clear_replySize_def
    by (simp add: try_with_def on_world_def on_sock_def set_res_def defer_call_def map_blob_runs fill_map_def up b1 cr b2
        demo_ring_open demo_reply_open demo_sock2_def[symmetric] demo_sock4_def[symmetric]
        walk_at_def answering_def wf_ring_def) (intro exI[of _ 7], simp)
qed

lemma demo_run:
  "\<exists>r w'. VenusClearImage demo_cc False ''/tmp/.virgl_test'' 128 2 1 [1, 0, 0, 1] 1000 clear_world = Some (Ok (r, None), w')"
proof -
  have up: "clear_bring_up ''/tmp/.virgl_test'' (clear_start [1, 0, 0, 1] 1000 clear_world) = Some (Ok (), demo_up)"
    using returns_after[OF demo_up_runs] by (auto simp: demo_bring_up_def demo_start_def demo_up_def)
  obtain s where s: "clear_ring_setup 128 demo_up = Some (Ok (), s)" "walk_at demo_script 0 0 s"
    using demo_ring_setup by blast
  obtain s' where "run_steps (clear_steps demo_cc False 2 1 [1, 0, 0, 1]) s = Some (Ok (), s')"
    using walk_completes s(2) unfolding leads_def by blast
  then show ?thesis using up s(1) by (simp add: VenusClearImage_def)
qed

section \<open>Properties of the driver\<close>

text \<open>C1. The error \<open>VenusClearImage\<close> returns and the verdict it reports agree: it returns no error
  exactly when \<open>ReadbackPass\<close> is set. In that case protocol 3 or later was negotiated, the twenty
  commands of the walk were submitted in order, each consumed by the host and, where it carries a
  reply, answered with its own command type; each of the twelve \<open>VkResult\<close>s the driver records is
  success (it discards the two of \<open>vkEnumeratePhysicalDevices\<close>) and the memory type is
  host-visible, coherent and allowed for the image. The readback looked at the third mapping
  the driver made, the device memory: it compared the \<open>width\<close> texels of the first row, or as many
  as the mapping holds when it is shorter, at least one, and, unless the host rewrites that mapping
  during the run, the four bytes of the mapping at \<open>4 * i\<close> are the encoded clear colour for every
  compared texel \<open>i\<close>.\<close>

theorem clear_verdict:
  assumes "VenusClearImage cc fma path bufferSize width height clear timeout w = Some (Ok (r, err), w')"
  defines "p \<equiv> length (w_maps w) + 2"
  shows "(err = None \<longleftrightarrow> ReadbackPass r) \<and> (ReadbackPass r \<longrightarrow>
    3 \<le> NegotiatedVersion r \<and> MaxTimelineCount r \<noteq> 0 \<and>
    (\<exists>es e. Trace r = es @ [e] \<and> list_all2 acknowledged clear_commands es) \<and>
    ResCreateInstance r = 0 \<and> ResCreateDevice r = 0 \<and> ResCreateImage r = 0 \<and> ResAllocMemory r = 0 \<and>
    ResBindImage r = 0 \<and> ResCreatePool r = 0 \<and> ResAllocCmdBuf r = 0 \<and> ResBeginCmdBuf r = 0 \<and>
    ResEndCmdBuf r = 0 \<and> ResCreateFence r = 0 \<and> ResQueueSubmit r = 0 \<and> ResWaitForFences r = 0 \<and>
    MemTypeFlags r AND want_flags = want_flags \<and> MemReqBits r AND push_bit (unat (MemTypeIndex r)) 1 \<noteq> 0 \<and>
    0 < TexelsChecked r \<and> TexelsRed r = TexelsChecked r \<and> ExpectTexel r = map (enc_unorm fma) clear \<and>
    p < length (w_maps w') \<and> int (TexelsChecked r) = (if int (length (w_maps w' ! p)) < sint (width * 4)
      then int (length (w_maps w' ! p)) div 4 else sint width) \<and>
    (list_all (leaves_alone p) (w_host w) \<longrightarrow>
      (\<forall>i<TexelsChecked r. take 4 (drop (4 * i) (w_maps w' ! p)) = map (enc_unorm fma) clear)))"
proof (rule conjI)
  obtain y s where run: "run_steps (clear_bring_up path # clear_ring_setup bufferSize
      # clear_steps cc fma width height clear) (clear_start clear timeout w) = Some (y, s)"
      and r: "r = cs_res s" and err: "err = None \<longleftrightarrow> (\<exists>x. y = Ok x)"
    using assms(1) by (auto simp: VenusClearImage_def split: option.splits res.splits)
  have "\<not> ReadbackPass (cs_res (clear_start clear timeout w))" by (simp add: clear_start_def clear_zero_def)
  from verdictD[OF verdict_clear this run] show flag: "err = None \<longleftrightarrow> ReadbackPass r" by (simp add: r err)
  have ok: "VenusClearImage cc fma path bufferSize width height clear timeout w = Some (Ok (r, None), w')" if "ReadbackPass r"
    using assms(1) flag that by simp
  show "ReadbackPass r \<longrightarrow>
    3 \<le> NegotiatedVersion r \<and> MaxTimelineCount r \<noteq> 0 \<and>
    (\<exists>es e. Trace r = es @ [e] \<and> list_all2 acknowledged clear_commands es) \<and>
    ResCreateInstance r = 0 \<and> ResCreateDevice r = 0 \<and> ResCreateImage r = 0 \<and> ResAllocMemory r = 0 \<and>
    ResBindImage r = 0 \<and> ResCreatePool r = 0 \<and> ResAllocCmdBuf r = 0 \<and> ResBeginCmdBuf r = 0 \<and>
    ResEndCmdBuf r = 0 \<and> ResCreateFence r = 0 \<and> ResQueueSubmit r = 0 \<and> ResWaitForFences r = 0 \<and>
    MemTypeFlags r AND want_flags = want_flags \<and> MemReqBits r AND push_bit (unat (MemTypeIndex r)) 1 \<noteq> 0 \<and>
    0 < TexelsChecked r \<and> TexelsRed r = TexelsChecked r \<and> ExpectTexel r = map (enc_unorm fma) clear \<and>
    p < length (w_maps w') \<and> int (TexelsChecked r) = (if int (length (w_maps w' ! p)) < sint (width * 4)
      then int (length (w_maps w' ! p)) div 4 else sint width) \<and>
    (list_all (leaves_alone p) (w_host w) \<longrightarrow>
      (\<forall>i<TexelsChecked r. take 4 (drop (4 * i) (w_maps w' ! p)) = map (enc_unorm fma) clear))"
    using clear_success[OF ok] clear_texels[OF ok] unfolding p_def by blast
qed

theorem clear_verdict_witness:
  "\<exists>r w'. VenusClearImage demo_cc False ''/tmp/.virgl_test'' 128 2 1 [1, 0, 0, 1] 1000 clear_world = Some (Ok (r, None), w') \<and>
     ReadbackPass r \<and> 0 < TexelsChecked r \<and> TexelsRed r = TexelsChecked r \<and>
     (\<forall>i<TexelsChecked r. take 4 (drop (4 * i) (w_maps w' ! 2)) = [255, 0, 0, 255])"
proof -
  obtain r w' where run: "VenusClearImage demo_cc False ''/tmp/.virgl_test'' 128 2 1 [1, 0, 0, 1] 1000 clear_world = Some (Ok (r, None), w')"
    using demo_run by blast
  have w: "length (w_maps clear_world) + 2 = 2" "w_host clear_world = demo_script" by (simp_all add: clear_world_def)
  have "list_all (leaves_alone 2) demo_script" by code_simp
  with clear_verdict[OF run] run show ?thesis unfolding w demo_expect by auto
qed

text \<open>C11. The reply window is filled with a sentinel before a command is submitted: if the host
  stores nothing into it, \<open>submitWithReply\<close> never returns a reply, however far the host
  advances the head and whatever the window held from earlier commands.\<close>

theorem unanswered_rejected:
  assumes "cs_replyMem s \<noteq> mr_mem (cs_ring s)" "cs_replyMem s < length (w_maps (cs_world s))"
    "list_all (leaves_alone (cs_replyMem s)) (w_host (cs_world s))" "want \<noteq> 0xCCCCCCCC"
  shows "submitWithReply name want cmd s \<noteq> Some (Ok reply, s')"
proof
  assume "submitWithReply name want cmd s = Some (Ok reply, s')"
  then show False
  proof (rule submitWithReply_run, goal_cases)
    case (1 w1 q1 m1 w2 q m2 w3 hd w4 b w5 w6)
    let ?p = "cs_replyMem s"
    obtain n where n: "w_maps w1 ! ?p = replicate n 0xCC" "w_host w1 = w_host (cs_world s)"
      using 1(1) assms(2) by (auto simp: fill_map_def)
    have sub: "untouched ?p w1 w2" "untouched ?p w2 w3"
      using Submit_frame[OF 1(2), of ?p] Submit_frame[OF 1(3), of ?p] assms(1) by auto
    then have "list_all (leaves_alone ?p) (w_host w3)" using n(2) assms(3) by (auto simp: untouched_def)
    then have "untouched ?p w3 w4" using 1(4) wait_loop_frame unfolding WaitHead_def by blast
    then have u: "untouched ?p w1 w4" using sub untouched_trans by blast
    then have "list_all (leaves_alone ?p) (w_host w4)" using n(2) assms(3) by (auto simp: untouched_def)
    from host_step_frame[OF this] u have "w_maps (host_step w4) ! ?p = replicate n 0xCC"
      using n(1) by (simp add: untouched_def)
    with load_word[OF 1(5)] have "b = take 4 (replicate n 0xCC)" "4 \<le> n" by simp_all
    then show False using 1(6) sentinel_word assms(4) by auto
  qed
qed

definition idle_state :: cstate where
  "idle_state = \<lparr>cs_world = \<lparr>w_sock = \<lparr>rd_script = [], wr_script = [], tx = [], open_fds = []\<rparr>, w_dial = (None, None), w_mmap = [],
       w_maps = [replicate 4 255 @ replicate 316 0, [0, 0, 0, 0]], w_live = [0, 1], w_host = [HostAct [(0, 0, 7)] 5], w_clock = 0\<rparr>,
     cs_res = clear_zero [], cs_ring = \<lparr>mr_ResID = 5, mr_mem = 0, mr_bufferSize = 128, mr_cur = 0\<rparr>,
     cs_replyMem = 1, cs_replySize = 4, cs_timeout = 1000, cs_defers = []\<rparr>"

theorem unanswered_rejected_witness:
  "submitWithReply ''vkCreateInstance'' ctCreateInstance [] idle_state \<noteq> Some (Ok [0, 0, 0, 0], idle_state)"
  by (rule unanswered_rejected) (simp_all add: idle_state_def leaves_alone_def ctCreateInstance_def)

text \<open>C29. A command the host serves returns its reply: if the host, by its next actions, moves the
  head to the command's sequence number and stores a reply that begins with the command type,
  \<open>submitWithReply\<close> returns the whole window as the host left it.\<close>

theorem reply_served:
  assumes "ready cmd s" "serves want cmd s"
  shows "\<exists>s'. submitWithReply name want cmd s =
      Some (Ok (w_maps (host_step (host_step (host_step (posted cmd s)))) ! cs_replyMem s), s') \<and>
    mr_cur (cs_ring s') = posted_seqno cmd s \<and> cs_world s' = host_step (host_step (host_step (posted cmd s)))"
  using reply_served_run[OF assms, of name] by auto

definition served_state :: cstate where
  "served_state = \<lparr>cs_world = \<lparr>w_sock = demo_sock4, w_dial = (None, None),
       w_mmap = [Inr [255, 0, 0, 255, 255, 0, 0, 255]], w_maps = [replicate 320 0, replicate 4096 0], w_live = [0, 1],
       w_host = answer ctCreateInstance, w_clock = 0\<rparr>,
     cs_res = clear_zero [], cs_ring = \<lparr>mr_ResID = 5, mr_mem = 0, mr_bufferSize = 128, mr_cur = 0\<rparr>,
     cs_replyMem = 1, cs_replySize = 4096, cs_timeout = 1000, cs_defers = []\<rparr>"

lemma served_answering: "answering (answer ctCreateInstance @ []) served_state"
  by (auto simp: answering_def served_state_def wf_ring_def intro!: exI[of _ 7])

theorem reply_served_witness:
  "\<exists>s'. submitWithReply ''vkCreateInstance'' ctCreateInstance [1, 2, 3, 4] served_state =
     Some (Ok (le32 ctCreateInstance @ le64 1 @ le64 9 @ replicate 4076 0xCC), s')"
proof -
  have len: "length (padDword [1, 2, 3, 4 :: byte]) \<le> 128" by (simp add: padDword_replicate pad_len_def)
  have mem: "cs_replyMem served_state = 1" by (simp add: served_state_def)
  from reply_served[OF answering_ready[OF served_answering len] served_world(2)[OF served_answering len], of "''vkCreateInstance''"]
    served_world(1)[OF served_answering len] mem
  show ?thesis by auto
qed

end
