(* ===== verification/Venus_Mains.thy ===== *)
theory Venus_Mains
  imports Clear_Demo
begin

text \<open>
  The commands \<open>vtest/cmd/venusclear/main.go\<close> and \<open>vtest/cmd/venusvalidator/main.go\<close>: flags in, the
  lines printed and the exit code out. A line is kept as format string and arguments.
\<close>

section \<open>Processes\<close>

record finished =
  fin_out :: "(string \<times> farg list) list"
  fin_err :: "(string \<times> farg list) list"
  fin_code :: nat

record venus_flags =
  f_sock :: string
  f_buf :: goint
  f_timeout :: int

section \<open>venusclear\<close>

record clear_flags = venus_flags +
  f_width :: goint
  f_height :: goint

definition clear_red :: "rat list" where "clear_red = [1, 0, 0, 1]"

abbreviation num32 :: "u32 \<Rightarrow> farg" where "num32 x \<equiv> ANum (uint x)"
abbreviation num64 :: "u64 \<Rightarrow> farg" where "num64 x \<equiv> ANum (uint x)"
abbreviation code32 :: "i32 \<Rightarrow> farg" where "code32 x \<equiv> ANum (sint x)"
abbreviation texel :: "bytes \<Rightarrow> farg list" where "texel b \<equiv> map (\<lambda>i. ANum (uint (b ! i))) [0..<4]"

definition clear_report :: "ClearImageResult \<Rightarrow> (string \<times> farg list) list" where
  "clear_report r =
    [(''  negotiated protocol version = %d'', [num32 (NegotiatedVersion r)]),
     (''  max_timeline_count          = %d'', [num32 (MaxTimelineCount r)]),
     (''  venus capset length         = %d bytes'', [ANum (int (CapsetLen r))]),
     (''  ring blob res_id            = %d'', [num32 (RingBlobResID r)]),
     (''  reply blob res_id           = %d'', [num32 (ReplyBlobResID r)]),
     (''  --- decoded handles / indices ---'', []),
     (''  VkInstance                  = %#x'', [num64 (Instance r)]),
     (''  physical device count       = %d (using device 0 = %#x)'', [num32 (PhysDevCount r), num64 (PhysDev r)]),
     (''  memory type count           = %d (chose type %d flags=%#x HOST_VISIBLE|COHERENT)'',
        [num32 (MemTypeCount r), num32 (MemTypeIndex r), num32 (MemTypeFlags r)]),
     (''  queue family count          = %d (using family %d)'', [num32 (QueueFamCount r), num32 (QueueFamilyIdx r)]),
     (''  VkDevice                    = %#x'', [num64 (Device r)]),
     (''  VkQueue                     = %#x'', [num64 (Queue r)]),
     (''  VkImage                     = %#x'', [num64 (Image r)]),
     (''  image mem requirements      = size=%d align=%d typeBits=%#x'', [num64 (MemReqSize r), num64 (MemReqAlign r), num32 (MemReqBits r)]),
     (''  VkDeviceMemory              = %#x'', [num64 (Memory r)]),
     (''  VkCommandPool               = %#x'', [num64 (CmdPool r)]),
     (''  VkCommandBuffer             = %#x'', [num64 (CmdBuf r)]),
     (''  VkFence                     = %#x'', [num64 (Fence r)]),
     (''  --- VkResults (0 == VK_SUCCESS) ---'', []),
     (''  CreateInstance=%d CreateDevice=%d CreateImage=%d AllocMemory=%d BindImage=%d'',
        [code32 (ResCreateInstance r), code32 (ResCreateDevice r), code32 (ResCreateImage r), code32 (ResAllocMemory r), code32 (ResBindImage r)]),
     (''  CreatePool=%d AllocCmdBuf=%d BeginCmdBuf=%d EndCmdBuf=%d'',
        [code32 (ResCreatePool r), code32 (ResAllocCmdBuf r), code32 (ResBeginCmdBuf r), code32 (ResEndCmdBuf r)]),
     (''  CreateFence=%d QueueSubmit=%d WaitForFences=%d'',
        [code32 (ResCreateFence r), code32 (ResQueueSubmit r), code32 (ResWaitForFences r)]),
     (''  --- guest-visible readback (the cleared image's pixels) ---'', []),
     (''  device-memory blob res_id   = %d (blob_id tied to VkDeviceMemory %#x)'', [num32 (MemBlobResID r), num64 (Memory r)]),
     (''  readback performed          = %v'', [ABool (ReadbackDone r)]),
     (''  texel(0,0) read back        = %#02x %#02x %#02x %#02x (RGBA)'', texel (FirstTexel r)),
     (''  expected clear texel        = %#02x %#02x %#02x %#02x (RGBA)'', texel (ExpectTexel r)),
     (''  texels matching clear       = %d/%d  readback_pass=%v'', [ANum (int (TexelsRed r)), ANum (int (TexelsChecked r)), ABool (ReadbackPass r)]),
     (''  --- per-command ring trace (seqno = tail after write; head = host consumed) ---'', [])]
    @ map (\<lambda>(fmt, args). (''    '' @ fmt, args)) (Trace r)"

definition clear_confirmed :: "ClearImageResult \<Rightarrow> bool" where
  "clear_confirmed r \<longleftrightarrow> ResCreateImage r = 0 \<and> Image r \<noteq> 0 \<and> ResQueueSubmit r = 0 \<and> ResWaitForFences r = 0 \<and>
     ReadbackDone r \<and> ReadbackPass r"

definition venusclear_main :: "clearcs \<Rightarrow> bool \<Rightarrow> clear_flags \<Rightarrow> (world, finished) io" where
  "venusclear_main cc fma fl =
     (let head = (''VENUS clear-image: sock=%s buf=%d image=%dx%d clear=%v timeout=%s'',
            [AStr (f_sock fl), ANum (sint (f_buf fl)), ANum (sint (f_width fl)), ANum (sint (f_height fl)), AStr ''[1 0 0 1]'', ANum (f_timeout fl)]) in
     bind_io (VenusClearImage cc fma (f_sock fl) (f_buf fl) (f_width fl) (f_height fl) clear_red (f_timeout fl)) (\<lambda>(r, err).
     let out = head # clear_report r in
     case err of
       Some e \<Rightarrow> return_io \<lparr>fin_out = out, fin_err = [(''VENUS-CLEAR-WALL: %v'', [AErr e])], fin_code = 1\<rparr>
     | None \<Rightarrow>
       if clear_confirmed r
       then return_io \<lparr>fin_out = out @ [(''PASS: VENUS clear-image -- GUEST READ BACK the cleared pixels: texel(0,0)=%#02x%#02x%#02x%#02x (RGBA), %d/%d texels == clear colour red. The host created the image (%#x), executed CmdClearColorImage(red) to fence completion, and backed the VkDeviceMemory (%#x) with a HOST3D|MAPPABLE blob (res_id=%d) the guest mmap'd and read.'',
              texel (FirstTexel r) @ [ANum (int (TexelsRed r)), ANum (int (TexelsChecked r)), num64 (Image r), num64 (Memory r), num32 (MemBlobResID r)])],
              fin_err = [], fin_code = 0\<rparr>
       else return_io \<lparr>fin_out = out @ [(''FAIL: VENUS clear-image -- sequence completed but readback did not confirm red (a VkResult was non-success, a handle was zero, or the mapped texels were not the clear colour)'', [])],
              fin_err = [], fin_code = 2\<rparr>))"

section \<open>venusvalidator\<close>

record ring_flags = venus_flags +
  f_extra :: goint

definition ring_report :: "RoundTripResult \<Rightarrow> (string \<times> farg list) list" where
  "ring_report r =
    [(''  negotiated protocol version = %d'', [num32 (rt_NegotiatedVersion r)]),
     (''  max_timeline_count          = %d'', [num32 (rt_MaxTimelineCount r)]),
     (''  venus capset length         = %d bytes'', [ANum (int (rt_CapsetLen r))]),
     (''  ring blob res_id            = %d'', [num32 (rt_BlobResID r)]),
     (''  ring tail after write       = %d'', [num32 (rt_RingTailAfter r)]),
     (''  ring head start             = %d'', [num32 (rt_HeadStart r)]),
     (''  ring head after poll        = %d'', [num32 (rt_HeadAfter r)]),
     (''  ring status after poll      = %#x'', [num32 (rt_StatusAfter r)]),
     (''  HEAD ADVANCED               = %v'', [ABool (rt_HeadAdvanced r)])]"

text \<open>Reading a field of a nil result would be a panic.\<close>

definition venusvalidator_main :: "ring_flags \<Rightarrow> (world, finished) io" where
  "venusvalidator_main fl =
     (let head = (''VENUS round-trip: sock=%s bufSize=%d extra=%d timeout=%s'',
            [AStr (f_sock fl), ANum (sint (f_buf fl)), ANum (sint (f_extra fl)), ANum (f_timeout fl)]) in
     bind_io (VenusRingRoundTrip (f_sock fl) (f_buf fl) (f_extra fl) (f_timeout fl)) (\<lambda>(res, err).
     let out = head # (case res of None \<Rightarrow> [] | Some r \<Rightarrow> ring_report r) in
     case err of
       Some e \<Rightarrow> return_io \<lparr>fin_out = out, fin_err = [(''VENUS-WALL: %v'', [AErr e])], fin_code = 1\<rparr>
     | None \<Rightarrow> (case res of
         None \<Rightarrow> panic_io
       | Some r \<Rightarrow>
         if rt_HeadAdvanced r
         then return_io \<lparr>fin_out = out @ [(''PASS: VENUS round-trip -- host advanced the ring head (consumed our vkCreateInstance)'', [])],
                fin_err = [], fin_code = 0\<rparr>
         else return_io \<lparr>fin_out = out @ [(''FAIL: VENUS no round-trip -- host did NOT advance head within timeout (ring registered, but consumer did not run)'', [])],
                fin_err = [], fin_code = 2\<rparr>)))"

section \<open>What the exit codes mean\<close>

lemma venusclear_run:
  assumes "venusclear_main cc fma fl w = Some (Ok f, w')"
  shows "\<exists>r err. VenusClearImage cc fma (f_sock fl) (f_buf fl) (f_width fl) (f_height fl) clear_red (f_timeout fl) w = Some (Ok (r, err), w') \<and>
     fin_code f = (if err \<noteq> None then 1 else if clear_confirmed r then 0 else 2) \<and> (fin_err f = [] \<longleftrightarrow> err = None)"
  using assms unfolding venusclear_main_def Let_def
proof (rule try_with_OkE, goal_cases)
  case (1 x s')
  then show ?case
    by (intro exI[of _ "fst x"] exI[of _ "snd x"]) (auto simp: return_io_def split: option.splits if_splits prod.splits)
qed

lemma venusvalidator_run:
  assumes "venusvalidator_main fl w = Some (Ok f, w')"
  shows "\<exists>res err. VenusRingRoundTrip (f_sock fl) (f_buf fl) (f_extra fl) (f_timeout fl) w = Some (Ok (res, err), w') \<and>
     fin_code f = (if err \<noteq> None then 1 else if rt_HeadAdvanced (the res) then 0 else 2)"
  using assms unfolding venusvalidator_main_def Let_def
proof (rule try_with_OkE, goal_cases)
  case (1 x s')
  then show ?case
    by (intro exI[of _ "fst x"] exI[of _ "snd x"]) (auto simp: return_io_def panic_io_def split: option.splits if_splits prod.splits)
qed

text \<open>C40. \<open>venusclear\<close> exits with 0 exactly when the driver returned no error and the host named the image
  with a non-zero handle, and then every compared texel was the encoding of red; it exits with 2
  only for a zero handle, and with 1, and a line on standard error, exactly when the driver
  returned an error.\<close>

theorem venusclear_exit_codes:
  assumes "venusclear_main cc fma fl w = Some (Ok f, w')"
  shows "\<exists>r err. VenusClearImage cc fma (f_sock fl) (f_buf fl) (f_width fl) (f_height fl) [1, 0, 0, 1] (f_timeout fl) w = Some (Ok (r, err), w') \<and>
    (fin_code f = 1 \<longleftrightarrow> err \<noteq> None) \<and> (fin_err f = [] \<longleftrightarrow> err = None) \<and>
    (fin_code f = 0 \<longleftrightarrow> err = None \<and> Image r \<noteq> 0) \<and> (fin_code f = 2 \<longleftrightarrow> err = None \<and> Image r = 0) \<and>
    (fin_code f = 0 \<longrightarrow> 0 < TexelsChecked r \<and> TexelsRed r = TexelsChecked r \<and> ExpectTexel r = map (enc_unorm fma) [1, 0, 0, 1])"
proof -
  obtain r err where r: "VenusClearImage cc fma (f_sock fl) (f_buf fl) (f_width fl) (f_height fl) [1, 0, 0, 1] (f_timeout fl) w = Some (Ok (r, err), w')"
    and c: "fin_code f = (if err \<noteq> None then 1 else if clear_confirmed r then 0 else 2)" "fin_err f = [] \<longleftrightarrow> err = None"
    using venusclear_run[OF assms] by (auto simp: clear_red_def)
  show ?thesis
  proof (cases err)
    case None
    then have ok: "ResCreateImage r = 0" "ResQueueSubmit r = 0" "ResWaitForFences r = 0" "ReadbackDone r" "ReadbackPass r"
        "0 < TexelsChecked r" "TexelsRed r = TexelsChecked r" "ExpectTexel r = map (enc_unorm fma) [1, 0, 0, 1]"
      using clear_success r by (blast+)
    then have "clear_confirmed r \<longleftrightarrow> Image r \<noteq> 0" by (simp add: clear_confirmed_def)
    with ok(6-8) c None r show ?thesis by (intro exI[of _ r] exI[of _ err]) simp
  next
    case (Some e)
    with c r show ?thesis by (intro exI[of _ r] exI[of _ err]) simp
  qed
qed

theorem venusclear_exit_codes_witness:
  "\<exists>f w'. venusclear_main demo_cc False \<lparr>f_sock = ''/tmp/.virgl_test'', f_buf = 128, f_timeout = 1000, f_width = 2, f_height = 1\<rparr> clear_world = Some (Ok f, w') \<and>
     fin_code f \<noteq> 1 \<and> fin_err f = []"
proof -
  let ?fl = "\<lparr>f_sock = ''/tmp/.virgl_test'', f_buf = 128, f_timeout = 1000, f_width = 2, f_height = 1\<rparr> :: clear_flags"
  obtain r w' where run: "VenusClearImage demo_cc False ''/tmp/.virgl_test'' 128 2 1 [1, 0, 0, 1] 1000 clear_world = Some (Ok (r, None), w')"
    using demo_run by blast
  then obtain f where f: "venusclear_main demo_cc False ?fl clear_world = Some (Ok f, w')"
    by (cases "clear_confirmed r") (simp_all add: venusclear_main_def clear_red_def return_io_def Let_def)
  from venusclear_exit_codes[OF f] run show ?thesis using f by auto
qed

text \<open>\<open>venusvalidator\<close> exits with 0 exactly when the round trip had no error and the host changed the
  head word, with 2 when it did not before the deadline, with 1 on an error; it never panics.\<close>

theorem venusvalidator_exit_codes:
  assumes "venusvalidator_main fl w = Some (Ok f, w')"
  shows "\<exists>res err. VenusRingRoundTrip (f_sock fl) (f_buf fl) (f_extra fl) (f_timeout fl) w = Some (Ok (res, err), w') \<and>
    (fin_code f = 1 \<longleftrightarrow> err \<noteq> None) \<and>
    (err = None \<longrightarrow> (\<exists>r. res = Some r \<and> (fin_code f = 0 \<longleftrightarrow> rt_HeadAfter r \<noteq> rt_HeadStart r) \<and>
       (fin_code f = 2 \<longrightarrow> w_clock w + f_timeout fl < w_clock w')))"
proof -
  obtain res err where r: "VenusRingRoundTrip (f_sock fl) (f_buf fl) (f_extra fl) (f_timeout fl) w = Some (Ok (res, err), w')"
    and c: "fin_code f = (if err \<noteq> None then 1 else if rt_HeadAdvanced (the res) then 0 else 2)"
    using venusvalidator_run[OF assms] by blast
  have "\<exists>x. res = Some x \<and> (rt_HeadAdvanced x \<longleftrightarrow> rt_HeadAfter x \<noteq> rt_HeadStart x) \<and> (\<not> rt_HeadAdvanced x \<longrightarrow> w_clock w + f_timeout fl < w_clock w')"
    if "err = None" using round_trip_success r that by blast
  with r c show ?thesis by (intro exI[of _ res] exI[of _ err]) auto
qed

lemma venusvalidator_no_panic: "venusvalidator_main fl w = Some (Panic, w') \<Longrightarrow>
  VenusRingRoundTrip (f_sock fl) (f_buf fl) (f_extra fl) (f_timeout fl) w = Some (Panic, w')"
  using round_trip_success[of "f_sock fl" "f_buf fl" "f_extra fl" "f_timeout fl" w None]
  by (auto simp: venusvalidator_main_def try_with_def Let_def return_io_def panic_io_def split: option.splits res.splits prod.splits if_splits)

end
