(* ===== verification/Resource_Safety.thy ===== *)
theory Resource_Safety
  imports Clear_Demo Driver_Frames
begin

text \<open>
  Every descriptor the Venus drivers open is closed and every mapping they make is unmapped,
  whatever the outcome: success, any error, or a run-time panic. Computations that acquire
  nothing keep a frame; the few that acquire something have a specification in the style of
  Hoare logic, with one postcondition for success and one for every other ends_in.
\<close>

section \<open>Specifications by outcome\<close>

definition ends_in :: "('a \<Rightarrow> 's \<Rightarrow> bool) \<Rightarrow> ('s \<Rightarrow> bool) \<Rightarrow> 'a res \<Rightarrow> 's \<Rightarrow> bool" where
  "ends_in A Z r s = (case r of Ok x \<Rightarrow> A x s | _ \<Rightarrow> Z s)"

abbreviation always :: "('s \<Rightarrow> bool) \<Rightarrow> 'a res \<Rightarrow> 's \<Rightarrow> bool" where
  "always Z \<equiv> ends_in (\<lambda>_. Z) Z"

lemma ends_in_simps [simp]:
  "ends_in A Z (Ok x) s = A x s" "ends_in A Z (Err e) s = Z s" "ends_in A Z Panic s = Z s"
  by (simp_all add: ends_in_def)

lemma always_iff [simp]: "always Z r s = Z s"
  by (cases r) simp_all

definition triple :: "('s \<Rightarrow> bool) \<Rightarrow> ('s, 'a) io \<Rightarrow> ('a res \<Rightarrow> 's \<Rightarrow> bool) \<Rightarrow> bool" where
  "triple P m Q \<longleftrightarrow> (\<forall>s r s'. P s \<longrightarrow> m s = Some (r, s') \<longrightarrow> Q r s')"

named_theorems triple_intros

lemma tripleI: "(\<And>s r s'. P s \<Longrightarrow> m s = Some (r, s') \<Longrightarrow> Q r s') \<Longrightarrow> triple P m Q"
  by (simp add: triple_def)

lemma tripleD: "triple P m Q \<Longrightarrow> P s \<Longrightarrow> m s = Some (r, s') \<Longrightarrow> Q r s'"
  by (simp add: triple_def)

lemma triple_try [triple_intros]:
  assumes "triple P m (ends_in Q Z)" "\<And>x. triple (Q x) (k x) (ends_in A Z)"
  shows "triple P (try_with h m k) (ends_in A Z)"
proof (rule tripleI)
  fix s r s' assume "P s" and run: "try_with h m k s = Some (r, s')"
  then obtain y t where m: "m s = Some (y, t)" by (auto simp: try_with_def split: option.splits)
  with tripleD[OF assms(1) \<open>P s\<close> m] run show "ends_in A Z r s'"
    by (cases y) (auto dest: tripleD[OF assms(2)])
qed

lemma triple_check [triple_intros]:
  assumes "triple P m (ends_in Q Z)" "\<And>e. triple Z (h e) (ends_in A Z)" "\<And>x. triple (Q x) (k x) (ends_in A Z)"
  shows "triple P (check_io m h k) (ends_in A Z)"
proof (rule tripleI)
  fix s r s' assume "P s" and run: "check_io m h k s = Some (r, s')"
  then obtain y t where m: "m s = Some (y, t)" by (auto simp: check_io_def split: option.splits)
  with tripleD[OF assms(1) \<open>P s\<close> m] run show "ends_in A Z r s'"
    by (cases y) (auto simp: check_io_def dest: tripleD[OF assms(2)] tripleD[OF assms(3)])
qed

lemma triple_afterwards:
  assumes "triple P m (always Q)" "triple Q c (always Z)"
  shows "triple P (afterwards c m) (always Z)"
proof (rule tripleI)
  fix s r s' assume "P s" and "afterwards c m s = Some (r, s')"
  then obtain y t z where "m s = Some (y, t)" "c t = Some (z, s')"
    by (auto simp: afterwards_def split: option.splits prod.splits res.splits)
  with \<open>P s\<close> show "always Z r s'" using tripleD[OF assms(1)] tripleD[OF assms(2)] by fastforce
qed

lemma triple_pure [triple_intros]:
  "(\<And>s. Z s \<Longrightarrow> A x s) \<Longrightarrow> triple Z (return_io x) (ends_in A Z')" "triple Z (fail_io e) (ends_in B Z)" "triple Z panic_io (ends_in B Z)"
  by (auto simp: triple_def)

lemma triple_cases [triple_intros]:
  "(b \<Longrightarrow> triple P m Q) \<Longrightarrow> (\<not> b \<Longrightarrow> triple P n Q) \<Longrightarrow> triple P (if b then m else n) Q"
  "(\<And>a b. p = (a, b) \<Longrightarrow> triple P (g a b) Q) \<Longrightarrow> triple P (case p of (a, b) \<Rightarrow> g a b) Q"
  by (auto split: prod.splits)

section \<open>The socket\<close>

text \<open>The servers of the protocol answer a blob request with one control message that carries one
  descriptor. \<open>single\<close> is that shape; a message without descriptors is unrestricted.\<close>

fun single :: "cmsgs \<Rightarrow> bool" where
  "single (Cmsgs [Some [fd]]) = True"
| "single c = (rights c = [])"

fun single_ev :: "rd_event \<Rightarrow> bool" where
  "single_ev (RdRights b c) = single c"
| "single_ev _ = True"

definition lawful :: "sock \<Rightarrow> bool" where
  "lawful s \<longleftrightarrow> list_all single_ev (rd_script s)"

definition quiet :: "sock \<Rightarrow> sock \<Rightarrow> bool" where
  "quiet s s' \<longleftrightarrow> (lawful s \<longrightarrow> lawful s') \<and> open_fds s' = open_fds s"

interpretation quiet: frame quiet
  by unfold_locales (auto simp: quiet_def)

lemma quiet_sys_read: "sys_read n s = Some (y, s') \<Longrightarrow> quiet s s'"
  by (auto simp: quiet_def lawful_def split: list.splits rd_event.splits)

lemma quiet_Read: "RawConn_Read n s = Some (y, s') \<Longrightarrow> quiet s s'"
proof (induction n s rule: RawConn_Read.induct)
  case (1 n s)
  then obtain b eo t where y: "sys_read n s = Some ((b, eo), t)"
    by (auto simp: RawConn_Read.simps[of n s] split: option.splits)
  have q: "quiet s t" using quiet_sys_read[OF y] .
  show ?case
  proof (cases "eo = Some EINTR")
    case True
    with "1.prems" y have "RawConn_Read n t = Some (y, s')" by (simp add: RawConn_Read.simps[of n s])
    with "1.IH"[OF y refl refl True refl] q show ?thesis by (auto intro: quiet.trans)
  next
    case False
    with "1.prems" y q show ?thesis by (auto simp: RawConn_Read.simps[of n s] split: option.splits if_splits)
  qed
qed

lemma quiet_Write [frame_intros]: "framed quiet (Write (New rawconn_rw) p)"
proof (rule framedI)
  fix s r s' assume run: "Write (New rawconn_rw) p s = Some (r, s')"
  obtain n e t where w: "raw_write p 0 s = ((n, e), t)" by (metis prod.collapse)
  with run have "t = s'" by (auto simp: Write_def New_def rawconn_rw_def RawConn_Write_def split: option.splits)
  with raw_write_accounts[OF w] show "quiet s s'" by (simp add: quiet_def lawful_def)
qed

lemma quiet_read_loop:
  assumes "read_loop rawconn_rw n acc s = Some y"
  shows "quiet s (snd y)"
proof -
  have "rawconn_rw = rawconn_rw \<longrightarrow> quiet s (snd y)"
    by (rule read_loop.raw_induct[where P = "\<lambda>r n acc s y. r = rawconn_rw \<longrightarrow> quiet s (snd y)", OF _ assms])
      (fastforce simp: rawconn_rw_def quiet.refl split: if_splits option.splits prod.splits dest: quiet_Read intro: quiet.trans)
  then show ?thesis by simp
qed

lemma quiet_ReadFull [frame_intros]: "framed quiet (ReadFull (New rawconn_rw) n)"
  by (rule framedI) (auto simp: ReadFull_def New_def dest: quiet_read_loop)

lemma quiet_readFull: "RawConn_readFull n acc s = Some (r, s') \<Longrightarrow> quiet s s'"
proof (induction n acc s rule: RawConn_readFull.induct)
  case (1 n acc s)
  show ?case
  proof (cases "n \<le> length acc")
    case True
    with "1.prems" show ?thesis by (simp add: RawConn_readFull.simps[of n acc s] quiet.refl)
  next
    case False
    with "1.prems" obtain b eo t where y: "RawConn_Read (n - length acc) s = Some ((b, eo), t)"
      by (auto simp: RawConn_readFull.simps[of n acc s] split: option.splits)
    with False "1.prems" "1.IH"[OF False y refl] quiet_Read[OF y] show ?thesis
      by (cases eo) (auto simp: RawConn_readFull.simps[of n acc s] intro: quiet.trans)
  qed
qed

lemma quiet_readFull_framed [frame_intros]: "framed quiet (RawConn_readFull n acc)"
  by (rule framedI) (rule quiet_readFull)

lemmas quiet_pure [frame_intros] = quiet.framed_pure quiet.framed_try

lemma quiet_readHeader [frame_intros]: "framed quiet (readHeader (New rawconn_rw))"
  unfolding readHeader_def by (intro frame_intros)

lemma quiet_readDwords [frame_intros]: "framed quiet (readDwords (New rawconn_rw) n)"
  unfolding readDwords_def by (intro frame_intros)

lemma quiet_Handshake: "framed quiet (HandshakeVenus (New rawconn_rw) name)"
  unfolding HandshakeVenus_def Handshake_def by (intro frame_intros)

lemma quiet_GetParam: "framed quiet (GetParam (New rawconn_rw) p)"
  unfolding GetParam_def by (intro frame_intros)

lemma quiet_GetCapset: "framed quiet (GetCapset (New rawconn_rw) i v)"
  unfolding GetCapset_def by (intro frame_intros)

lemma quiet_ContextInit: "framed quiet (ContextInit (New rawconn_rw) i)"
  unfolding ContextInit_def by (intro frame_intros)

lemma quiet_SubmitCmd2: "framed quiet (SubmitCmd2 (New rawconn_rw) b)"
  unfolding SubmitCmd2_def by (cases "encodeSubmitCmd2 b") (auto intro!: frame_intros)

lemmas quiet_methods = quiet_Handshake quiet_GetParam quiet_GetCapset quiet_ContextInit quiet_SubmitCmd2

text \<open>A descriptor is received only together with success.\<close>

definition holds :: "nat list \<Rightarrow> sock \<Rightarrow> bool" where
  "holds F s \<longleftrightarrow> lawful s \<and> open_fds s = F"

lemma quiet_triple: "framed quiet m \<Longrightarrow> triple (holds F) m (always (holds F))"
  by (rule tripleI) (auto dest!: framedD simp: quiet_def holds_def)

lemma single_cases:
  assumes "single c"
  obtains fd where "c = Cmsgs [Some [fd]]" | "rights c = []"
  using assms by (cases c rule: single.cases) auto

lemma recvFD_receives: "triple (holds F) RawConn_recvFD (ends_in (\<lambda>fd. holds (fd # F)) (holds F))"
proof (rule tripleI)
  fix s r s' assume "holds F s" "RawConn_recvFD s = Some (r, s')"
  then show "ends_in (\<lambda>fd. holds (fd # F)) (holds F) r s'"
  proof (induction s rule: RawConn_recvFD.induct)
    case (1 s)
    note run = "1.prems"(2)[unfolded RawConn_recvFD.simps[of s]]
    obtain n oob eo t where y: "sys_recvmsg s = Some ((n, oob, eo), t)"
      using run by (auto split: option.splits)
    show ?case
    proof (cases "eo = Some EINTR")
      case True
      then have "holds F t" using y "1.prems"(1) by (auto simp: holds_def lawful_def split: list.splits rd_event.splits)
      with True y run "1.IH"[OF y refl refl refl True refl] show ?thesis by simp
    next
      case False
      show ?thesis
      proof (cases oob)
        case None
        then have "holds F t" using y "1.prems"(1)
          by (auto simp: holds_def lawful_def split: list.splits rd_event.splits)
        with None False y run show ?thesis by (auto split: option.splits if_splits)
      next
        case (Some c)
        then have c: "single c" "lawful t" "open_fds t = rights c @ F" "eo = None" using y "1.prems"(1)
          by (auto simp: holds_def lawful_def split: list.splits rd_event.splits)
        from c(1) show ?thesis
        proof (cases rule: single_cases)
          case (1 fd)
          with c Some y run show ?thesis by (auto simp: holds_def simp del: sys_recvmsg.simps)
        next
          case 2
          with c Some y run show ?thesis
            by (auto simp: holds_def simp del: sys_recvmsg.simps split: cmsgs.splits list.splits option.splits)
        qed
      qed
    qed
  qed
qed

lemma blob_receives:
  "triple (holds F) (ResourceCreateBlob bt fl sz bid) (ends_in (\<lambda>x. holds (snd x # F)) (holds F))"
  unfolding ResourceCreateBlob_def RawConn_send_def Let_def
  by (intro triple_try[OF quiet_triple] triple_try[OF recvFD_receives] triple_cases triple_pure frame_intros) simp

section \<open>The process\<close>

definition owns :: "nat list \<Rightarrow> nat list \<Rightarrow> world \<Rightarrow> bool" where
  "owns F M w \<longleftrightarrow> holds F (w_sock w) \<and> w_live w = M"

definition settled :: "world \<Rightarrow> world \<Rightarrow> bool" where
  "settled w w' \<longleftrightarrow> quiet (w_sock w) (w_sock w') \<and> w_live w' = w_live w"

interpretation settled: world_frame settled
  by unfold_locales (auto simp: settled_def quiet_def lawful_def host_step_def sleep_def split: list.split host_act.split)

lemmas settled_pure [frame_intros] = settled.framed_pure settled.framed_try

lemma settled_triple: "framed settled m \<Longrightarrow> triple (owns F M) m (always (owns F M))"
  by (rule tripleI) (auto dest!: framedD simp: settled_def owns_def quiet_def holds_def)

lemma settled_on_sock [frame_intros]: "framed quiet m \<Longrightarrow> framed settled (on_sock m)"
  by (rule framedI) (auto simp: on_sock_def settled_def dest: framedD split: option.splits)

text \<open>What is acquired and released.\<close>

lemma DialRaw_opens: "triple (owns F M) (DialRaw path) (ends_in (\<lambda>fd. owns (fd # F) M) (owns F M))"
  by (rule tripleI)
    (auto simp: DialRaw_def sys_socket_def sys_connect_def try_with_def check_io_def afterwards_def sys_close_def
      owns_def holds_def lawful_def Let_def split: option.splits if_splits)

lemma close_closes: "triple (owns (fd # F) M) (sys_close fd) (always (owns F M))"
  by (rule tripleI) (auto simp: sys_close_def owns_def holds_def lawful_def split: if_splits)

lemma munmap_unmaps: "triple (owns F (h # M)) (sys_munmap h) (always (owns F M))"
  by (rule tripleI) (auto simp: sys_munmap_def owns_def split: if_splits)

lemma mmap_maps: "triple (owns F M) (sys_mmap n) (ends_in (\<lambda>h. owns F (h # M)) (owns F M))"
  by (rule tripleI) (auto simp: sys_mmap_def owns_def split: if_splits list.splits sum.splits)

lemma map_blob_maps: "triple (owns (fd # F) M) (map_blob fd n) (ends_in (\<lambda>h. owns F (h # M)) (owns F M))"
proof (rule tripleI)
  fix w r w' assume "owns (fd # F) M w" "map_blob fd n w = Some (r, w')"
  then obtain y t z where m: "sys_mmap n w = Some (y, t)" "sys_close fd t = Some (z, w')" "z \<noteq> Panic \<Longrightarrow> r = y" "z = Panic \<Longrightarrow> r = Panic"
    by (auto simp: map_blob_def afterwards_def split: option.splits prod.splits res.splits)
  have "z \<noteq> Panic" using m(2) sys_close_returns[of fd t] by auto
  with tripleD[OF mmap_maps \<open>owns (fd # F) M w\<close> m(1)] m(2,3) show "ends_in (\<lambda>h. owns F (h # M)) (owns F M) r w'"
    by (cases y) (auto dest: tripleD[OF close_closes])
qed

lemma blob_opens:
  "triple (owns F M) (on_sock (ResourceCreateBlob bt fl sz bid)) (ends_in (\<lambda>x. owns (snd x # F) M) (owns F M))"
proof (rule tripleI)
  fix w r w' assume "owns F M w" "on_sock (ResourceCreateBlob bt fl sz bid) w = Some (r, w')"
  then show "ends_in (\<lambda>x. owns (snd x # F) M) (owns F M) r w'"
    by (cases r) (auto simp: on_sock_def owns_def dest: tripleD[OF blob_receives] split: option.splits)
qed

section \<open>The round trip\<close>

lemma rt_ring_unmaps: "triple (owns F (mem # M)) (rt_ring b x t res resID mem) (always (owns F M))"
  unfolding rt_ring_def Let_def Unmap_def wrap_err_def ret_err_def
  by (rule triple_afterwards[OF settled_triple])
    (intro settled.framed_check frame_intros quiet_methods, simp add: munmap_unmaps)

lemma blob_mapped:
  assumes "\<And>a e. triple (owns F M) (h a e) (always (owns F M))" "\<And>a mem. triple (owns F (mem # M)) (k a mem) (always (owns F M))"
  shows "triple (owns (snd x # F) M) (case x of (a, fd) \<Rightarrow> check_io (map_blob fd sz) (h a) (k a)) (always (owns F M))"
  by (cases x) (auto intro!: triple_check[OF map_blob_maps] assms)

lemma round_trip_releases: "triple (owns F M) (VenusRingRoundTrip path b x t) (always (owns F M))"
  unfolding VenusRingRoundTrip_def Let_def wrap_err_def ret_err_def RawConn_Close_def
  by (rule triple_check[OF DialRaw_opens], rule triple_pure, assumption,
      rule triple_afterwards[OF _ close_closes],
      intro triple_check[OF blob_opens] blob_mapped rt_ring_unmaps triple_cases triple_check[OF settled_triple]
        triple_pure frame_intros quiet_methods)

section \<open>The clear-image driver\<close>

text \<open>What the deferred calls will close and unmap, in their order.\<close>

fun closes :: "deferred list \<Rightarrow> nat list" where
  "closes [] = []"
| "closes (DeferClose fd # ds) = fd # closes ds"
| "closes (DeferUnmap h # ds) = closes ds"

fun unmaps :: "deferred list \<Rightarrow> nat list" where
  "unmaps [] = []"
| "unmaps (DeferClose fd # ds) = unmaps ds"
| "unmaps (DeferUnmap h # ds) = h # unmaps ds"

lemma run_defers_releases: "owns (closes ds @ F) (unmaps ds @ M) w \<Longrightarrow> owns F M (run_defers ds w)"
proof (induction ds arbitrary: w)
  case (Cons d ds)
  have "owns (closes ds @ F) (unmaps ds @ M) (case run_deferred d w of None \<Rightarrow> w | Some (_, w') \<Rightarrow> w')"
  proof (cases d)
    case (DeferClose fd)
    obtain z w' where c: "sys_close fd w = Some (z, w')" using sys_close_returns by blast
    with DeferClose tripleD[OF close_closes _ c] Cons.prems show ?thesis by (auto simp: RawConn_Close_def)
  next
    case (DeferUnmap h)
    obtain z w' where c: "sys_munmap h w = Some (z, w')" by (cases "sys_munmap h w") (auto simp: sys_munmap_def split: if_splits)
    with DeferUnmap tripleD[OF munmap_unmaps _ c] Cons.prems show ?thesis by auto
  qed
  from Cons.IH[OF this] show ?case by (simp add: run_defers_def)
qed (simp add: run_defers_def)

text \<open>\<open>books A B F M\<close>: the process holds \<open>A\<close> and \<open>B\<close> beyond what is deferred, and \<open>F\<close> and \<open>M\<close> from before.\<close>

definition books :: "nat list \<Rightarrow> nat list \<Rightarrow> nat list \<Rightarrow> nat list \<Rightarrow> cstate \<Rightarrow> bool" where
  "books A B F M s \<longleftrightarrow> owns (A @ closes (cs_defers s) @ F) (B @ unmaps (cs_defers s) @ M) (cs_world s)"

abbreviation steady :: "cstate \<Rightarrow> cstate \<Rightarrow> bool" where
  "steady \<equiv> lifted settled"

lemma steady_triple: "framed steady m \<Longrightarrow> triple (books A B F M) m (always (books A B F M))"
  by (rule tripleI) (auto dest!: framedD simp: lifted_def books_def settled_def owns_def quiet_def holds_def)

lemma defer_transfers:
  "triple (books [fd] [] F M) (defer_call (DeferClose fd)) (always (books [] [] F M))"
  "triple (books [] [h] F M) (defer_call (DeferUnmap h)) (always (books [] [] F M))"
  by (auto simp: triple_def defer_call_def books_def)

lemma on_world_acquires:
  "triple (books [] [] F M) (on_world (DialRaw path)) (ends_in (\<lambda>fd. books [fd] [] F M) (books [] [] F M))"
  "triple (books [] [] F M) (on_world (on_sock (ResourceCreateBlob bt fl sz bid))) (ends_in (\<lambda>x. books [snd x] [] F M) (books [] [] F M))"
  "triple (books [fd] [] F M) (on_world (map_blob fd n)) (ends_in (\<lambda>h. books [] [h] F M) (books [] [] F M))"
proof -
  have lift: "triple (books A B F M) (on_world m) (ends_in (\<lambda>x. books (A' x) (B' x) F M) (books [] [] F M))"
    if "\<And>X Y. triple (owns (A @ X) (B @ Y)) m (ends_in (\<lambda>x. owns (A' x @ X) (B' x @ Y)) (owns X Y))" for A B A' B' and m :: "(world, 'c) io"
  proof (rule tripleI)
    fix s r s' assume "books A B F M s" "on_world m s = Some (r, s')"
    then show "ends_in (\<lambda>x. books (A' x) (B' x) F M) (books [] [] F M) r s'"
      by (cases r) (auto simp: on_world_def books_def dest!: tripleD[OF that] split: option.splits)
  qed
  show "triple (books [] [] F M) (on_world (DialRaw path)) (ends_in (\<lambda>fd. books [fd] [] F M) (books [] [] F M))"
    by (rule lift) (simp add: DialRaw_opens)
  show "triple (books [] [] F M) (on_world (on_sock (ResourceCreateBlob bt fl sz bid))) (ends_in (\<lambda>x. books [snd x] [] F M) (books [] [] F M))"
    by (rule lift) (simp add: blob_opens)
  show "triple (books [fd] [] F M) (on_world (map_blob fd n)) (ends_in (\<lambda>h. books [] [h] F M) (books [] [] F M))"
    by (rule lift) (simp add: map_blob_maps)
qed

text \<open>A blob that has arrived, on its way to a mapping.\<close>

lemma blob_then:
  assumes "\<And>a fd. triple (books [fd] [] F M) (k a fd) (ends_in A (books [] [] F M))"
  shows "triple (books [] [] F M) (try_with h (on_world (on_sock (ResourceCreateBlob bt fl sz bid))) (\<lambda>(a, fd). k a fd))
    (ends_in A (books [] [] F M))"
proof (rule triple_try[OF on_world_acquires(2)])
  fix x :: "u32 \<times> nat"
  show "triple (books [snd x] [] F M) (case x of (a, fd) \<Rightarrow> k a fd) (ends_in A (books [] [] F M))"
    using assms by (cases x) simp
qed

text \<open>A step that cannot fail, as those between a mapping and its deferral.\<close>

lemma total_then:
  assumes "\<And>s. \<exists>x s'. m s = Some (Ok x, s') \<and> steady s s'" "\<And>x. triple (books A B F M) (k x) Q"
  shows "triple (books A B F M) (bind_io m k) Q"
proof (rule tripleI)
  fix s r s' assume s: "books A B F M s" and run: "bind_io m k s = Some (r, s')"
  obtain x t where m: "m s = Some (Ok x, t)" "steady s t" using assms(1) by blast
  then have "books A B F M t" using s by (auto simp: lifted_def books_def settled_def owns_def quiet_def holds_def)
  from tripleD[OF assms(2) this] run m(1) show "Q r s'" by simp
qed

lemma set_res_then:
  "triple (books A B F M) k Q \<Longrightarrow> triple (books A B F M) (bind_io (set_res u) (\<lambda>_. k)) Q"
  by (rule total_then) (auto simp: lifted_def settled.refl)

lemma clear_blob_maps:
  "triple (books [] [] F M) (clear_blob f g sz upd) (ends_in (\<lambda>x. books [] [snd x] F M) (books [] [] F M))"
  unfolding clear_blob_def
  by (intro blob_then set_res_then triple_try[OF on_world_acquires(3)] triple_pure) simp

lemma bring_up_books: "triple (books [] [] F M) (clear_bring_up path) (always (books [] [] F M))"
  unfolding clear_bring_up_def Let_def
  by (intro triple_try[OF on_world_acquires(1)] triple_try[OF defer_transfers(1)] triple_try[OF steady_triple] triple_cases
        triple_pure frame_intros quiet_methods)

lemma clear_blob_then:
  assumes "\<And>a mem. triple (books [] [mem] F M) (k a mem) (ends_in A (books [] [] F M))"
  shows "triple (books [] [] F M) (bind_io (clear_blob f g sz upd) (\<lambda>(a, mem). k a mem)) (ends_in A (books [] [] F M))"
proof (rule triple_try[OF clear_blob_maps])
  fix x :: "u32 \<times> nat"
  show "triple (books [] [snd x] F M) (case x of (a, mem) \<Rightarrow> k a mem) (ends_in A (books [] [] F M))"
    using assms by (cases x) simp
qed

lemma ring_setup_books: "triple (books [] [] F M) (clear_ring_setup bufferSize) (always (books [] [] F M))"
  unfolding clear_ring_setup_def
  by (rule clear_blob_then, rule total_then, simp add: on_world_def fill_map_def lifted_def settled_def quiet.refl,
      rule total_then, simp add: lifted_def settled.refl,
      intro triple_try[OF defer_transfers(2)] clear_blob_then triple_try[OF steady_triple] steady_triple
        frame_intros quiet_methods)

lemma readback_books: "triple (books [] [] F M) (step_readback fma width height clear) (always (books [] [] F M))"
  unfolding step_readback_def Let_def
  by (rule triple_try[OF steady_triple], intro frame_intros,
      intro blob_then set_res_then triple_try[OF on_world_acquires(3)] triple_try[OF defer_transfers(2)] triple_try[OF steady_triple]
       triple_cases triple_pure frame_intros)

lemma run_steps_books:
  "list_all (\<lambda>m. triple P m (always P)) ms \<Longrightarrow> triple P (run_steps ms) (always P)"
proof (induction ms)
  case (Cons m ms)
  then have "triple P m (always P)" "triple P (run_steps ms) (always P)" by (simp_all del: always_iff)
  then show ?case unfolding run_steps.simps by (rule triple_try)
qed (simp add: triple_def)

lemma clear_releases:
  assumes "owns F M w" "VenusClearImage cc fma path bufferSize width height clear timeout w = Some (r, w')"
  shows "owns F M w'"
proof -
  let ?ms = "clear_bring_up path # clear_ring_setup bufferSize # clear_steps cc fma width height clear"
  obtain y s where run: "run_steps ?ms (clear_start clear timeout w) = Some (y, s)" "w' = run_defers (cs_defers s) (cs_world s)"
    using assms(2) by (auto simp: VenusClearImage_def split: option.splits res.splits)
  have "list_all (\<lambda>m. triple (books [] [] F M) m (always (books [] [] F M))) (object_steps cc width height @ record_steps cc clear)"
    using settled.lifted_object_steps settled.lifted_record_steps by (auto simp: list_all_iff intro: steady_triple)
  then have "list_all (\<lambda>m. triple (books [] [] F M) m (always (books [] [] F M))) ?ms"
    unfolding clear_steps_split by (simp add: bring_up_books ring_setup_books readback_books)
  from tripleD[OF run_steps_books[OF this] _ run(1)] assms(1) have "books [] [] F M s"
    by (simp add: books_def clear_start_def)
  then show ?thesis by (simp add: run(2) books_def run_defers_releases)
qed

section \<open>Properties\<close>

text \<open>C12. The clear-image driver releases what it acquires: against a server that passes at most one
  descriptor per message, every run of \<open>VenusClearImage\<close> that ends, with a result, with an error at any
  of its steps or in a panic, leaves exactly the descriptors open and the mappings mapped that were
  so before.\<close>

theorem clear_image_releases:
  assumes "lawful (w_sock w)" "VenusClearImage cc fma path bufferSize width height clear timeout w = Some (r, w')"
  shows "open_fds (w_sock w') = open_fds (w_sock w) \<and> w_live w' = w_live w"
proof -
  have "owns (open_fds (w_sock w)) (w_live w) w" using assms(1) by (simp add: owns_def holds_def)
  from clear_releases[OF this assms(2)] show ?thesis by (simp add: owns_def holds_def)
qed

theorem clear_image_releases_witness:
  "\<exists>r w'. VenusClearImage demo_cc False ''/tmp/.virgl_test'' 128 2 1 [1, 0, 0, 1] 1000 clear_world = Some (Ok (r, None), w') \<and>
     open_fds (w_sock w') = [0, 1, 2] \<and> w_live w' = []"
proof -
  obtain r w' where run: "VenusClearImage demo_cc False ''/tmp/.virgl_test'' 128 2 1 [1, 0, 0, 1] 1000 clear_world = Some (Ok (r, None), w')"
    using demo_run by blast
  have "lawful (w_sock clear_world)" by (simp add: lawful_def clear_world_def)
  from clear_image_releases[OF this run] run show ?thesis by (auto simp: clear_world_def)
qed

text \<open>C27. The round trip releases what it acquires: against a server that passes at most one
  descriptor per message, every run of \<open>VenusRingRoundTrip\<close> that ends, early or late, leaves exactly
  the descriptors open and the mappings mapped that were so before.\<close>

theorem round_trip_releases_all:
  assumes "lawful (w_sock w)" "VenusRingRoundTrip path bufferSize extraSize timeout w = Some (r, w')"
  shows "open_fds (w_sock w') = open_fds (w_sock w) \<and> w_live w' = w_live w"
proof -
  have "owns (open_fds (w_sock w)) (w_live w) w" using assms(1) by (simp add: owns_def holds_def)
  from tripleD[OF round_trip_releases this assms(2)] show ?thesis by (simp add: owns_def holds_def)
qed

theorem round_trip_releases_all_witness:
  "\<exists>r w'. VenusRingRoundTrip ''/tmp/.virgl_test'' 256 0 1000 rt_demo_world = Some (r, w') \<and>
     open_fds (w_sock w') = [0, 1, 2] \<and> w_live w' = []"
proof -
  have "VenusRingRoundTrip ''/tmp/.virgl_test'' 256 0 1000 rt_demo_world \<noteq> None" by code_simp
  then obtain r w' where run: "VenusRingRoundTrip ''/tmp/.virgl_test'' 256 0 1000 rt_demo_world = Some (r, w')" by auto
  have "lawful (w_sock rt_demo_world)" by (simp add: lawful_def rt_demo_world_def)
  from round_trip_releases_all[OF this run] run show ?thesis by (auto simp: rt_demo_world_def)
qed

end
