(* ===== verification/Pixel_Grid.thy ===== *)
theory Pixel_Grid
  imports Go_Float
begin

text \<open>
  Shared by the reference renderer and the comparator of \<open>vtest/refrender\<close>: slices with Go's
  bounds check (\<open>None\<close> is the run-time panic), the row-major double loop over a pixel grid, and
  the locale \<open>pixel_writer\<close> for loops whose body sets the cell of its own pixel. Grid dimensions
  are Go \<open>int\<close>s taken as integers: a grid of \<open>w * h\<close> cells fits into memory, so its index
  arithmetic does not overflow.
\<close>

section \<open>Slices\<close>

definition idx_get :: "'a list \<Rightarrow> int \<Rightarrow> 'a option" where
  "idx_get xs k = (if 0 \<le> k \<and> k < int (length xs) then Some (xs ! nat k) else None)"

definition idx_set :: "'a list \<Rightarrow> int \<Rightarrow> 'a \<Rightarrow> 'a list option" where
  "idx_set xs k v = (if 0 \<le> k \<and> k < int (length xs) then Some (xs[nat k := v]) else None)"

text \<open>\<open>make([]T, n)\<close> panics on a negative length.\<close>

definition make_slice :: "int \<Rightarrow> 'a \<Rightarrow> 'a list option" where
  "make_slice n z = (if n < 0 then None else Some (replicate (nat n) z))"

primrec fold_opt :: "('a \<Rightarrow> 's \<Rightarrow> 's option) \<Rightarrow> 'a list \<Rightarrow> 's \<Rightarrow> 's option" where
  "fold_opt f [] s = Some s"
| "fold_opt f (x # xs) s = (case f x s of None \<Rightarrow> None | Some s' \<Rightarrow> fold_opt f xs s')"

lemma fold_opt_total:
  assumes "\<And>x s. x \<in> set xs \<Longrightarrow> P s \<Longrightarrow> f x s = Some (g x s) \<and> P (g x s)" "P s"
  shows "fold_opt f xs s = Some (fold g xs s) \<and> P (fold g xs s)"
  using assms
proof (induction xs arbitrary: s)
  case (Cons x xs)
  have "f x s = Some (g x s)" "P (g x s)" using Cons.prems(1)[of x s] Cons.prems(2) by auto
  with Cons.IH[of "g x s"] Cons.prems(1) show ?case by simp
qed simp

lemma fold_opt_append: "fold_opt f (xs @ ys) s = Option.bind (fold_opt f xs s) (fold_opt f ys)"
  by (induction xs arbitrary: s) (auto split: option.split)

section \<open>The pixel grid\<close>

definition pixels :: "int \<Rightarrow> int \<Rightarrow> (int \<times> int) list" where
  "pixels w h = concat (map (\<lambda>j. map (\<lambda>i. (i, j)) [0..w - 1]) [0..h - 1])"

definition in_grid :: "int \<Rightarrow> int \<Rightarrow> int \<Rightarrow> int \<Rightarrow> bool" where
  "in_grid w h i j \<longleftrightarrow> 0 \<le> i \<and> i < w \<and> 0 \<le> j \<and> j < h"

lemma in_grid_simp: "(ni < 0 \<or> nj < 0 \<or> w \<le> ni \<or> h \<le> nj) \<longleftrightarrow> \<not> in_grid w h ni nj"
  by (auto simp: in_grid_def)

lemma set_pixels: "(i, j) \<in> set (pixels w h) \<longleftrightarrow> in_grid w h i j"
  by (auto simp: pixels_def in_grid_def image_iff)

lemma grid_index:
  assumes "in_grid w h i j"
  shows "0 \<le> j * w + i" "j * w + i < w * h"
proof -
  have "(j + 1) * w \<le> h * w" using assms by (intro mult_right_mono) (auto simp: in_grid_def)
  then show "j * w + i < w * h" using assms by (simp add: algebra_simps in_grid_def)
qed (use assms in \<open>simp add: in_grid_def\<close>)

lemma grid_index_nat: "in_grid w h i j \<Longrightarrow> nat (j * w + i) < nat (w * h)"
  using grid_index[of w h i j] by simp

lemma grid_index_inj:
  assumes "in_grid w h i j" "in_grid w h i' j'" "j * w + i = j' * w + i'"
  shows "i = i' \<and> j = j'"
proof -
  have "j = (j * w + i) div w" "j' = (j' * w + i') div w" using assms(1,2) by (auto simp: in_grid_def)
  with assms(3) show ?thesis by auto
qed

lemma upto_snoc: "0 \<le> n \<Longrightarrow> [0..n] = [0..n - 1] @ [n]"
  by (rule upto_rec2) simp

lemma row_index: "0 \<le> b \<Longrightarrow> map (\<lambda>i. nat (b + i)) [0..int n - 1] = [nat b..<nat b + n]"
proof (induction n)
  case (Suc n)
  then show ?case using upto_snoc[of "int n"] by (simp add: nat_add_distrib)
qed simp

lemma pixels_index:
  assumes "0 \<le> w" "0 \<le> h"
  shows "map (\<lambda>(i, j). nat (j * w + i)) (pixels w h) = [0..<nat (w * h)]"
proof -
  have "map (\<lambda>(i, j). nat (j * w + i)) (pixels w (int n)) = [0..<nat w * n]" for n
  proof (induction n)
    case (Suc n)
    have "map (\<lambda>i. nat (int n * w + i)) [0..int (nat w) - 1] = [nat (int n * w)..<nat (int n * w) + nat w]"
      using assms(1) by (intro row_index) simp
    then have "map (\<lambda>i. nat (int n * w + i)) [0..w - 1] = [nat w * n..<nat w * n + nat w]"
      using assms(1) by (simp add: nat_mult_distrib mult.commute)
    moreover have "pixels w (int (Suc n)) = pixels w (int n) @ map (\<lambda>i. (i, int n)) [0..w - 1]"
      using upto_snoc[of "int n"] by (simp add: pixels_def)
    ultimately show ?case using Suc upt_add_eq_append[of 0 "nat w * n" "nat w"]
      by (simp add: comp_def add.commute)
  qed (simp add: pixels_def)
  from this[of "nat h"] show ?thesis using assms by (simp add: nat_mult_distrib)
qed

lemma length_pixels: "0 \<le> w \<Longrightarrow> 0 \<le> h \<Longrightarrow> length (pixels w h) = nat (w * h)"
  using arg_cong[OF pixels_index[of w h], of length] by simp

lemma pixels_nth:
  assumes "in_grid w h i j"
  shows "pixels w h ! nat (j * w + i) = (i, j)"
proof -
  let ?k = "nat (j * w + i)"
  have wh: "0 \<le> w" "0 \<le> h" using assms by (auto simp: in_grid_def)
  have k: "?k < length (pixels w h)" using grid_index_nat[OF assms] length_pixels[OF wh] by simp
  obtain i' j' where p: "pixels w h ! ?k = (i', j')" by fastforce
  then have in': "in_grid w h i' j'" using k nth_mem set_pixels by metis
  have "nat (j' * w + i') = ?k"
    using arg_cong[OF pixels_index[OF wh], of "\<lambda>xs. xs ! ?k"] k p length_pixels[OF wh] by simp
  then have "j' * w + i' = j * w + i" using grid_index(1)[OF assms] grid_index(1)[OF in'] by linarith
  with grid_index_inj[OF in' assms] p show ?thesis by simp
qed

lemma distinct_pixels: "0 \<le> w \<Longrightarrow> 0 \<le> h \<Longrightarrow> distinct (pixels w h)"
  using pixels_index[of w h] distinct_upt[of 0 "nat (w * h)"] by (metis distinct_map)

text \<open>The grid that holds \<open>f i j\<close> at pixel \<open>(i, j)\<close>.\<close>

definition grid_image :: "int \<Rightarrow> int \<Rightarrow> (int \<Rightarrow> int \<Rightarrow> 'a) \<Rightarrow> 'a list" where
  "grid_image w h f = map (\<lambda>(i, j). f i j) (pixels w h)"

lemma length_grid_image [simp]: "0 \<le> w \<Longrightarrow> 0 \<le> h \<Longrightarrow> length (grid_image w h f) = nat (w * h)"
  by (simp add: grid_image_def length_pixels)

lemma nth_grid_image: "in_grid w h i j \<Longrightarrow> grid_image w h f ! nat (j * w + i) = f i j"
  using grid_index_nat[of w h i j] by (simp add: grid_image_def length_pixels pixels_nth in_grid_def)

lemma idx_get_grid_image:
  "in_grid w h i j \<Longrightarrow> idx_get (grid_image w h f) (j * w + i) = Some (f i j)"
  using grid_index[of w h i j] by (simp add: idx_get_def nth_grid_image in_grid_def)

section \<open>Loops that write their own pixel\<close>

text \<open>The interface between the grid loops and their clients: for a parameter \<open>p\<close> of the loop, the
  body at a pixel whose cell still has its initial value stores \<open>val p i j\<close> there.\<close>

locale pixel_writer =
  fixes dims :: "'p \<Rightarrow> int \<times> int" and ok :: "'p \<Rightarrow> bool" and init :: "'b"
    and step :: "'p \<Rightarrow> int \<times> int \<Rightarrow> 'b list \<Rightarrow> 'b list option" and val :: "'p \<Rightarrow> int \<Rightarrow> int \<Rightarrow> 'b"
  assumes dims_pos: "ok p \<Longrightarrow> 0 \<le> fst (dims p) \<and> 0 \<le> snd (dims p)"
    and step_writes: "ok p \<Longrightarrow> in_grid (fst (dims p)) (snd (dims p)) i j \<Longrightarrow>
      length xs = nat (fst (dims p) * snd (dims p)) \<Longrightarrow> xs ! nat (j * fst (dims p) + i) = init \<Longrightarrow>
      step p (i, j) xs = Some (xs[nat (j * fst (dims p) + i) := val p i j])"
begin

lemma scan:
  assumes "ok p" and wh: "dims p = (w, h)"
  shows "fold_opt (step p) (pixels w h) (replicate (nat (w * h)) init) = Some (grid_image w h (val p))"
proof -
  have pos: "0 \<le> w" "0 \<le> h" using dims_pos[OF assms(1)] wh by auto
  have "fold_opt (step p) (take k (pixels w h)) (replicate (nat (w * h)) init) =
      Some (take k (grid_image w h (val p)) @ replicate (nat (w * h) - k) init)" if "k \<le> nat (w * h)" for k
    using that
  proof (induction k)
    case (Suc k)
    then have k: "k < length (pixels w h)" by (simp add: length_pixels[OF pos])
    obtain i j where ij: "pixels w h ! k = (i, j)" by fastforce
    then have g: "in_grid w h i j" using k nth_mem set_pixels by metis
    have ix: "nat (j * w + i) = k"
      using arg_cong[OF pixels_index[OF pos], of "\<lambda>xs. xs ! k"] k ij length_pixels[OF pos] by simp
    let ?xs = "take k (grid_image w h (val p)) @ replicate (nat (w * h) - k) init"
    have lk: "length (take k (grid_image w h (val p))) = k" using Suc.prems pos by simp
    have len: "length ?xs = nat (w * h)" using Suc.prems pos by simp
    have cell: "?xs ! k = init" using Suc.prems lk by (simp add: nth_append)
    have "step p (i, j) ?xs = Some (?xs[k := val p i j])"
      using step_writes[OF assms(1), of i j ?xs] g len cell ix wh by simp
    moreover have "?xs[k := val p i j] = take (Suc k) (grid_image w h (val p)) @ replicate (nat (w * h) - Suc k) init"
    proof -
      have "replicate (nat (w * h) - k) init = init # replicate (nat (w * h) - Suc k) init"
        using Suc.prems by (metis Suc_diff_Suc Suc_le_lessD replicate_Suc)
      moreover have "take (Suc k) (grid_image w h (val p)) = take k (grid_image w h (val p)) @ [val p i j]"
        using take_Suc_conv_app_nth[of k "grid_image w h (val p)"] k nth_grid_image[OF g, of "val p"] ix
        by (simp add: grid_image_def ij)
      ultimately show ?thesis using lk by (simp add: list_update_append)
    qed
    ultimately show ?case
      using Suc by (simp add: take_Suc_conv_app_nth[OF k] ij fold_opt_append)
  qed simp
  from this[of "nat (w * h)"] show ?thesis by (simp add: length_pixels[OF pos] pos)
qed

end

end
