(* ===== verification/Ref_Compare.thy ===== *)
theory Ref_Compare
  imports Pixel_Grid
begin

text \<open>
  The comparator of \<open>vtest/refrender/compare.go\<close>: coverage and colour of a readback against the
  reference image. The loops are folds over the pixels in row-major order; an index out of range
  is \<open>None\<close>. A percentage is a \<open>float64\<close>, \<open>None\<close> for NaN. The lines of \<open>Summary\<close> are kept as
  format string and arguments.
\<close>

section \<open>Data\<close>

datatype BGRA = BGRA byte byte byte byte

fun chan :: "BGRA \<Rightarrow> nat \<Rightarrow> byte" where
  "chan (BGRA b g r a) k = [b, g, r, a] ! k"

record Coverage =
  cv_W :: int
  cv_H :: int
  cv_In :: "bool list"

record PixelDiff =
  pd_X :: int
  pd_Y :: int
  pd_Real :: BGRA
  pd_Ref :: BGRA
  pd_Kind :: string

record Result =
  rs_W :: int
  rs_H :: int
  rs_RefInterior :: int
  rs_CovMatch :: int
  rs_CovMismatch :: int
  rs_CovMatchPct :: "rat option"
  rs_CovExactMatch :: int
  rs_CovExactPct :: "rat option"
  rs_MaxColourDelta :: int
  rs_InteriorTested :: int
  rs_Diffs :: "PixelDiff list"
  rs_Pass :: bool

definition result_zero :: "int \<Rightarrow> int \<Rightarrow> Result" where
  "result_zero w h = \<lparr>rs_W = w, rs_H = h, rs_RefInterior = 0, rs_CovMatch = 0, rs_CovMismatch = 0,
     rs_CovMatchPct = Some 0, rs_CovExactMatch = 0, rs_CovExactPct = Some 0, rs_MaxColourDelta = 0,
     rs_InteriorTested = 0, rs_Diffs = [], rs_Pass = False\<rparr>"

section \<open>Operations\<close>

definition isBG :: "BGRA \<Rightarrow> BGRA \<Rightarrow> bool" where
  "isBG p bg = (p = bg)"

definition appendDiff :: "int \<Rightarrow> PixelDiff \<Rightarrow> Result \<Rightarrow> Result" where
  "appendDiff mx d r = (if int (length (rs_Diffs r)) < mx then r\<lparr>rs_Diffs := rs_Diffs r @ [d]\<rparr> else r)"

primrec channel_loop :: "BGRA \<Rightarrow> BGRA \<Rightarrow> nat list \<Rightarrow> int \<Rightarrow> int" where
  "channel_loop a b [] m = m"
| "channel_loop a b (k # ks) m =
     (let d = uint (chan a k) - uint (chan b k);
          d = (if d < 0 then - d else d)
      in channel_loop a b ks (if m < d then d else m))"

definition maxChannelDelta :: "BGRA \<Rightarrow> BGRA \<Rightarrow> int" where
  "maxChannelDelta a b = channel_loop a b [0, 1, 2, 3] 0"

text \<open>The scan of the four neighbours, left at the first one that differs.\<close>

fun neighbour_scan :: "bool list \<Rightarrow> int \<Rightarrow> int \<Rightarrow> int \<Rightarrow> int \<Rightarrow> bool \<Rightarrow> (int \<times> int) list \<Rightarrow> bool option" where
  "neighbour_scan xs w h i j inn [] = Some False"
| "neighbour_scan xs w h i j inn ((di, dj) # ds) =
     (let ni = i + di; nj = j + dj in
      if ni < 0 \<or> nj < 0 \<or> w \<le> ni \<or> h \<le> nj then neighbour_scan xs w h i j inn ds
      else case idx_get xs (nj * w + ni) of
        None \<Rightarrow> None
      | Some v \<Rightarrow> if v \<noteq> inn then Some True else neighbour_scan xs w h i j inn ds)"

definition edge_step :: "Coverage \<Rightarrow> int \<times> int \<Rightarrow> bool list \<Rightarrow> bool list option" where
  "edge_step cov = (\<lambda>(i, j) edge. do {
     let w = cv_W cov; let h = cv_H cov;
     inn \<leftarrow> idx_get (cv_In cov) (j * w + i);
     b \<leftarrow> neighbour_scan (cv_In cov) w h i j inn [(1, 0), (-1, 0), (0, 1), (0, -1)];
     idx_set edge (j * w + i) b })"

definition dilate_cell :: "int \<Rightarrow> int \<Rightarrow> int \<Rightarrow> int \<Rightarrow> int \<times> int \<Rightarrow> bool list \<Rightarrow> bool list option" where
  "dilate_cell w h i j = (\<lambda>(dj, di) band.
     let ni = i + di; nj = j + dj in
     if ni < 0 \<or> nj < 0 \<or> w \<le> ni \<or> h \<le> nj then Some band else idx_set band (nj * w + ni) True)"

definition dilate_step :: "int \<Rightarrow> int \<Rightarrow> int \<Rightarrow> bool list \<Rightarrow> int \<times> int \<Rightarrow> bool list \<Rightarrow> bool list option" where
  "dilate_step w h tol edge = (\<lambda>(i, j) band. do {
     e \<leftarrow> idx_get edge (j * w + i);
     if \<not> e then Some band
     else fold_opt (dilate_cell w h i j) (concat (map (\<lambda>dj. map (\<lambda>di. (dj, di)) [- tol..tol]) [- tol..tol])) band })"

definition boundaryBand :: "Coverage \<Rightarrow> int \<Rightarrow> bool list option" where
  "boundaryBand cov tol = do {
     let w = cv_W cov; let h = cv_H cov;
     edge0 \<leftarrow> make_slice (w * h) False;
     edge \<leftarrow> fold_opt (edge_step cov) (pixels w h) edge0;
     if tol \<le> 0 then Some edge
     else do {
       band0 \<leftarrow> make_slice (w * h) False;
       fold_opt (dilate_step w h tol edge) (pixels w h) band0 } }"

text \<open>\<open>res.appendDiff(maxDiffs, PixelDiff{..., Kind: "coverage"})\<close>\<close>

definition mismatch_diff :: "BGRA list \<Rightarrow> int \<Rightarrow> int \<Rightarrow> int \<Rightarrow> int \<Rightarrow> BGRA \<Rightarrow> Result \<Rightarrow> Result option" where
  "mismatch_diff ref maxDiffs i j idx p res = do {
     q \<leftarrow> idx_get ref idx;
     Some (appendDiff maxDiffs \<lparr>pd_X = i, pd_Y = j, pd_Real = p, pd_Ref = q, pd_Kind = ''coverage''\<rparr> res) }"

definition compare_step :: "BGRA list \<Rightarrow> BGRA list \<Rightarrow> Coverage \<Rightarrow> BGRA \<Rightarrow> int \<Rightarrow> int \<Rightarrow> bool list \<Rightarrow>
    int \<times> int \<Rightarrow> Result \<Rightarrow> Result option" where
  "compare_step realPx ref cov bg colourTol maxDiffs near = (\<lambda>(i, j) res. do {
     let idx = j * cv_W cov + i;
     refIn \<leftarrow> idx_get (cv_In cov) idx;
     p \<leftarrow> idx_get realPx idx;
     let realIn = (\<not> isBG p bg);
     let res = (if refIn then res\<lparr>rs_RefInterior := rs_RefInterior res + 1\<rparr> else res);
     let res = (if refIn = realIn then res\<lparr>rs_CovExactMatch := rs_CovExactMatch res + 1\<rparr> else res);
     covOK \<leftarrow> (if refIn = realIn then Some True else idx_get near idx);
     res \<leftarrow> (if refIn then
         (if covOK then Some (res\<lparr>rs_CovMatch := rs_CovMatch res + 1\<rparr>)
          else mismatch_diff ref maxDiffs i j idx p (res\<lparr>rs_CovMismatch := rs_CovMismatch res + 1\<rparr>))
       else if \<not> covOK then mismatch_diff ref maxDiffs i j idx p (res\<lparr>rs_CovMismatch := rs_CovMismatch res + 1\<rparr>)
       else Some res);
     if refIn \<and> realIn then do {
       q \<leftarrow> idx_get ref idx;
       let res = res\<lparr>rs_InteriorTested := rs_InteriorTested res + 1\<rparr>;
       let d = maxChannelDelta p q;
       let res = (if rs_MaxColourDelta res < d then res\<lparr>rs_MaxColourDelta := d\<rparr> else res);
       Some (if colourTol < d
         then appendDiff maxDiffs \<lparr>pd_X = i, pd_Y = j, pd_Real = p, pd_Ref = q, pd_Kind = ''colour''\<rparr> res
         else res) }
     else Some res })"

text \<open>\<open>float64(a) / float64(b) * 100\<close>; \<open>0 / 0\<close> is NaN. A nonzero count over an empty grid does not
  occur.\<close>

definition percent :: "int \<Rightarrow> int \<Rightarrow> rat option" where
  "percent a b = (if b = 0 then None
     else Some (rnd64 (rnd64 (rnd64 (of_int a) / rnd64 (of_int b)) * 100)))"

definition compare :: "BGRA list \<Rightarrow> BGRA list \<Rightarrow> Coverage \<Rightarrow> BGRA \<Rightarrow> int \<Rightarrow> int \<Rightarrow> int \<Rightarrow> Result option" where
  "compare realPx ref cov bg edgeTol colourTol maxDiffs = do {
     let w = cv_W cov; let h = cv_H cov;
     near \<leftarrow> boundaryBand cov edgeTol;
     res \<leftarrow> fold_opt (compare_step realPx ref cov bg colourTol maxDiffs near) (pixels w h) (result_zero w h);
     let res = (if 0 < rs_RefInterior res
       then res\<lparr>rs_CovMatchPct := percent (rs_CovMatch res) (rs_RefInterior res)\<rparr>
       else res\<lparr>rs_CovMatchPct := Some 100\<rparr>);
     let res = res\<lparr>rs_CovExactPct := percent (rs_CovExactMatch res) (w * h)\<rparr>;
     Some (res\<lparr>rs_Pass := rs_CovMismatch res = 0 \<and> rs_MaxColourDelta res \<le> colourTol\<rparr>) }"

definition ascii_row :: "bool list \<Rightarrow> int \<Rightarrow> int \<Rightarrow> string \<Rightarrow> string option" where
  "ascii_row xs w j out = do {
     out \<leftarrow> fold_opt (\<lambda>i out. do {
       b \<leftarrow> idx_get xs (j * w + i);
       Some (out @ (if b then ''#'' else ''.'')) }) [0..w - 1] out;
     Some (out @ [CHR 0x0A]) }"

definition ASCIIMap :: "bool list \<Rightarrow> int \<Rightarrow> int \<Rightarrow> string option" where
  "ASCIIMap xs w h = do {
     _ \<leftarrow> make_slice ((w + 1) * h) (CHR 0x00);
     fold_opt (ascii_row xs w) [0..h - 1] [] }"

definition CoverageOf :: "BGRA list \<Rightarrow> BGRA \<Rightarrow> bool list" where
  "CoverageOf px bg = map (\<lambda>p. \<not> isBG p bg) px"

datatype report_arg = RNum int | RFlt "rat option" | RStr string

definition Summary :: "Result \<Rightarrow> (string \<times> report_arg list) list" where
  "Summary r = [(''coverage: ref-interior=%d px, tolerant-match=%d (%.1f%%), exact-match=%d/%d (%.1f%%), mismatch=%d'' @ [CHR 0x0A],
       [RNum (rs_RefInterior r), RNum (rs_CovMatch r), RFlt (rs_CovMatchPct r), RNum (rs_CovExactMatch r),
        RNum (rs_W r * rs_H r), RFlt (rs_CovExactPct r), RNum (rs_CovMismatch r)]),
     (''colour: strict-interior pixels tested=%d, max per-channel delta=%d'' @ [CHR 0x0A],
       [RNum (rs_InteriorTested r), RNum (rs_MaxColourDelta r)])] @
     map (\<lambda>d. (''  DIFF[%s] (%d,%d) real=%02X%02X%02X%02X ref=%02X%02X%02X%02X'' @ [CHR 0x0A],
       [RStr (pd_Kind d), RNum (pd_X d), RNum (pd_Y d)] @
       map (\<lambda>k. RNum (uint (chan (pd_Real d) k))) [0, 1, 2, 3] @
       map (\<lambda>k. RNum (uint (chan (pd_Ref d) k))) [0, 1, 2, 3])) (rs_Diffs r)"

definition bgra_at :: "bytes \<Rightarrow> nat \<Rightarrow> BGRA" where
  "bgra_at b i = BGRA (b ! (i * 4)) (b ! (i * 4 + 1)) (b ! (i * 4 + 2)) (b ! (i * 4 + 3))"

definition BytesToBGRA :: "bytes \<Rightarrow> BGRA list" where
  "BytesToBGRA b = map (bgra_at b) [0..<length b div 4]"

definition Compare :: "bytes \<Rightarrow> BGRA list \<Rightarrow> Coverage \<Rightarrow> BGRA \<Rightarrow> int \<Rightarrow> int \<Rightarrow> int \<Rightarrow> Result option" where
  "Compare realBytes ref cov bg edgeTol colourTol maxDiffs =
     compare (BytesToBGRA realBytes) ref cov bg edgeTol colourTol maxDiffs"

end
