(* ===== verification/Ref_Render.thy ===== *)
theory Ref_Render
  imports Ref_Compare
begin

text \<open>
  The reference renderer of \<open>vtest/refrender/refrender.go\<close>. Every floating-point operation of the
  source is the exact operation on rationals followed by its rounding. Go allows a compiler to
  fuse a product into the following addition; \<open>fu\<close> says which product of an expression is
  fused, if any, and is a parameter of every function. A fixed-size array of three vertices is a
  triple. Slices follow \<open>Pixel_Grid\<close>: \<open>None\<close> is a run-time panic.
\<close>

section \<open>Floating-point expressions\<close>

datatype fuse = NoFuse | FuseL | FuseR

text \<open>\<open>a*b + c\<close>, \<open>a*b + c*d\<close> and \<open>a*b - c*d\<close> in \<open>float64\<close>.\<close>

definition mul_add :: "fuse \<Rightarrow> rat \<Rightarrow> rat \<Rightarrow> rat \<Rightarrow> rat" where
  "mul_add fu a b c = rnd64 ((if fu = NoFuse then rnd64 (a * b) else a * b) + c)"

definition mul_add2 :: "fuse \<Rightarrow> rat \<Rightarrow> rat \<Rightarrow> rat \<Rightarrow> rat \<Rightarrow> rat" where
  "mul_add2 fu a b c d = rnd64 ((if fu = FuseL then a * b else rnd64 (a * b)) +
     (if fu = FuseR then c * d else rnd64 (c * d)))"

definition mul_sub2 :: "fuse \<Rightarrow> rat \<Rightarrow> rat \<Rightarrow> rat \<Rightarrow> rat \<Rightarrow> rat" where
  "mul_sub2 fu a b c d = rnd64 ((if fu = FuseL then a * b else rnd64 (a * b)) -
     (if fu = FuseR then c * d else rnd64 (c * d)))"

definition float64_of_int :: "int \<Rightarrow> rat" where "float64_of_int n = rnd64 (of_int n)"
definition float32_of_int :: "int \<Rightarrow> rat" where "float32_of_int n = rnd32 (of_int n)"

text \<open>\<open>math.Round\<close> rounds half away from zero.\<close>

definition math_Round :: "rat \<Rightarrow> int" where
  "math_Round x = (if 0 \<le> x then \<lfloor>x + 1 / 2\<rfloor> else - \<lfloor>- x + 1 / 2\<rfloor>)"

section \<open>The renderer\<close>

record Viewport =
  ScaleX :: rat
  ScaleY :: rat
  TranslateX :: rat
  TranslateY :: rat

definition ViewportFor :: "int \<Rightarrow> int \<Rightarrow> Viewport" where
  "ViewportFor w h = \<lparr>ScaleX = rnd32 (float32_of_int w / 2), ScaleY = rnd32 (float32_of_int h / 2),
     TranslateX = rnd32 (float32_of_int w / 2), TranslateY = rnd32 (float32_of_int h / 2)\<rparr>"

record Vertex =
  vX :: rat
  vY :: rat
  vU :: rat
  vV :: rat

definition window :: "fuse \<Rightarrow> Viewport \<Rightarrow> Vertex \<Rightarrow> rat \<times> rat" where
  "window fu vp v = (mul_add fu (vX v) (ScaleX vp) (TranslateX vp), mul_add fu (vY v) (ScaleY vp) (TranslateY vp))"

record bary =
  b_a :: rat
  b_b :: rat
  b_c :: rat

definition bary_zero :: bary where "bary_zero = \<lparr>b_a = 0, b_b = 0, b_c = 0\<rparr>"

definition edge :: "fuse \<Rightarrow> rat \<Rightarrow> rat \<Rightarrow> rat \<Rightarrow> rat \<Rightarrow> rat \<Rightarrow> rat \<Rightarrow> rat" where
  "edge fu ax ay bx byy cx cy =
     mul_sub2 fu (rnd64 (bx - ax)) (rnd64 (cy - ay)) (rnd64 (byy - ay)) (rnd64 (cx - ax))"

text \<open>The body of the pixel loop: the three edge functions at the centre of pixel \<open>(i, j)\<close>, whether
  it is inside, and its weights.\<close>

definition pixel_edges :: "fuse \<Rightarrow> (rat \<times> rat) \<times> (rat \<times> rat) \<times> (rat \<times> rat) \<Rightarrow> int \<Rightarrow> int \<Rightarrow> rat \<times> rat \<times> rat" where
  "pixel_edges fu = (\<lambda>((x0, y0), (x1, y1), (x2, y2)) i j.
     let py = rnd64 (float64_of_int j + 1 / 2); px = rnd64 (float64_of_int i + 1 / 2) in
     (edge fu x1 y1 x2 y2 px py, edge fu x2 y2 x0 y0 px py, edge fu x0 y0 x1 y1 px py))"

definition pixel_inside :: "rat \<Rightarrow> rat \<times> rat \<times> rat \<Rightarrow> bool" where
  "pixel_inside area = (\<lambda>(w0, w1, w2).
     if 0 < area then 0 \<le> w0 \<and> 0 \<le> w1 \<and> 0 \<le> w2 else w0 \<le> 0 \<and> w1 \<le> 0 \<and> w2 \<le> 0)"

definition raster_step :: "fuse \<Rightarrow> (rat \<times> rat) \<times> (rat \<times> rat) \<times> (rat \<times> rat) \<Rightarrow> rat \<Rightarrow> int \<Rightarrow>
    int \<times> int \<Rightarrow> bool list \<times> bary list \<Rightarrow> (bool list \<times> bary list) option" where
  "raster_step fu tri area w = (\<lambda>(i, j) (inn, bw).
     let (w0, w1, w2) = pixel_edges fu tri i j in
     if pixel_inside area (w0, w1, w2) then do {
       let idx = j * w + i;
       inn \<leftarrow> idx_set inn idx True;
       bw \<leftarrow> idx_set bw idx \<lparr>b_a = rnd64 (w0 / area), b_b = rnd64 (w1 / area), b_c = rnd64 (w2 / area)\<rparr>;
       Some (inn, bw) }
     else Some (inn, bw))"

definition rasterise :: "fuse \<Rightarrow> Viewport \<Rightarrow> Vertex \<Rightarrow> Vertex \<Rightarrow> Vertex \<Rightarrow> int \<Rightarrow> int \<Rightarrow> (Coverage \<times> bary list) option" where
  "rasterise fu vp v0 v1 v2 w h = do {
     let (x0, y0) = window fu vp v0; let (x1, y1) = window fu vp v1; let (x2, y2) = window fu vp v2;
     let area = edge fu x0 y0 x1 y1 x2 y2;
     inn \<leftarrow> make_slice (w * h) False;
     bw \<leftarrow> make_slice (w * h) bary_zero;
     if area = 0 then Some (\<lparr>cv_W = w, cv_H = h, cv_In = inn\<rparr>, bw)
     else do {
       (inn, bw) \<leftarrow> fold_opt (raster_step fu ((x0, y0), (x1, y1), (x2, y2)) area w) (pixels w h) (inn, bw);
       Some (\<lparr>cv_W = w, cv_H = h, cv_In = inn\<rparr>, bw) } }"

definition roundUnit :: "rat \<Rightarrow> rat" where
  "roundUnit x = (let r = of_int (math_Round x) in if r < 0 then 0 else if 255 < r then 255 else r)"

text \<open>\<open>byte(f)\<close> of a float that holds an integer.\<close>

definition byte_of_float :: "rat \<Rightarrow> byte" where "byte_of_float f = of_int \<lfloor>f\<rfloor>"

definition rgbaFloatToBGRA :: "rat \<times> rat \<times> rat \<times> rat \<Rightarrow> BGRA" where
  "rgbaFloatToBGRA = (\<lambda>(c0, c1, c2, c3). BGRA (byte_of_float (roundUnit (rnd64 (c2 * 255))))
     (byte_of_float (roundUnit (rnd64 (c1 * 255)))) (byte_of_float (roundUnit (rnd64 (c0 * 255))))
     (byte_of_float (roundUnit (rnd64 (c3 * 255)))))"

text \<open>\<open>for idx := 0; idx < n; idx++ { out[idx] = f(idx) }\<close>\<close>

definition fill_loop :: "int \<Rightarrow> (int \<Rightarrow> 'a option) \<Rightarrow> 'a list \<Rightarrow> 'a list option" where
  "fill_loop n f = fold_opt (\<lambda>idx out. do { p \<leftarrow> f idx; idx_set out idx p }) [0..n - 1]"

definition black :: BGRA where "black = BGRA 0 0 0 0"

definition DrawReference :: "fuse \<Rightarrow> Viewport \<Rightarrow> Vertex \<times> Vertex \<times> Vertex \<Rightarrow> rat \<times> rat \<times> rat \<times> rat \<Rightarrow> BGRA \<Rightarrow>
    int \<Rightarrow> int \<Rightarrow> (BGRA list \<times> Coverage) option" where
  "DrawReference fu vp v flatColor bg w h = do {
     let (v0, v1, v2) = v;
     (cov, _) \<leftarrow> rasterise fu vp v0 v1 v2 w h;
     out \<leftarrow> make_slice (w * h) black;
     let fill = rgbaFloatToBGRA flatColor;
     out \<leftarrow> fill_loop (w * h) (\<lambda>idx. do { b \<leftarrow> idx_get (cv_In cov) idx; Some (if b then fill else bg) }) out;
     Some (out, cov) }"

datatype Filter = Nearest | Linear

definition clampInt :: "int \<Rightarrow> int \<Rightarrow> int \<Rightarrow> int" where
  "clampInt x lo hi = (if x < lo then lo else if hi < x then hi else x)"

definition texelBGRA :: "bytes \<Rightarrow> int \<Rightarrow> int \<Rightarrow> int \<Rightarrow> BGRA option" where
  "texelBGRA tex texW ix iy = do {
     let off = (iy * texW + ix) * 4;
     b \<leftarrow> idx_get tex (off + 2);
     g \<leftarrow> idx_get tex (off + 1);
     r \<leftarrow> idx_get tex (off + 0);
     a \<leftarrow> idx_get tex (off + 3);
     Some (BGRA b g r a) }"

definition texelRGBAf :: "bytes \<Rightarrow> int \<Rightarrow> int \<Rightarrow> int \<Rightarrow> rat list option" where
  "texelRGBAf tex texW ix iy = do {
     let off = (iy * texW + ix) * 4;
     r \<leftarrow> idx_get tex (off + 0);
     g \<leftarrow> idx_get tex (off + 1);
     b \<leftarrow> idx_get tex (off + 2);
     a \<leftarrow> idx_get tex (off + 3);
     Some [of_int (uint r), of_int (uint g), of_int (uint b), of_int (uint a)] }"

definition blend :: "fuse \<Rightarrow> rat \<Rightarrow> rat \<Rightarrow> rat list \<Rightarrow> rat list \<Rightarrow> rat list \<Rightarrow> rat list \<Rightarrow> nat \<Rightarrow> rat" where
  "blend fu dx dy c00 c10 c01 c11 k = (
     let top = mul_add2 fu (c00 ! k) (rnd64 (1 - dx)) (c10 ! k) dx;
         bot = mul_add2 fu (c01 ! k) (rnd64 (1 - dx)) (c11 ! k) dx
     in mul_add2 fu top (rnd64 (1 - dy)) bot dy)"

definition sample :: "fuse \<Rightarrow> bytes \<Rightarrow> int \<Rightarrow> int \<Rightarrow> rat \<Rightarrow> rat \<Rightarrow> Filter \<Rightarrow> BGRA option" where
  "sample fu tex texW texH u v flt =
     (if flt = Nearest then do {
        let ix = clampInt \<lfloor>rnd64 (u * float64_of_int texW)\<rfloor> 0 (texW - 1);
        let iy = clampInt \<lfloor>rnd64 (v * float64_of_int texH)\<rfloor> 0 (texH - 1);
        texelBGRA tex texW ix iy }
      else do {
        let fx = mul_add fu u (float64_of_int texW) (- (1 / 2));
        let fy = mul_add fu v (float64_of_int texH) (- (1 / 2));
        let x0 = \<lfloor>fx\<rfloor>;
        let y0 = \<lfloor>fy\<rfloor>;
        let dx = rnd64 (fx - float64_of_int x0);
        let dy = rnd64 (fy - float64_of_int y0);
        let x0c = clampInt x0 0 (texW - 1);
        let x1c = clampInt (x0 + 1) 0 (texW - 1);
        let y0c = clampInt y0 0 (texH - 1);
        let y1c = clampInt (y0 + 1) 0 (texH - 1);
        c00 \<leftarrow> texelRGBAf tex texW x0c y0c;
        c10 \<leftarrow> texelRGBAf tex texW x1c y0c;
        c01 \<leftarrow> texelRGBAf tex texW x0c y1c;
        c11 \<leftarrow> texelRGBAf tex texW x1c y1c;
        let rgba = map (blend fu dx dy c00 c10 c01 c11) [0, 1, 2, 3];
        Some (BGRA (byte_of_float (roundUnit (rgba ! 2))) (byte_of_float (roundUnit (rgba ! 1)))
          (byte_of_float (roundUnit (rgba ! 0))) (byte_of_float (roundUnit (rgba ! 3)))) })"

text \<open>\<open>b.a*x + b.b*y + b.c*z\<close>\<close>

definition interpolate :: "fuse \<Rightarrow> bary \<Rightarrow> rat \<Rightarrow> rat \<Rightarrow> rat \<Rightarrow> rat" where
  "interpolate fu b x y z = mul_add fu (b_c b) z (mul_add2 fu (b_a b) x (b_b b) y)"

definition TexReference :: "fuse \<Rightarrow> Viewport \<Rightarrow> Vertex \<times> Vertex \<times> Vertex \<Rightarrow> bytes \<Rightarrow> int \<Rightarrow> int \<Rightarrow> Filter \<Rightarrow> BGRA \<Rightarrow>
    int \<Rightarrow> int \<Rightarrow> (BGRA list \<times> Coverage) option" where
  "TexReference fu vp v tex texW texH flt bg w h = do {
     let (v0, v1, v2) = v;
     (cov, bw) \<leftarrow> rasterise fu vp v0 v1 v2 w h;
     out \<leftarrow> make_slice (w * h) black;
     out \<leftarrow> fill_loop (w * h) (\<lambda>idx. do {
       inn \<leftarrow> idx_get (cv_In cov) idx;
       if \<not> inn then Some bg
       else do {
         b \<leftarrow> idx_get bw idx;
         let u = interpolate fu b (vU v0) (vU v1) (vU v2);
         let vv = interpolate fu b (vV v0) (vV v1) (vV v2);
         sample fu tex texW texH u vv flt } }) out;
     Some (out, cov) }"

end
