(* ===== verification/Validator.thy ===== *)
theory Validator
  imports Vtest_Client Ref_Render
begin

text \<open>
  The validator command of \<open>vtest/cmd/validator/main.go\<close>: it replays a command buffer against a
  vtest server and compares the readback with the reference image. \<open>main\<close> is a computation over
  the connection that returns the exit code; the files it reads and \<open>net.Dial\<close> are
  arguments. Printing is left out, except that the maps \<open>dumpGrids\<close> prints are computed, since that
  can panic. The connection \<open>vtest.Dial\<close> returns is a \<open>net.Conn\<close>: it delivers the incoming
  bytes in pieces and accepts every write.
\<close>

section \<open>The connection\<close>

record netconn =
  nc_in :: "bytes list"
  nc_out :: bytes

definition netconn_rw :: "netconn ReadWriter" where
  "netconn_rw = \<lparr>rw_Write = \<lambda>p s. Some ((length p, None), s\<lparr>nc_out := nc_out s @ p\<rparr>),
     rw_Read = \<lambda>n s. case nc_in s of
       [] \<Rightarrow> None
     | c # cs \<Rightarrow> Some ((take n c, None), s\<lparr>nc_in := (if length c \<le> n then cs else drop n c # cs)\<rparr>)\<rparr>"

section \<open>References for the fixtures\<close>

definition gpuVerts :: "Vertex \<times> Vertex \<times> Vertex" where
  "gpuVerts = (\<lparr>vX = 0, vY = 1 / 2, vU = 1 / 2, vV = 1\<rparr>, \<lparr>vX = - (1 / 2), vY = - (1 / 2), vU = 0, vV = 0\<rparr>,
     \<lparr>vX = 1 / 2, vY = - (1 / 2), vU = 1, vV = 0\<rparr>)"

definition gpuFlatColor :: "rat \<times> rat \<times> rat \<times> rat" where "gpuFlatColor = (1 / 4, 1 / 2, 3 / 4, 1)"
definition gpuBG :: BGRA where "gpuBG = BGRA 0 0 0 0"
definition edgeTol :: int where "edgeTol = 1"
definition drawColourTol :: int where "drawColourTol = 2"
definition texColourTol :: int where "texColourTol = 4"
definition maxDiffs :: int where "maxDiffs = 64"

definition dumpGrids :: "bytes \<Rightarrow> bool list \<Rightarrow> int \<Rightarrow> int \<Rightarrow> BGRA \<Rightarrow> (string \<times> string) option" where
  "dumpGrids realPx refIn w h bg = do {
     let realIn = CoverageOf (BytesToBGRA realPx) bg;
     a \<leftarrow> ASCIIMap realIn w h;
     b \<leftarrow> ASCIIMap refIn w h;
     Some (a, b) }"

text \<open>The loop of \<open>assertClearExact\<close>: the number of pixels that are not red and the first of them;
  \<open>i % w\<close> panics for \<open>w = 0\<close>.\<close>

definition red :: BGRA where "red = BGRA 0x00 0x00 0xFF 0xFF"

fun clear_loop :: "int \<Rightarrow> int \<Rightarrow> BGRA list \<Rightarrow> int \<Rightarrow> PixelDiff option \<Rightarrow> (int \<times> PixelDiff option) option" where
  "clear_loop w i [] bad first = Some (bad, first)"
| "clear_loop w i (p # px) bad first =
     (if p \<noteq> red
      then if bad = 0
        then if w = 0 then None
          else clear_loop w (i + 1) px (bad + 1)
            (Some \<lparr>pd_X = i mod w, pd_Y = i div w, pd_Real = p, pd_Ref = red, pd_Kind = ''''\<rparr>)
        else clear_loop w (i + 1) px (bad + 1) first
      else clear_loop w (i + 1) px bad first)"

definition assertClearExact :: "bytes \<Rightarrow> int \<Rightarrow> int \<Rightarrow> nat option" where
  "assertClearExact readback w h = do {
     (bad, first) \<leftarrow> clear_loop w 0 (BytesToBGRA readback) 0 None;
     Some (if bad = 0 then 0 else 1) }"

primrec first_interior :: "bool list \<Rightarrow> BGRA list \<Rightarrow> BGRA" where
  "first_interior [] ref = BGRA 0 0 0 0"
| "first_interior (b # bs) ref = (if b then hd ref else first_interior bs (tl ref))"

definition drawFlatBGRA :: "fuse \<Rightarrow> BGRA option" where
  "drawFlatBGRA fu = do {
     (ref, cov) \<leftarrow> DrawReference fu (ViewportFor 16 16) gpuVerts gpuFlatColor gpuBG 16 16;
     Some (first_interior (cv_In cov) ref) }"

definition assertDrawExact :: "fuse \<Rightarrow> bytes \<Rightarrow> int \<Rightarrow> int \<Rightarrow> nat option" where
  "assertDrawExact fu readback w h = do {
     let vp = ViewportFor w h;
     (ref, cov) \<leftarrow> DrawReference fu vp gpuVerts gpuFlatColor gpuBG w h;
     _ \<leftarrow> dumpGrids readback (cv_In cov) w h gpuBG;
     res \<leftarrow> Compare readback ref cov gpuBG edgeTol drawColourTol maxDiffs;
     _ \<leftarrow> drawFlatBGRA fu;
     Some (if rs_Pass res then 0 else 1) }"

definition demo_tex :: bytes where
  "demo_tex = [0xFF, 0x00, 0x00, 0xFF, 0x00, 0xFF, 0x00, 0xFF, 0x00, 0x00, 0xFF, 0xFF, 0xFF, 0xFF, 0xFF, 0xFF]"

definition assertTexExact :: "fuse \<Rightarrow> bytes \<Rightarrow> int \<Rightarrow> int \<Rightarrow> nat option" where
  "assertTexExact fu readback w h = do {
     let vp = ViewportFor w h;
     (ref, cov) \<leftarrow> TexReference fu vp gpuVerts demo_tex 2 2 Linear gpuBG w h;
     _ \<leftarrow> dumpGrids readback (cv_In cov) w h gpuBG;
     res \<leftarrow> Compare readback ref cov gpuBG edgeTol texColourTol maxDiffs;
     Some (if rs_Pass res then 0 else 1) }"

section \<open>The command\<close>

text \<open>The flags of the command; \<open>-w\<close>, \<open>-h\<close>, \<open>-tw\<close> and \<open>-th\<close> are Go \<open>uint\<close>s.\<close>

record opts =
  o_sock :: string
  o_buf :: string
  o_w :: u64
  o_h :: u64
  o_mode :: string
  o_vb :: string
  o_tex :: string
  o_tw :: u64
  o_th :: u64

type_synonym files = "string \<Rightarrow> go_error + bytes"

definition rt_args :: "opts \<Rightarrow> ResourceCreateArgs" where
  "rt_args o' = \<lparr>rc_Handle = 1, rc_Target = 2, rc_Format = 1, rc_Bind = 2, rc_Width = ucast (o_w o'),
     rc_Height = ucast (o_h o'), rc_Depth = 1, rc_ArraySize = 1, rc_LastLevel = 0, rc_NrSamples = 0\<rparr>"

definition vb_args :: "bytes \<Rightarrow> ResourceCreateArgs" where
  "vb_args vbData = \<lparr>rc_Handle = 2, rc_Target = 0, rc_Format = 0, rc_Bind = push_bit 4 1,
     rc_Width = of_nat (length vbData), rc_Height = 1, rc_Depth = 1, rc_ArraySize = 1, rc_LastLevel = 0, rc_NrSamples = 0\<rparr>"

definition vb_put_args :: "bytes \<Rightarrow> TransferGetArgs" where
  "vb_put_args vbData = \<lparr>tg_Handle = 2, tg_Level = 0, tg_Stride = of_nat (length vbData), tg_LayerStride = of_nat (length vbData),
     tg_X = 0, tg_Y = 0, tg_Z = 0, tg_Width = of_nat (length vbData), tg_Height = 1, tg_Depth = 1,
     tg_DataSize = of_nat (length vbData)\<rparr>"

definition upload_vb :: "'s Client \<Rightarrow> files \<Rightarrow> opts \<Rightarrow> ('s, nat) io \<Rightarrow> ('s, nat) io" where
  "upload_vb c fs o' k =
     (if o_vb o' = [] then k
      else case fs (o_vb o') of
        Inl e \<Rightarrow> return_io 2
      | Inr vbData \<Rightarrow>
          check_io (CreateResource c (vb_args vbData)) (\<lambda>_. return_io 1) (\<lambda>_.
          check_io (TransferPut c (vb_put_args vbData) vbData) (\<lambda>_. return_io 1) (\<lambda>_. k)))"

definition tex_args :: "opts \<Rightarrow> ResourceCreateArgs" where
  "tex_args o' = \<lparr>rc_Handle = 3, rc_Target = 2, rc_Format = 67, rc_Bind = push_bit 3 1, rc_Width = ucast (o_tw o'),
     rc_Height = ucast (o_th o'), rc_Depth = 1, rc_ArraySize = 1, rc_LastLevel = 0, rc_NrSamples = 0\<rparr>"

definition tex_put_args :: "opts \<Rightarrow> bytes \<Rightarrow> TransferGetArgs" where
  "tex_put_args o' texData = (let texStride = (ucast (o_tw o') :: u32) * 4 in
     \<lparr>tg_Handle = 3, tg_Level = 0, tg_Stride = texStride, tg_LayerStride = texStride * ucast (o_th o'),
      tg_X = 0, tg_Y = 0, tg_Z = 0, tg_Width = ucast (o_tw o'), tg_Height = ucast (o_th o'), tg_Depth = 1,
      tg_DataSize = of_nat (length texData)\<rparr>)"

definition upload_tex :: "'s Client \<Rightarrow> files \<Rightarrow> opts \<Rightarrow> ('s, nat) io \<Rightarrow> ('s, nat) io" where
  "upload_tex c fs o' k =
     (if o_tex o' = [] then k
      else case fs (o_tex o') of
        Inl e \<Rightarrow> return_io 2
      | Inr texData \<Rightarrow>
          check_io (CreateResource c (tex_args o')) (\<lambda>_. return_io 1) (\<lambda>_.
          check_io (TransferPut c (tex_put_args o' texData) texData) (\<lambda>_. return_io 1) (\<lambda>_. k)))"

definition get_args :: "opts \<Rightarrow> TransferGetArgs" where
  "get_args o' = (let stride = (ucast (o_w o') :: u32) * 4 in
     \<lparr>tg_Handle = 1, tg_Level = 0, tg_Stride = stride, tg_LayerStride = stride * ucast (o_h o'),
      tg_X = 0, tg_Y = 0, tg_Z = 0, tg_Width = ucast (o_w o'), tg_Height = ucast (o_h o'), tg_Depth = 1,
      tg_DataSize = stride * ucast (o_h o')\<rparr>)"

text \<open>The switch over \<open>-mode\<close>; an \<open>assert\<close> that panics is the outcome \<open>Panic\<close>.\<close>

definition exit_of :: "nat option \<Rightarrow> ('s, nat) io" where
  "exit_of x = (case x of None \<Rightarrow> panic_io | Some n \<Rightarrow> return_io n)"

definition judge :: "fuse \<Rightarrow> opts \<Rightarrow> bytes \<Rightarrow> ('s, nat) io" where
  "judge fu o' readback = (let w = sint (o_w o'); h = sint (o_h o') in
     if o_mode o' = ''clear'' then exit_of (assertClearExact readback w h)
     else if o_mode o' = ''draw'' then exit_of (assertDrawExact fu readback w h)
     else if o_mode o' = ''tex'' then exit_of (assertTexExact fu readback w h)
     else return_io 2)"

definition validator_main :: "fuse \<Rightarrow> (string \<Rightarrow> string \<Rightarrow> go_error + 's ReadWriter) \<Rightarrow> files \<Rightarrow> opts \<Rightarrow> ('s, nat) io" where
  "validator_main fu net_Dial fs o' =
     (if o_buf o' = [] then return_io 2
      else case fs (o_buf o') of
        Inl e \<Rightarrow> return_io 2
      | Inr cmdBuf \<Rightarrow>
     (case Dial net_Dial (o_sock o') of
       Err e \<Rightarrow> return_io 1
     | Panic \<Rightarrow> panic_io
     | Ok (c, conn) \<Rightarrow>
     check_io (Handshake c ''go-virtio-validate'' VtestProtocolVersion) (\<lambda>_. return_io 1) (\<lambda>neg.
     check_io (CreateResource c (rt_args o')) (\<lambda>_. return_io 1) (\<lambda>_.
     upload_vb c fs o' (
     upload_tex c fs o' (
     check_io (SubmitCmd c cmdBuf) (\<lambda>_. return_io 1) (\<lambda>_.
     check_io (TransferGet c (get_args o')) (\<lambda>_. return_io 1) (\<lambda>readback.
     if length readback < 4 then return_io 1 else judge fu o' readback))))))))"

end
