(* ===== verification/Compare_Props.thy ===== *)
theory Compare_Props
  imports Ref_Compare
begin

text \<open>
  What the comparator computes: the boundary band is the Chebyshev dilation of the pixels whose
  coverage differs from a neighbour, every counter counts the pixels it is named for, the list of
  differences is the capped list of all of them, and the verdict is that none is out of
  tolerance.
\<close>

section \<open>The boundary band\<close>

definition wf_cov :: "Coverage \<Rightarrow> bool" where
  "wf_cov cov \<longleftrightarrow> 0 \<le> cv_W cov \<and> 0 \<le> cv_H cov \<and> length (cv_In cov) = nat (cv_W cov * cv_H cov)"

definition covers :: "Coverage \<Rightarrow> int \<Rightarrow> int \<Rightarrow> bool" where
  "covers cov i j = cv_In cov ! nat (j * cv_W cov + i)"

definition differs_at :: "Coverage \<Rightarrow> bool \<Rightarrow> int \<Rightarrow> int \<Rightarrow> int \<times> int \<Rightarrow> bool" where
  "differs_at cov b i j = (\<lambda>(di, dj). in_grid (cv_W cov) (cv_H cov) (i + di) (j + dj) \<and> covers cov (i + di) (j + dj) \<noteq> b)"

definition boundary :: "Coverage \<Rightarrow> int \<Rightarrow> int \<Rightarrow> bool" where
  "boundary cov i j = list_ex (differs_at cov (covers cov i j) i j) [(1, 0), (-1, 0), (0, 1), (0, -1)]"

definition near_edge :: "Coverage \<Rightarrow> int \<Rightarrow> int \<Rightarrow> int \<Rightarrow> bool" where
  "near_edge cov tol i j = list_ex (\<lambda>(i', j'). boundary cov i' j' \<and> \<bar>i - i'\<bar> \<le> max 0 tol \<and> \<bar>j - j'\<bar> \<le> max 0 tol)
     (pixels (cv_W cov) (cv_H cov))"

lemma idx_get_cov:
  assumes "wf_cov cov" "in_grid (cv_W cov) (cv_H cov) i j"
  shows "idx_get (cv_In cov) (j * cv_W cov + i) = Some (covers cov i j)"
  using grid_index[OF assms(2)] assms(1) by (simp add: idx_get_def covers_def wf_cov_def)

lemma neighbour_scan_spec:
  assumes "wf_cov cov"
  shows "neighbour_scan (cv_In cov) (cv_W cov) (cv_H cov) i j b ds = Some (list_ex (differs_at cov b i j) ds)"
proof (induction ds)
  case (Cons d ds)
  obtain di dj where d: "d = (di, dj)" by fastforce
  then show ?case
    using Cons idx_get_cov[OF assms, of "i + di" "j + dj"]
    by (cases "in_grid (cv_W cov) (cv_H cov) (i + di) (j + dj)")
      (simp_all add: Let_def in_grid_simp differs_at_def)
qed simp

interpretation edge_loop: pixel_writer "\<lambda>cov. (cv_W cov, cv_H cov)" wf_cov False edge_step boundary
proof
  fix cov i j and xs :: "bool list"
  assume "wf_cov cov" and g: "in_grid (fst (cv_W cov, cv_H cov)) (snd (cv_W cov, cv_H cov)) i j"
    and "length xs = nat (fst (cv_W cov, cv_H cov) * snd (cv_W cov, cv_H cov))"
  then show "edge_step cov (i, j) xs = Some (xs[nat (j * fst (cv_W cov, cv_H cov) + i) := boundary cov i j])"
    using grid_index[of "cv_W cov" "cv_H cov" i j]
    by (simp add: edge_step_def Let_def idx_get_cov neighbour_scan_spec idx_set_def boundary_def del: neighbour_scan.simps)
qed (simp add: wf_cov_def)

text \<open>Folds that only ever set cells of a bit grid.\<close>

lemma fold_opt_marks:
  assumes "\<And>x xs. x \<in> set ps \<Longrightarrow> length xs = n \<Longrightarrow>
      \<exists>ys. f x xs = Some ys \<and> length ys = n \<and> (\<forall>k<n. ys ! k \<longleftrightarrow> xs ! k \<or> hit x k)"
    and "length xs = n"
  shows "\<exists>ys. fold_opt f ps xs = Some ys \<and> length ys = n \<and> (\<forall>k<n. ys ! k \<longleftrightarrow> xs ! k \<or> (\<exists>x\<in>set ps. hit x k))"
  using assms
proof (induction ps arbitrary: xs)
  case (Cons x ps)
  obtain ys where ys: "f x xs = Some ys" "length ys = n" "\<forall>k<n. ys ! k \<longleftrightarrow> xs ! k \<or> hit x k"
    using Cons.prems(1)[of x xs] Cons.prems(2) by auto
  have "\<exists>zs. fold_opt f ps ys = Some zs \<and> length zs = n \<and> (\<forall>k<n. zs ! k \<longleftrightarrow> ys ! k \<or> (\<exists>x\<in>set ps. hit x k))"
    by (rule Cons.IH[OF Cons.prems(1) ys(2)]) simp_all
  with ys show ?case by auto
qed simp

definition window_offsets :: "int \<Rightarrow> (int \<times> int) list" where
  "window_offsets tol = concat (map (\<lambda>dj. map (\<lambda>di. (dj, di)) [- tol..tol]) [- tol..tol])"

lemma set_window_offsets: "(dj, di) \<in> set (window_offsets tol) \<longleftrightarrow> \<bar>di\<bar> \<le> tol \<and> \<bar>dj\<bar> \<le> tol"
  by (auto simp: window_offsets_def image_iff abs_le_iff)

lemma dilate_cell_marks:
  assumes "length xs = nat (w * h)"
  shows "\<exists>ys. dilate_cell w h i j d xs = Some ys \<and> length ys = nat (w * h) \<and>
    (\<forall>k<nat (w * h). ys ! k \<longleftrightarrow> xs ! k \<or> (in_grid w h (i + snd d) (j + fst d) \<and> k = nat ((j + fst d) * w + (i + snd d))))"
  using assms grid_index[of w h "i + snd d" "j + fst d"]
  by (cases d) (auto simp: dilate_cell_def Let_def in_grid_simp idx_set_def nth_list_update)

lemma dilate_step_marks:
  assumes "0 \<le> w" "0 \<le> h" "length xs = nat (w * h)" "in_grid w h (fst p) (snd p)"
  shows "\<exists>ys. dilate_step w h tol (grid_image w h e) p xs = Some ys \<and> length ys = nat (w * h) \<and>
    (\<forall>k<nat (w * h). ys ! k \<longleftrightarrow> xs ! k \<or> (e (fst p) (snd p) \<and>
      (\<exists>d\<in>set (window_offsets tol). in_grid w h (fst p + snd d) (snd p + fst d) \<and> k = nat ((snd p + fst d) * w + (fst p + snd d)))))"
proof (cases "e (fst p) (snd p)")
  case True
  have "\<exists>ys. fold_opt (dilate_cell w h (fst p) (snd p)) (window_offsets tol) xs = Some ys \<and> length ys = nat (w * h) \<and>
      (\<forall>k<nat (w * h). ys ! k \<longleftrightarrow> xs ! k \<or> (\<exists>d\<in>set (window_offsets tol).
        in_grid w h (fst p + snd d) (snd p + fst d) \<and> k = nat ((snd p + fst d) * w + (fst p + snd d))))"
    by (intro fold_opt_marks dilate_cell_marks assms(3))
  with True idx_get_grid_image[OF assms(4), of e] show ?thesis
    by (cases p) (simp add: dilate_step_def window_offsets_def[symmetric])
next
  case False
  with idx_get_grid_image[OF assms(4), of e] assms(3) show ?thesis by (cases p) (simp add: dilate_step_def)
qed

text \<open>A cell of the dilated grid is marked by the edges within the window around its pixel.\<close>

lemma near_edge_window:
  assumes "in_grid w h i j" "w = cv_W cov" "h = cv_H cov" "0 < tol"
  shows "(\<exists>p\<in>set (pixels w h). boundary cov (fst p) (snd p) \<and> (\<exists>d\<in>set (window_offsets tol).
      in_grid w h (fst p + snd d) (snd p + fst d) \<and> nat (j * w + i) = nat ((snd p + fst d) * w + (fst p + snd d)))) \<longleftrightarrow>
    near_edge cov tol i j" (is "?L \<longleftrightarrow> ?R")
proof
  assume ?L
  then obtain i' j' dj di where p: "in_grid w h i' j'" "boundary cov i' j'" "(dj, di) \<in> set (window_offsets tol)"
      "in_grid w h (i' + di) (j' + dj)" "nat (j * w + i) = nat ((j' + dj) * w + (i' + di))"
    by (auto simp: set_pixels)
  then have "i = i' + di \<and> j = j' + dj"
    using grid_index(1)[OF assms(1)] grid_index(1)[OF p(4)] grid_index_inj[OF assms(1) p(4)] by (metis eq_nat_nat_iff)
  with p(1-3) show ?R
    using assms(2-4) by (auto simp: near_edge_def list_ex_iff set_pixels set_window_offsets intro!: bexI[of _ "(i', j')"])
next
  assume ?R
  then obtain i' j' where p: "in_grid w h i' j'" "boundary cov i' j'" "\<bar>i - i'\<bar> \<le> tol" "\<bar>j - j'\<bar> \<le> tol"
    using assms(2-4) by (auto simp: near_edge_def list_ex_iff set_pixels)
  then have "(j - j', i - i') \<in> set (window_offsets tol)" by (simp add: set_window_offsets)
  with p(1,2) assms(1) show ?L
    by (intro bexI[of _ "(i', j')"] conjI bexI[of _ "(j - j', i - i')"]) (auto simp: set_pixels)
qed

lemma near_edge_zero:
  assumes "in_grid (cv_W cov) (cv_H cov) i j" "tol \<le> 0"
  shows "near_edge cov tol i j = boundary cov i j"
  using assms by (auto simp: near_edge_def list_ex_iff set_pixels max_def)

lemma boundaryBand_spec:
  assumes "wf_cov cov"
  shows "boundaryBand cov tol = Some (grid_image (cv_W cov) (cv_H cov) (near_edge cov tol))"
proof -
  let ?w = "cv_W cov" and ?h = "cv_H cov"
  have pos: "0 \<le> ?w" "0 \<le> ?h" using assms by (auto simp: wf_cov_def)
  have mk: "make_slice (?w * ?h) False = Some (replicate (nat (?w * ?h)) False)" using mult_nonneg_nonneg[OF pos] by (simp add: make_slice_def)
  have edge: "fold_opt (edge_step cov) (pixels ?w ?h) (replicate (nat (?w * ?h)) False) = Some (grid_image ?w ?h (boundary cov))"
    using edge_loop.scan[OF assms] by simp
  show ?thesis
  proof (cases "tol \<le> 0")
    case True
    have "grid_image ?w ?h (boundary cov) = grid_image ?w ?h (near_edge cov tol)"
      using True by (auto simp: grid_image_def set_pixels near_edge_zero)
    with True edge mk show ?thesis by (simp add: boundaryBand_def)
  next
    case False
    have "\<exists>ys. fold_opt (dilate_step ?w ?h tol (grid_image ?w ?h (boundary cov))) (pixels ?w ?h) (replicate (nat (?w * ?h)) False) = Some ys \<and>
        length ys = nat (?w * ?h) \<and> (\<forall>k<nat (?w * ?h). ys ! k \<longleftrightarrow> replicate (nat (?w * ?h)) False ! k \<or>
          (\<exists>p\<in>set (pixels ?w ?h). boundary cov (fst p) (snd p) \<and> (\<exists>d\<in>set (window_offsets tol).
      in_grid ?w ?h (fst p + snd d) (snd p + fst d) \<and> k = nat ((snd p + fst d) * ?w + (fst p + snd d)))))"
      by (rule fold_opt_marks, rule dilate_step_marks[OF pos]) (auto simp: set_pixels)
    then obtain ys where ys: "fold_opt (dilate_step ?w ?h tol (grid_image ?w ?h (boundary cov))) (pixels ?w ?h) (replicate (nat (?w * ?h)) False) = Some ys"
        "length ys = nat (?w * ?h)" "\<forall>k<nat (?w * ?h). ys ! k \<longleftrightarrow>
          (\<exists>p\<in>set (pixels ?w ?h). boundary cov (fst p) (snd p) \<and> (\<exists>d\<in>set (window_offsets tol).
      in_grid ?w ?h (fst p + snd d) (snd p + fst d) \<and> k = nat ((snd p + fst d) * ?w + (fst p + snd d))))"
      by auto
    have "ys = grid_image ?w ?h (near_edge cov tol)"
    proof (rule nth_equalityI)
      fix k assume "k < length ys"
      then have k: "k < nat (?w * ?h)" "k < length (pixels ?w ?h)" using ys(2) by (simp_all add: length_pixels[OF pos])
      obtain i j where ij: "pixels ?w ?h ! k = (i, j)" by fastforce
      then have g: "in_grid ?w ?h i j" using k(2) nth_mem set_pixels by metis
      have ix: "k = nat (j * ?w + i)"
        using arg_cong[OF pixels_index[OF pos], of "\<lambda>xs. xs ! k"] k ij by simp
      show "ys ! k = grid_image ?w ?h (near_edge cov tol) ! k"
        using ys(3) k(1) near_edge_window[OF g refl refl, of tol] nth_grid_image[OF g, of "near_edge cov tol"] False
        unfolding ix by auto
    qed (use ys(2) pos in simp)
    with False edge mk ys(1) show ?thesis by (simp add: boundaryBand_def)
  qed
qed

section \<open>The verdict\<close>

record comparison =
  k_real :: "BGRA list"
  k_ref :: "BGRA list"
  k_cov :: Coverage
  k_bg :: BGRA
  k_edgeTol :: int
  k_colourTol :: int
  k_maxDiffs :: int

definition pixel_of :: "comparison \<Rightarrow> BGRA list \<Rightarrow> int \<Rightarrow> int \<Rightarrow> BGRA" where
  "pixel_of k xs i j = xs ! nat (j * cv_W (k_cov k) + i)"

definition real_in :: "comparison \<Rightarrow> int \<Rightarrow> int \<Rightarrow> bool" where
  "real_in k i j \<longleftrightarrow> pixel_of k (k_real k) i j \<noteq> k_bg k"

definition ref_in :: "comparison \<Rightarrow> int \<Rightarrow> int \<Rightarrow> bool" where
  "ref_in k i j = covers (k_cov k) i j"

definition cov_ok :: "comparison \<Rightarrow> int \<Rightarrow> int \<Rightarrow> bool" where
  "cov_ok k i j \<longleftrightarrow> ref_in k i j = real_in k i j \<or> near_edge (k_cov k) (k_edgeTol k) i j"

definition both_in :: "comparison \<Rightarrow> int \<Rightarrow> int \<Rightarrow> bool" where
  "both_in k i j \<longleftrightarrow> ref_in k i j \<and> real_in k i j"

definition delta :: "comparison \<Rightarrow> int \<Rightarrow> int \<Rightarrow> int" where
  "delta k i j = maxChannelDelta (pixel_of k (k_real k) i j) (pixel_of k (k_ref k) i j)"

definition diff_of :: "comparison \<Rightarrow> string \<Rightarrow> int \<Rightarrow> int \<Rightarrow> PixelDiff" where
  "diff_of k kind i j = \<lparr>pd_X = i, pd_Y = j, pd_Real = pixel_of k (k_real k) i j,
     pd_Ref = pixel_of k (k_ref k) i j, pd_Kind = kind\<rparr>"

definition pixel_diffs :: "comparison \<Rightarrow> int \<times> int \<Rightarrow> PixelDiff list" where
  "pixel_diffs k = (\<lambda>(i, j). (if cov_ok k i j then [] else [diff_of k ''coverage'' i j]) @
     (if both_in k i j \<and> k_colourTol k < delta k i j then [diff_of k ''colour'' i j] else []))"

definition wf_comparison :: "comparison \<Rightarrow> bool" where
  "wf_comparison k \<longleftrightarrow> wf_cov (k_cov k) \<and>
     nat (cv_W (k_cov k) * cv_H (k_cov k)) \<le> length (k_real k) \<and>
     nat (cv_W (k_cov k) * cv_H (k_cov k)) \<le> length (k_ref k)"

definition run_compare :: "comparison \<Rightarrow> Result option" where
  "run_compare k = compare (k_real k) (k_ref k) (k_cov k) (k_bg k) (k_edgeTol k) (k_colourTol k) (k_maxDiffs k)"

text \<open>One pixel of the loop, without the bounds checks.\<close>

definition add_diffs :: "int \<Rightarrow> PixelDiff list \<Rightarrow> PixelDiff list \<Rightarrow> PixelDiff list" where
  "add_diffs mx ds es = ds @ take (nat mx - length ds) es"

lemma add_diffs_append: "add_diffs mx (add_diffs mx ds es) fs = add_diffs mx ds (es @ fs)"
  by (auto simp: add_diffs_def min_def)

lemma appendDiff_add: "appendDiff mx d r = r\<lparr>rs_Diffs := add_diffs mx (rs_Diffs r) [d]\<rparr>"
  by (auto simp: appendDiff_def add_diffs_def nat_diff_split_asm split: nat_diff_split)

definition pixel_step :: "comparison \<Rightarrow> int \<times> int \<Rightarrow> Result \<Rightarrow> Result" where
  "pixel_step k = (\<lambda>(i, j) r. r\<lparr>
     rs_RefInterior := rs_RefInterior r + of_bool (ref_in k i j),
     rs_CovExactMatch := rs_CovExactMatch r + of_bool (ref_in k i j = real_in k i j),
     rs_CovMatch := rs_CovMatch r + of_bool (ref_in k i j \<and> cov_ok k i j),
     rs_CovMismatch := rs_CovMismatch r + of_bool (\<not> cov_ok k i j),
     rs_InteriorTested := rs_InteriorTested r + of_bool (both_in k i j),
     rs_MaxColourDelta := (if both_in k i j then max (rs_MaxColourDelta r) (delta k i j) else rs_MaxColourDelta r),
     rs_Diffs := add_diffs (k_maxDiffs k) (rs_Diffs r) (pixel_diffs k (i, j))\<rparr>)"

lemma idx_get_pixel:
  assumes "wf_comparison k" "in_grid (cv_W (k_cov k)) (cv_H (k_cov k)) i j"
  shows "idx_get (k_real k) (j * cv_W (k_cov k) + i) = Some (pixel_of k (k_real k) i j)"
    "idx_get (k_ref k) (j * cv_W (k_cov k) + i) = Some (pixel_of k (k_ref k) i j)"
    "idx_get (cv_In (k_cov k)) (j * cv_W (k_cov k) + i) = Some (ref_in k i j)"
  using grid_index[OF assms(2)] assms(1) idx_get_cov[OF _ assms(2)]
  by (auto simp: idx_get_def pixel_of_def wf_comparison_def ref_in_def)

lemma compare_step_spec:
  assumes "wf_comparison k" "in_grid (cv_W (k_cov k)) (cv_H (k_cov k)) i j"
  shows "compare_step (k_real k) (k_ref k) (k_cov k) (k_bg k) (k_colourTol k) (k_maxDiffs k)
      (grid_image (cv_W (k_cov k)) (cv_H (k_cov k)) (near_edge (k_cov k) (k_edgeTol k))) (i, j) r =
    Some (pixel_step k (i, j) r)"
proof -
  note gets = idx_get_pixel[OF assms] idx_get_grid_image[OF assms(2), of "near_edge (k_cov k) (k_edgeTol k)"]
  note folds = real_in_def[symmetric] delta_def[symmetric]
  show ?thesis
    by (cases "ref_in k i j"; cases "real_in k i j"; cases "near_edge (k_cov k) (k_edgeTol k) i j")
      (simp_all add: compare_step_def Let_def gets isBG_def folds mismatch_diff_def appendDiff_add pixel_step_def
        cov_ok_def both_in_def pixel_diffs_def diff_of_def add_diffs_append max_def, (simp add: add_diffs_def)+)
qed

definition how_many :: "(int \<Rightarrow> int \<Rightarrow> bool) \<Rightarrow> (int \<times> int) list \<Rightarrow> int" where
  "how_many P ps = int (length (filter (\<lambda>(i, j). P i j) ps))"

lemma how_many_simps [simp]:
  "how_many P [] = 0" "how_many P ((i, j) # ps) = of_bool (P i j) + how_many P ps"
  by (simp_all add: how_many_def)

primrec max_delta :: "comparison \<Rightarrow> (int \<times> int) list \<Rightarrow> int \<Rightarrow> int" where
  "max_delta k [] m = m"
| "max_delta k (p # ps) m = max_delta k ps (if both_in k (fst p) (snd p) then max m (delta k (fst p) (snd p)) else m)"

lemma fold_pixel_step:
  "fold (pixel_step k) ps r = r\<lparr>
     rs_RefInterior := rs_RefInterior r + how_many (ref_in k) ps,
     rs_CovExactMatch := rs_CovExactMatch r + how_many (\<lambda>i j. ref_in k i j = real_in k i j) ps,
     rs_CovMatch := rs_CovMatch r + how_many (\<lambda>i j. ref_in k i j \<and> cov_ok k i j) ps,
     rs_CovMismatch := rs_CovMismatch r + how_many (\<lambda>i j. \<not> cov_ok k i j) ps,
     rs_InteriorTested := rs_InteriorTested r + how_many (both_in k) ps,
     rs_MaxColourDelta := max_delta k ps (rs_MaxColourDelta r),
     rs_Diffs := add_diffs (k_maxDiffs k) (rs_Diffs r) (concat (map (pixel_diffs k) ps))\<rparr>"
proof (induction ps arbitrary: r)
  case Nil
  show ?case by (simp add: add_diffs_def)
next
  case (Cons p ps)
  obtain i j where p: "p = (i, j)" by fastforce
  show ?case unfolding p fold_simps Cons.IH by (simp add: pixel_step_def add_diffs_append add.assoc)
qed

lemma max_delta_le: "max_delta k ps m \<le> t \<longleftrightarrow> m \<le> t \<and> (\<forall>(i, j)\<in>set ps. both_in k i j \<longrightarrow> delta k i j \<le> t)"
  by (induction ps arbitrary: m) auto

lemma how_many_zero: "how_many P ps = 0 \<longleftrightarrow> (\<forall>(i, j)\<in>set ps. \<not> P i j)"
  by (auto simp: how_many_def filter_empty_conv)

lemma channel_loop_le:
  "channel_loop a b ks m \<le> t \<longleftrightarrow> m \<le> t \<and> (\<forall>k\<in>set ks. \<bar>uint (chan a k) - uint (chan b k)\<bar> \<le> t)"
  by (induction ks arbitrary: m) (auto simp: Let_def)

lemma maxChannelDelta_le:
  "maxChannelDelta a b \<le> t \<longleftrightarrow> 0 \<le> t \<and> (\<forall>k<4. \<bar>uint (chan a k) - uint (chan b k)\<bar> \<le> t)"
proof -
  have "set [0, 1, 2, 3] = {k. k < (4 :: nat)}" by auto
  then show ?thesis by (simp only: maxChannelDelta_def channel_loop_le) auto
qed

text \<open>The whole result of a comparison.\<close>

definition expected_result :: "comparison \<Rightarrow> Result" where
  "expected_result k = (let w = cv_W (k_cov k); h = cv_H (k_cov k); ps = pixels w h in
     \<lparr>rs_W = w, rs_H = h, rs_RefInterior = how_many (ref_in k) ps,
      rs_CovMatch = how_many (\<lambda>i j. ref_in k i j \<and> cov_ok k i j) ps,
      rs_CovMismatch = how_many (\<lambda>i j. \<not> cov_ok k i j) ps,
      rs_CovMatchPct = (if how_many (ref_in k) ps = 0 then Some 100
        else percent (how_many (\<lambda>i j. ref_in k i j \<and> cov_ok k i j) ps) (how_many (ref_in k) ps)),
      rs_CovExactMatch = how_many (\<lambda>i j. ref_in k i j = real_in k i j) ps,
      rs_CovExactPct = percent (how_many (\<lambda>i j. ref_in k i j = real_in k i j) ps) (w * h),
      rs_MaxColourDelta = max_delta k ps 0,
      rs_InteriorTested = how_many (both_in k) ps,
      rs_Diffs = take (nat (k_maxDiffs k)) (concat (map (pixel_diffs k) ps)),
      rs_Pass = (\<forall>(i, j)\<in>set ps. cov_ok k i j \<and> (both_in k i j \<longrightarrow> delta k i j \<le> k_colourTol k)) \<and> 0 \<le> k_colourTol k\<rparr>)"

lemma how_many_nonneg: "0 \<le> how_many P ps"
  by (simp add: how_many_def)

lemma compare_result:
  assumes "wf_comparison k"
  shows "run_compare k = Some (expected_result k)"
proof -
  let ?w = "cv_W (k_cov k)" and ?h = "cv_H (k_cov k)"
  let ?near = "grid_image ?w ?h (near_edge (k_cov k) (k_edgeTol k))"
  have band: "boundaryBand (k_cov k) (k_edgeTol k) = Some ?near"
    using assms by (simp add: wf_comparison_def boundaryBand_spec)
  have "fold_opt (compare_step (k_real k) (k_ref k) (k_cov k) (k_bg k) (k_colourTol k) (k_maxDiffs k) ?near)
      (pixels ?w ?h) (result_zero ?w ?h) = Some (fold (pixel_step k) (pixels ?w ?h) (result_zero ?w ?h))"
    using fold_opt_total[of "pixels ?w ?h" "\<lambda>_. True" _ "pixel_step k"] compare_step_spec[OF assms] set_pixels
    by (metis surj_pair)
  note run = this[unfolded fold_pixel_step result_zero_def]
  have pos: "0 < how_many (ref_in k) (pixels ?w ?h) \<longleftrightarrow> how_many (ref_in k) (pixels ?w ?h) \<noteq> 0"
    using how_many_nonneg[of "ref_in k" "pixels ?w ?h"] by linarith
  have "how_many (\<lambda>i j. \<not> cov_ok k i j) (pixels ?w ?h) = 0 \<and> max_delta k (pixels ?w ?h) 0 \<le> k_colourTol k \<longleftrightarrow>
    (\<forall>(i, j)\<in>set (pixels ?w ?h). cov_ok k i j \<and> (both_in k i j \<longrightarrow> delta k i j \<le> k_colourTol k)) \<and> 0 \<le> k_colourTol k"
    unfolding how_many_zero max_delta_le by auto
  with run pos show ?thesis
    unfolding run_compare_def compare_def expected_result_def by (simp add: band Let_def add_diffs_def result_zero_def)
qed

lemma near_edge_iff:
  "near_edge cov tol i j \<longleftrightarrow> (\<exists>i' j'. in_grid (cv_W cov) (cv_H cov) i' j' \<and> boundary cov i' j' \<and>
     \<bar>i - i'\<bar> \<le> max 0 tol \<and> \<bar>j - j'\<bar> \<le> max 0 tol)"
  by (simp add: near_edge_def list_ex_iff Bex_def split_paired_Ex set_pixels)

text \<open>C7. The boundary band of a coverage grid marks exactly the pixels within Chebyshev distance
  \<open>tol\<close> of a pixel whose coverage differs from one of its neighbours to the left, to the right, above and
  below. Only neighbours inside the image count: a covered pixel at the image border is not in the
  band by itself, although a comment of the code says that the border counts as different.\<close>

theorem boundary_band:
  assumes "wf_cov cov" "in_grid (cv_W cov) (cv_H cov) i j"
  shows "\<exists>band. boundaryBand cov tol = Some band \<and> length band = length (cv_In cov) \<and>
    (band ! nat (j * cv_W cov + i) \<longleftrightarrow> (\<exists>i' j'. in_grid (cv_W cov) (cv_H cov) i' j' \<and> boundary cov i' j' \<and>
       \<bar>i - i'\<bar> \<le> max 0 tol \<and> \<bar>j - j'\<bar> \<le> max 0 tol))"
proof -
  have "length (grid_image (cv_W cov) (cv_H cov) (near_edge cov tol)) = length (cv_In cov)"
    using assms(1) by (simp add: wf_cov_def)
  then show ?thesis
    using boundaryBand_spec[OF assms(1)] nth_grid_image[OF assms(2)] by (auto simp: near_edge_iff[symmetric])
qed

definition demo_cov :: Coverage where
  "demo_cov = \<lparr>cv_W = 4, cv_H = 2, cv_In = [False, False, False, True, False, False, False, False]\<rparr>"

theorem boundary_band_witness:
  "\<exists>band. boundaryBand demo_cov 1 = Some band \<and> \<not> band ! 0"
proof -
  have "wf_cov demo_cov" "in_grid (cv_W demo_cov) (cv_H demo_cov) 0 0" by code_simp+
  from boundary_band[OF this, of 1] have "\<exists>band. boundaryBand demo_cov 1 = Some band \<and> (band ! 0 \<longleftrightarrow> near_edge demo_cov 1 0 0)"
    by (auto simp: near_edge_iff)
  moreover have "\<not> near_edge demo_cov 1 0 0" by code_simp
  ultimately show ?thesis by blast
qed

text \<open>C6. The comparator passes exactly when every pixel agrees in coverage or lies in the boundary
  band, and every pixel covered on both sides agrees within the tolerance on each channel. Its
  counters count the interior pixels, the agreements and the disagreements, and its list holds
  the first \<open>maxDiffs\<close> differences in row-major order.\<close>

theorem compare_verdict:
  assumes "wf_comparison k" "0 \<le> k_colourTol k"
  shows "\<exists>r. compare (k_real k) (k_ref k) (k_cov k) (k_bg k) (k_edgeTol k) (k_colourTol k) (k_maxDiffs k) = Some r \<and>
    (rs_Pass r \<longleftrightarrow> (\<forall>i j. in_grid (cv_W (k_cov k)) (cv_H (k_cov k)) i j \<longrightarrow> cov_ok k i j \<and>
      (both_in k i j \<longrightarrow> (\<forall>c<4. \<bar>uint (chan (pixel_of k (k_real k) i j) c) - uint (chan (pixel_of k (k_ref k) i j) c)\<bar> \<le> k_colourTol k)))) \<and>
    rs_RefInterior r = how_many (ref_in k) (pixels (cv_W (k_cov k)) (cv_H (k_cov k))) \<and>
    rs_CovMatch r = how_many (\<lambda>i j. ref_in k i j \<and> cov_ok k i j) (pixels (cv_W (k_cov k)) (cv_H (k_cov k))) \<and>
    rs_CovMismatch r = how_many (\<lambda>i j. \<not> cov_ok k i j) (pixels (cv_W (k_cov k)) (cv_H (k_cov k))) \<and>
    rs_Diffs r = take (nat (k_maxDiffs k)) (concat (map (pixel_diffs k) (pixels (cv_W (k_cov k)) (cv_H (k_cov k)))))"
  using compare_result[OF assms(1)] assms(2)
  by (auto simp: run_compare_def expected_result_def Let_def set_pixels delta_def maxChannelDelta_le)

definition demo_comparison :: comparison where
  "demo_comparison = (let bg = BGRA 0 0 0 255; fg = BGRA 10 20 30 255 in
     \<lparr>k_real = [bg, bg, bg, fg, bg, bg, bg, bg], k_ref = [bg, bg, bg, fg, bg, bg, bg, bg], k_cov = demo_cov,
      k_bg = bg, k_edgeTol = 1, k_colourTol = 2, k_maxDiffs = 4\<rparr>)"

theorem compare_verdict_witness:
  "\<exists>r. compare (k_real demo_comparison) (k_ref demo_comparison) demo_cov (BGRA 0 0 0 255) 1 2 4 = Some r \<and>
     rs_RefInterior r = 1"
proof -
  have wf: "wf_comparison demo_comparison" "0 \<le> k_colourTol demo_comparison" by code_simp+
  have n: "how_many (ref_in demo_comparison) (pixels (cv_W (k_cov demo_comparison)) (cv_H (k_cov demo_comparison))) = 1"
    by code_simp
  show ?thesis using compare_verdict[OF wf] n by (auto simp: demo_comparison_def Let_def)
qed

section \<open>A faithful readback\<close>

definition bgra_bytes :: "BGRA \<Rightarrow> bytes" where
  "bgra_bytes p = map (chan p) [0, 1, 2, 3]"

lemma length_bgra_bytes [simp]: "length (bgra_bytes p) = 4"
  by (simp add: bgra_bytes_def)

lemma bgra_at_Cons: "bgra_at (bgra_bytes p @ b) 0 = p" "bgra_at (bgra_bytes p @ b) (Suc i) = bgra_at b i"
proof -
  show "bgra_at (bgra_bytes p @ b) 0 = p" by (cases p) (simp add: bgra_at_def bgra_bytes_def)
  show "bgra_at (bgra_bytes p @ b) (Suc i) = bgra_at b i"
    unfolding bgra_at_def nth_append length_bgra_bytes by (simp add: add.commute)
qed

lemma BytesToBGRA_Cons: "BytesToBGRA (bgra_bytes p @ b) = p # BytesToBGRA b"
proof -
  have "length (bgra_bytes p @ b) div 4 = Suc (length b div 4)" by (simp add: bgra_bytes_def)
  moreover have "[0..<Suc n] = 0 # map Suc [0..<n]" for n by (simp add: upt_conv_Cons map_Suc_upt)
  ultimately show ?thesis
    unfolding BytesToBGRA_def by (simp only: list.map map_map comp_def bgra_at_Cons)
qed

lemma BytesToBGRA_bytes: "BytesToBGRA (concat (map bgra_bytes ps)) = ps"
  by (induction ps) (simp_all add: BytesToBGRA_Cons, simp add: BytesToBGRA_def)

lemma maxChannelDelta_refl: "maxChannelDelta p p \<le> t \<longleftrightarrow> 0 \<le> t"
  by (auto simp: maxChannelDelta_le)

lemma faithful_readback:
  assumes "wf_cov cov" "length ref = length (cv_In cov)" "CoverageOf ref bg = cv_In cov" "0 \<le> colourTol"
  shows "\<exists>r. Compare (concat (map bgra_bytes ref)) ref cov bg edgeTol colourTol maxDiffs = Some r \<and> rs_Pass r \<and>
    rs_Diffs r = [] \<and> rs_CovMismatch r = 0 \<and> rs_CovExactMatch r = cv_W cov * cv_H cov \<and> rs_MaxColourDelta r \<le> 0"
proof -
  define k where "k = \<lparr>k_real = ref, k_ref = ref, k_cov = cov, k_bg = bg, k_edgeTol = edgeTol,
    k_colourTol = colourTol, k_maxDiffs = maxDiffs\<rparr>"
  have wf: "wf_comparison k" using assms(1,2) by (simp add: wf_comparison_def k_def wf_cov_def)
  have same: "ref_in k i j = real_in k i j" if "in_grid (cv_W cov) (cv_H cov) i j" for i j
  proof -
    have n: "nat (j * cv_W cov + i) < length ref"
      using grid_index_nat[OF that] assms(1,2) by (simp add: wf_cov_def)
    have "cv_In cov ! nat (j * cv_W cov + i) = (ref ! nat (j * cv_W cov + i) \<noteq> bg)"
      unfolding assms(3)[symmetric] using n by (simp add: CoverageOf_def isBG_def)
    then show ?thesis by (simp add: ref_in_def real_in_def covers_def pixel_of_def k_def)
  qed
  then have ok: "cov_ok k i j" if "in_grid (cv_W cov) (cv_H cov) i j" for i j
    using that by (simp add: cov_ok_def)
  have d: "delta k i j \<le> t \<longleftrightarrow> 0 \<le> t" for i j t by (simp add: delta_def k_def maxChannelDelta_refl)
  let ?ps = "pixels (cv_W cov) (cv_H cov)"
  have "filter (\<lambda>(i, j). ref_in k i j = real_in k i j) ?ps = ?ps"
    using same by (auto simp: filter_id_conv set_pixels)
  then have exact: "how_many (\<lambda>i j. ref_in k i j = real_in k i j) ?ps = cv_W cov * cv_H cov"
    using assms(1) by (simp add: how_many_def length_pixels wf_cov_def)
  have mism: "how_many (\<lambda>i j. \<not> cov_ok k i j) ?ps = 0" using ok by (auto simp: how_many_zero set_pixels)
  have diffs: "concat (map (pixel_diffs k) ?ps) = []"
  proof -
    have "\<not> colourTol < delta k i j" for i j using d[of i j colourTol] assms(4) by simp
    then show ?thesis using ok by (auto simp: pixel_diffs_def set_pixels k_def)
  qed
  have dm: "max_delta k ?ps 0 \<le> t \<longleftrightarrow> 0 \<le> t" for t by (auto simp: max_delta_le d)
  let ?r = "expected_result k"
  have "Compare (concat (map bgra_bytes ref)) ref cov bg edgeTol colourTol maxDiffs = Some ?r"
    using compare_result[OF wf] by (simp add: run_compare_def k_def Compare_def BytesToBGRA_bytes)
  moreover have f: "k_cov k = cov" "k_colourTol k = colourTol" by (simp_all add: k_def)
  moreover have "rs_Pass ?r" using ok d assms(4) by (auto simp: expected_result_def Let_def f set_pixels)
  moreover have "rs_Diffs ?r = []" using diffs by (simp only: expected_result_def Let_def f Result.simps take_Nil)
  moreover have "rs_CovMismatch ?r = 0" "rs_CovExactMatch ?r = cv_W cov * cv_H cov" "rs_MaxColourDelta ?r \<le> 0"
    using mism exact dm[of 0] by (simp_all add: expected_result_def Let_def f)
  ultimately show ?thesis by blast
qed

text \<open>A readback that carries exactly the reference image passes with every tolerance, if the
  image shows the background exactly where the coverage is empty: no difference is reported and
  the coverage agrees on every pixel.\<close>

theorem faithful_readback_passes:
  assumes "wf_cov cov" "length ref = length (cv_In cov)" "CoverageOf ref bg = cv_In cov" "0 \<le> colourTol"
  shows "\<exists>r. Compare (concat (map bgra_bytes ref)) ref cov bg edgeTol colourTol maxDiffs = Some r \<and> rs_Pass r \<and>
    rs_Diffs r = [] \<and> rs_CovMismatch r = 0 \<and> rs_CovExactMatch r = cv_W cov * cv_H cov \<and> rs_MaxColourDelta r \<le> 0"
  by (rule faithful_readback[OF assms])

theorem faithful_readback_passes_witness:
  "\<exists>r. Compare (concat (map bgra_bytes (k_ref demo_comparison))) (k_ref demo_comparison) demo_cov (BGRA 0 0 0 255) 1 0 4 = Some r \<and> rs_Pass r"
proof -
  have "wf_cov demo_cov" "length (k_ref demo_comparison) = length (cv_In demo_cov)"
    "CoverageOf (k_ref demo_comparison) (BGRA 0 0 0 255) = cv_In demo_cov" by code_simp+
  from faithful_readback_passes[OF this, of 0 1 4] show ?thesis by auto
qed

end
