(* ===== verification/Render_Props.thy ===== *)
theory Render_Props
  imports Ref_Render Compare_Props
begin

text \<open>
  The reference image is the mathematical one. For triangles and viewports on a binary grid, which
  the validator's are, every floating-point operation of the rasteriser is exact, with or without
  fused products, and a pixel is covered exactly when its centre lies in the closed triangle.
  Texture sampling never leaves the texture, and at a texel centre both filters return the texel.
\<close>

section \<open>Exact floating-point arithmetic\<close>

text \<open>Multiples of \<open>2 ^ - k\<close> whose numerator has at most \<open>b\<close> bits.\<close>

definition dyadic :: "nat \<Rightarrow> nat \<Rightarrow> rat \<Rightarrow> bool" where
  "dyadic k b x \<longleftrightarrow> (\<exists>m. x = of_int m / 2 ^ k \<and> \<bar>m\<bar> \<le> 2 ^ b)"

lemma dyadicI: "x = of_int m / 2 ^ k \<Longrightarrow> \<bar>m\<bar> \<le> 2 ^ b \<Longrightarrow> dyadic k b x"
  by (auto simp: dyadic_def)

lemma dyadic_mono:
  assumes "dyadic k b x" "b \<le> b'"
  shows "dyadic k b' x"
proof -
  from assms(1) obtain m where m: "x = of_int m / 2 ^ k" "\<bar>m\<bar> \<le> 2 ^ b" by (auto simp: dyadic_def)
  have "(2 :: int) ^ b \<le> 2 ^ b'" using assms(2) by (intro power_increasing) auto
  with m(2) have "\<bar>m\<bar> \<le> 2 ^ b'" by (rule order_trans)
  with m(1) show ?thesis by (rule dyadicI)
qed

lemma dyadic_scale: "dyadic k b x \<Longrightarrow> dyadic (k + d) (b + d) x"
proof -
  assume "dyadic k b x"
  then obtain m where m: "x = of_int m / 2 ^ k" "\<bar>m\<bar> \<le> 2 ^ b" by (auto simp: dyadic_def)
  show ?thesis
    by (rule dyadicI[of _ "m * 2 ^ d"]) (use m in \<open>simp_all add: power_add abs_mult\<close>)
qed

lemma dyadic_add:
  assumes "dyadic k b x" "dyadic k b y"
  shows "dyadic k (Suc b) (x + y)" "dyadic k (Suc b) (x - y)"
proof -
  from assms obtain m n where m: "x = of_int m / 2 ^ k" "\<bar>m\<bar> \<le> 2 ^ b" and n: "y = of_int n / 2 ^ k" "\<bar>n\<bar> \<le> 2 ^ b"
    by (auto simp: dyadic_def)
  show "dyadic k (Suc b) (x + y)" by (rule dyadicI[of _ "m + n"]) (use m n in \<open>simp_all add: add_divide_distrib\<close>)
  show "dyadic k (Suc b) (x - y)" by (rule dyadicI[of _ "m - n"]) (use m n in \<open>simp_all add: diff_divide_distrib\<close>)
qed

lemma dyadic_mult:
  assumes "dyadic k b x" "dyadic l c y"
  shows "dyadic (k + l) (b + c) (x * y)"
proof -
  from assms obtain m n where m: "x = of_int m / 2 ^ k" "\<bar>m\<bar> \<le> 2 ^ b" and n: "y = of_int n / 2 ^ l" "\<bar>n\<bar> \<le> 2 ^ c"
    by (auto simp: dyadic_def)
  have "\<bar>m * n\<bar> \<le> 2 ^ (b + c)" using mult_mono[OF m(2) n(2)] by (simp add: abs_mult power_add)
  then show ?thesis by (intro dyadicI[of _ "m * n"]) (simp_all add: m(1) n(1) power_add)
qed

lemma rne_exact: "x = of_int k \<Longrightarrow> of_int (rne x) = x"
  by simp

lemma rnd_exact:
  assumes "x = of_int m / 2 ^ k" "\<bar>m\<bar> < 2 ^ nat prec" "0 < prec" "emin - (prec - 1) \<le> - int k"
  shows "rnd prec emin x = x"
proof (cases "x = 0")
  case False
  let ?e = "max (ilog2 \<bar>x\<bar>) emin - (prec - 1)"
  have "2 powi ilog2 \<bar>x\<bar> \<le> \<bar>x\<bar>" using False by (intro ilog2_le) simp
  also have "\<bar>x\<bar> < 2 powi (prec - int k)"
  proof -
    have "\<bar>x\<bar> = of_int \<bar>m\<bar> / 2 ^ k" by (simp add: assms(1))
    also have "\<dots> < 2 ^ nat prec / 2 ^ k"
    proof (rule divide_strict_right_mono)
      show "of_int \<bar>m\<bar> < (2 :: rat) ^ nat prec"
        using assms(2) by (metis of_int_less_iff of_int_numeral of_int_power)
    qed simp
    also have "\<dots> = 2 powi (prec - int k)" 
    proof -
      have "(2 :: rat) powi (prec - int k) = 2 powi prec / 2 powi int k" by (rule power_int_diff) simp
      then show ?thesis using assms(3) by (simp add: power_int_def)
    qed
    finally show ?thesis .
  qed
  finally have "ilog2 \<bar>x\<bar> < prec - int k" using power_int_increasing[of "prec - int k" "ilog2 \<bar>x\<bar>" "2 :: rat"] by force
  then have e: "0 \<le> - int k - ?e" using assms(4) by simp
  have "x / 2 powi ?e = of_int m * 2 powi (- int k - ?e)"
    by (simp add: assms(1) power_int_diff power_int_minus divide_simps)
  also have "\<dots> = of_int (m * 2 ^ nat (- int k - ?e))" using e by (simp add: power_int_def)
  finally have "of_int (rne (x / 2 powi ?e)) = x / 2 powi ?e" by (rule rne_exact)
  then show ?thesis using False by (simp add: rnd_def Let_def)
qed (simp add: rnd_def)

lemma rnd64_dyadic:
  assumes "dyadic k b x" "b < 53" "k \<le> 1074"
  shows "rnd64 x = x"
proof -
  from assms(1) obtain m where m: "x = of_int m / 2 ^ k" "\<bar>m\<bar> \<le> 2 ^ b" by (auto simp: dyadic_def)
  have "(2 :: int) ^ b < 2 ^ 53" using assms(2) by (intro power_strict_increasing) auto
  then have "\<bar>m\<bar> < 2 ^ nat 53" using m(2) by simp
  then show ?thesis unfolding rnd64_def by (rule rnd_exact[OF m(1)]) (use assms(3) in auto)
qed

definition exact_edge :: "rat \<Rightarrow> rat \<Rightarrow> rat \<Rightarrow> rat \<Rightarrow> rat \<Rightarrow> rat \<Rightarrow> rat" where
  "exact_edge ax ay bx byy cx cy = (bx - ax) * (cy - ay) - (byy - ay) * (cx - ax)"

lemma edge_exact:
  assumes "dyadic 12 24 ax" "dyadic 12 24 ay" "dyadic 12 24 bx" "dyadic 12 24 byy" "dyadic 12 24 cx" "dyadic 12 24 cy"
  shows "edge fu ax ay bx byy cx cy = exact_edge ax ay bx byy cx cy"
proof -
  have d: "dyadic 12 25 (x - y)" if "dyadic 12 24 x" "dyadic 12 24 y" for x y
    using dyadic_add(2)[OF that] by simp
  have r: "rnd64 (x - y) = x - y" if "dyadic 12 24 x" "dyadic 12 24 y" for x y
    using rnd64_dyadic[OF d[OF that]] by simp
  have p: "dyadic 24 50 ((x - y) * (z - t))" if "dyadic 12 24 x" "dyadic 12 24 y" "dyadic 12 24 z" "dyadic 12 24 t" for x y z t
    using dyadic_mult[OF d[OF that(1,2)] d[OF that(3,4)]] by simp
  have rp: "rnd64 ((x - y) * (z - t)) = (x - y) * (z - t)"
    if "dyadic 12 24 x" "dyadic 12 24 y" "dyadic 12 24 z" "dyadic 12 24 t" for x y z t
    using rnd64_dyadic[OF p[OF that]] by simp
  have "dyadic 24 51 (exact_edge ax ay bx byy cx cy)"
    unfolding exact_edge_def using dyadic_add(2)[OF p[OF assms(3,1,6,2)] p[OF assms(4,2,5,1)]] by simp
  then have "rnd64 (exact_edge ax ay bx byy cx cy) = exact_edge ax ay bx byy cx cy" by (rule rnd64_dyadic) simp_all
  then show ?thesis
    unfolding edge_def mul_sub2_def exact_edge_def by (simp add: r rp assms)
qed

lemma mul_add_exact:
  assumes "dyadic 6 10 a" "dyadic 6 13 b" "dyadic 6 13 c"
  shows "mul_add fu a b c = a * b + c" "dyadic 12 24 (a * b + c)"
proof -
  have ab: "dyadic 12 23 (a * b)" using dyadic_mult[OF assms(1,2)] by simp
  have "dyadic 12 23 c" using dyadic_mono[OF dyadic_scale[OF assms(3), of 6], of 23] by simp
  from dyadic_add(1)[OF ab this] show s: "dyadic 12 24 (a * b + c)" by simp
  show "mul_add fu a b c = a * b + c"
    using rnd64_dyadic[OF ab] rnd64_dyadic[OF s] by (simp add: mul_add_def)
qed

lemma pixel_centre:
  assumes "0 \<le> i" "i < 4096"
  shows "rnd64 (float64_of_int i + 1 / 2) = of_int i + 1 / 2" "dyadic 12 24 (of_int i + 1 / 2)"
proof -
  have "dyadic 0 12 (of_int i)" by (rule dyadicI[of _ i]) (use assms in auto)
  from rnd64_dyadic[OF this] have i: "float64_of_int i = of_int i" by (simp add: float64_of_int_def)
  show d: "dyadic 12 24 (of_int i + 1 / 2)"
    by (rule dyadicI[of _ "(2 * i + 1) * 2 ^ 11"]) (use assms in \<open>simp_all add: field_simps\<close>)
  show "rnd64 (float64_of_int i + 1 / 2) = of_int i + 1 / 2" unfolding i using rnd64_dyadic[OF d] by simp
qed

section \<open>Coverage is membership in the triangle\<close>

definition in_triangle :: "(rat \<times> rat) \<times> (rat \<times> rat) \<times> (rat \<times> rat) \<Rightarrow> rat \<Rightarrow> rat \<Rightarrow> bool" where
  "in_triangle = (\<lambda>((x0, y0), (x1, y1), (x2, y2)) px py. \<exists>a b c. 0 \<le> a \<and> 0 \<le> b \<and> 0 \<le> c \<and> a + b + c = 1 \<and>
     px = a * x0 + b * x1 + c * x2 \<and> py = a * y0 + b * y1 + c * y2)"

lemma exact_edge_sum:
  "exact_edge x1 y1 x2 y2 px py + exact_edge x2 y2 x0 y0 px py + exact_edge x0 y0 x1 y1 px py = exact_edge x0 y0 x1 y1 x2 y2"
  by (simp add: exact_edge_def algebra_simps)

lemma exact_edge_combine:
  "exact_edge x1 y1 x2 y2 px py * x0 + exact_edge x2 y2 x0 y0 px py * x1 + exact_edge x0 y0 x1 y1 px py * x2 =
     exact_edge x0 y0 x1 y1 x2 y2 * px"
  "exact_edge x1 y1 x2 y2 px py * y0 + exact_edge x2 y2 x0 y0 px py * y1 + exact_edge x0 y0 x1 y1 px py * y2 =
     exact_edge x0 y0 x1 y1 x2 y2 * py"
  by (simp_all add: exact_edge_def algebra_simps)

lemma exact_edge_weights:
  assumes "a + b + c = 1" "px = a * x0 + b * x1 + c * x2" "py = a * y0 + b * y1 + c * y2"
  shows "exact_edge x1 y1 x2 y2 px py = a * exact_edge x0 y0 x1 y1 x2 y2"
    "exact_edge x2 y2 x0 y0 px py = b * exact_edge x0 y0 x1 y1 x2 y2"
    "exact_edge x0 y0 x1 y1 px py = c * exact_edge x0 y0 x1 y1 x2 y2"
proof -
  have a: "a = 1 - b - c" using assms(1) by simp
  show "exact_edge x1 y1 x2 y2 px py = a * exact_edge x0 y0 x1 y1 x2 y2"
    "exact_edge x2 y2 x0 y0 px py = b * exact_edge x0 y0 x1 y1 x2 y2"
    "exact_edge x0 y0 x1 y1 px py = c * exact_edge x0 y0 x1 y1 x2 y2"
    unfolding assms(2,3) a exact_edge_def by (simp_all add: algebra_simps)
qed

lemma inside_iff:
  assumes "area = exact_edge x0 y0 x1 y1 x2 y2" "area \<noteq> 0"
  shows "pixel_inside area (exact_edge x1 y1 x2 y2 px py, exact_edge x2 y2 x0 y0 px py, exact_edge x0 y0 x1 y1 px py) \<longleftrightarrow>
    in_triangle ((x0, y0), (x1, y1), (x2, y2)) px py" (is "pixel_inside area (?w0, ?w1, ?w2) \<longleftrightarrow> ?T")
proof
  assume l: "pixel_inside area (?w0, ?w1, ?w2)"
  have "0 \<le> ?w0 / area" "0 \<le> ?w1 / area" "0 \<le> ?w2 / area"
    using l assms(2) by (auto simp: pixel_inside_def divide_nonneg_nonneg divide_nonpos_nonpos split: if_splits)
  moreover have "?w0 / area + ?w1 / area + ?w2 / area = 1"
    using exact_edge_sum[of x1 y1 x2 y2 px py x0 y0] assms by (simp flip: add_divide_distrib)
  moreover have "px = ?w0 / area * x0 + ?w1 / area * x1 + ?w2 / area * x2" "py = ?w0 / area * y0 + ?w1 / area * y1 + ?w2 / area * y2"
    using exact_edge_combine(1)[of x1 y1 x2 y2 px py x0 y0] exact_edge_combine(2)[of x1 y1 x2 y2 px py y0 x0] assms by (simp_all add: field_simps)
  ultimately show ?T unfolding in_triangle_def prod.case by blast
next
  assume ?T
  then obtain a b c where t: "0 \<le> a" "0 \<le> b" "0 \<le> c" "a + b + c = 1"
      "px = a * x0 + b * x1 + c * x2" "py = a * y0 + b * y1 + c * y2"
    by (auto simp: in_triangle_def)
  show "pixel_inside area (?w0, ?w1, ?w2)"
    unfolding exact_edge_weights[OF t(4-6)] assms(1)[symmetric]
    using t(1-3) assms(2) by (auto simp: pixel_inside_def mult_nonneg_nonpos)
qed

section \<open>The rasteriser loop\<close>

record raster =
  ra_fu :: fuse
  ra_tri :: "(rat \<times> rat) \<times> (rat \<times> rat) \<times> (rat \<times> rat)"
  ra_area :: rat
  ra_w :: int
  ra_h :: int

definition wf_raster :: "raster \<Rightarrow> bool" where
  "wf_raster p \<longleftrightarrow> 0 \<le> ra_w p \<and> 0 \<le> ra_h p"

definition inside_at :: "raster \<Rightarrow> int \<Rightarrow> int \<Rightarrow> bool" where
  "inside_at p i j = pixel_inside (ra_area p) (pixel_edges (ra_fu p) (ra_tri p) i j)"

definition bary_of :: "rat \<Rightarrow> rat \<times> rat \<times> rat \<Rightarrow> bary" where
  "bary_of area = (\<lambda>(w0, w1, w2). \<lparr>b_a = rnd64 (w0 / area), b_b = rnd64 (w1 / area), b_c = rnd64 (w2 / area)\<rparr>)"

definition bary_at :: "raster \<Rightarrow> int \<Rightarrow> int \<Rightarrow> bary" where
  "bary_at p i j = (if inside_at p i j then bary_of (ra_area p) (pixel_edges (ra_fu p) (ra_tri p) i j) else bary_zero)"

definition cov_part :: "raster \<Rightarrow> int \<times> int \<Rightarrow> bool list \<Rightarrow> bool list option" where
  "cov_part p = (\<lambda>(i, j) inn. if inside_at p i j then idx_set inn (j * ra_w p + i) True else Some inn)"

definition bary_part :: "raster \<Rightarrow> int \<times> int \<Rightarrow> bary list \<Rightarrow> bary list option" where
  "bary_part p = (\<lambda>(i, j) bw. if inside_at p i j then idx_set bw (j * ra_w p + i) (bary_at p i j) else Some bw)"

lemma raster_step_parts:
  "raster_step (ra_fu p) (ra_tri p) (ra_area p) (ra_w p) x (inn, bw) =
     Option.bind (cov_part p x inn) (\<lambda>inn'. Option.bind (bary_part p x bw) (\<lambda>bw'. Some (inn', bw')))"
  by (cases x; cases "pixel_edges (ra_fu p) (ra_tri p) (fst x) (snd x)")
    (auto simp: raster_step_def cov_part_def bary_part_def inside_at_def bary_at_def bary_of_def Let_def)

lemma fold_parts:
  assumes "fold_opt (cov_part p) ps inn = Some a" "fold_opt (bary_part p) ps bw = Some b"
  shows "fold_opt (raster_step (ra_fu p) (ra_tri p) (ra_area p) (ra_w p)) ps (inn, bw) = Some (a, b)"
  using assms
proof (induction ps arbitrary: inn bw)
  case (Cons x ps)
  obtain inn' bw' where "cov_part p x inn = Some inn'" "bary_part p x bw = Some bw'"
    using Cons.prems by (auto split: option.splits)
  with Cons show ?case by (simp add: raster_step_parts)
qed simp

interpretation cov_loop: pixel_writer "\<lambda>p. (ra_w p, ra_h p)" wf_raster False cov_part inside_at
proof
  fix p :: raster and i j and xs :: "bool list"
  assume "in_grid (fst (ra_w p, ra_h p)) (snd (ra_w p, ra_h p)) i j"
    "length xs = nat (fst (ra_w p, ra_h p) * snd (ra_w p, ra_h p))"
    "xs ! nat (j * fst (ra_w p, ra_h p) + i) = False"
  then show "cov_part p (i, j) xs = Some (xs[nat (j * fst (ra_w p, ra_h p) + i) := inside_at p i j])"
    using grid_index[of "ra_w p" "ra_h p" i j] list_update_id[of xs "nat (j * ra_w p + i)"]
    by (auto simp: cov_part_def idx_set_def)
qed (simp add: wf_raster_def)

interpretation bary_loop: pixel_writer "\<lambda>p. (ra_w p, ra_h p)" wf_raster bary_zero bary_part bary_at
proof
  fix p :: raster and i j and xs :: "bary list"
  assume "in_grid (fst (ra_w p, ra_h p)) (snd (ra_w p, ra_h p)) i j"
    "length xs = nat (fst (ra_w p, ra_h p) * snd (ra_w p, ra_h p))"
    "xs ! nat (j * fst (ra_w p, ra_h p) + i) = bary_zero"
  then show "bary_part p (i, j) xs = Some (xs[nat (j * fst (ra_w p, ra_h p) + i) := bary_at p i j])"
    using grid_index[of "ra_w p" "ra_h p" i j] list_update_id[of xs "nat (j * ra_w p + i)"]
    by (auto simp: bary_part_def bary_at_def idx_set_def)
qed (simp add: wf_raster_def)

lemma raster_scan:
  assumes "0 \<le> w" "0 \<le> h"
  shows "fold_opt (raster_step fu tri area w) (pixels w h) (replicate (nat (w * h)) False, replicate (nat (w * h)) bary_zero) =
    Some (grid_image w h (inside_at \<lparr>ra_fu = fu, ra_tri = tri, ra_area = area, ra_w = w, ra_h = h\<rparr>),
      grid_image w h (bary_at \<lparr>ra_fu = fu, ra_tri = tri, ra_area = area, ra_w = w, ra_h = h\<rparr>))"
proof -
  let ?p = "\<lparr>ra_fu = fu, ra_tri = tri, ra_area = area, ra_w = w, ra_h = h\<rparr>"
  have "wf_raster ?p" using assms by (simp add: wf_raster_def)
  from cov_loop.scan[OF this] bary_loop.scan[OF this] fold_parts[of ?p "pixels w h"] show ?thesis by simp
qed

text \<open>The rasteriser as a whole: a grid for the coverage and one for the weights.\<close>

definition triangle_of :: "fuse \<Rightarrow> Viewport \<Rightarrow> Vertex \<times> Vertex \<times> Vertex \<Rightarrow> (rat \<times> rat) \<times> (rat \<times> rat) \<times> (rat \<times> rat)" where
  "triangle_of fu vp = (\<lambda>(v0, v1, v2). (window fu vp v0, window fu vp v1, window fu vp v2))"

definition area_of :: "fuse \<Rightarrow> (rat \<times> rat) \<times> (rat \<times> rat) \<times> (rat \<times> rat) \<Rightarrow> rat" where
  "area_of fu = (\<lambda>((x0, y0), (x1, y1), (x2, y2)). edge fu x0 y0 x1 y1 x2 y2)"

definition covered :: "fuse \<Rightarrow> Viewport \<Rightarrow> Vertex \<times> Vertex \<times> Vertex \<Rightarrow> int \<Rightarrow> int \<Rightarrow> bool" where
  "covered fu vp v i j = (let tri = triangle_of fu vp v; area = area_of fu tri in
     area \<noteq> 0 \<and> pixel_inside area (pixel_edges fu tri i j))"

definition weights :: "fuse \<Rightarrow> Viewport \<Rightarrow> Vertex \<times> Vertex \<times> Vertex \<Rightarrow> int \<Rightarrow> int \<Rightarrow> bary" where
  "weights fu vp v i j = (let tri = triangle_of fu vp v; area = area_of fu tri in
     if covered fu vp v i j then bary_of area (pixel_edges fu tri i j) else bary_zero)"

lemma grid_image_const: "0 \<le> w \<Longrightarrow> 0 \<le> h \<Longrightarrow> grid_image w h (\<lambda>i j. c) = replicate (nat (w * h)) c"
  by (simp add: grid_image_def map_replicate_const length_pixels case_prod_beta' comp_def)

lemma rasterise_spec:
  assumes "0 \<le> w" "0 \<le> h"
  shows "rasterise fu vp v0 v1 v2 w h = Some (\<lparr>cv_W = w, cv_H = h, cv_In = grid_image w h (covered fu vp (v0, v1, v2))\<rparr>,
    grid_image w h (weights fu vp (v0, v1, v2)))"
proof -
  obtain x0 y0 x1 y1 x2 y2 where win: "window fu vp v0 = (x0, y0)" "window fu vp v1 = (x1, y1)" "window fu vp v2 = (x2, y2)"
    by fastforce
  let ?tri = "((x0, y0), (x1, y1), (x2, y2))" and ?area = "edge fu x0 y0 x1 y1 x2 y2"
  have tri: "triangle_of fu vp (v0, v1, v2) = ?tri" "area_of fu ?tri = ?area"
    by (simp_all add: triangle_of_def win area_of_def)
  have mk: "make_slice (w * h) c = Some (replicate (nat (w * h)) c)" for c :: 'c
    using mult_nonneg_nonneg[OF assms] by (simp add: make_slice_def)
  let ?p = "\<lparr>ra_fu = fu, ra_tri = ?tri, ra_area = ?area, ra_w = w, ra_h = h\<rparr>"
  have "covered fu vp (v0, v1, v2) = (\<lambda>i j. False)" "weights fu vp (v0, v1, v2) = (\<lambda>i j. bary_zero)" if "?area = 0"
    using that by (simp_all add: fun_eq_iff covered_def weights_def tri Let_def)
  moreover have "covered fu vp (v0, v1, v2) = inside_at ?p" "weights fu vp (v0, v1, v2) = bary_at ?p" if "?area \<noteq> 0"
    using that by (simp_all add: fun_eq_iff covered_def weights_def tri Let_def inside_at_def bary_at_def)
  ultimately show ?thesis
    by (cases "?area = 0") (simp_all add: rasterise_def win Let_def mk raster_scan[OF assms] grid_image_const[OF assms])
qed

section \<open>Filling the image\<close>

lemma fill_loop_map:
  assumes "\<And>idx. 0 \<le> idx \<Longrightarrow> idx < n \<Longrightarrow> f idx = Some (g idx)" "0 \<le> n" "length out = nat n"
  shows "fill_loop n f out = Some (map g [0..n - 1])"
proof -
  have "fold_opt (\<lambda>idx out. do { p \<leftarrow> f idx; idx_set out idx p }) [0..int k - 1] out = Some (map g [0..int k - 1] @ drop k out)"
    if "k \<le> nat n" for k
    using that
  proof (induction k)
    case (Suc k)
    have len: "length (map g [0..int k - 1]) = k" by simp
    have "f (int k) = Some (g (int k))" using assms(1)[of "int k"] Suc.prems by simp
    moreover have "idx_set (map g [0..int k - 1] @ drop k out) (int k) (g (int k)) =
        Some (map g [0..int k - 1] @ g (int k) # drop (Suc k) out)"
    proof -
      have "k < length out" using Suc.prems assms(3) by simp
      then show ?thesis using len by (simp add: idx_set_def list_update_append Cons_nth_drop_Suc[symmetric])
    qed
    moreover have "[0..int (Suc k) - 1] = [0..int k - 1] @ [int k]" using upto_snoc[of "int k"] by simp
    ultimately show ?case using Suc by (simp add: fold_opt_append)
  qed simp
  from this[of "nat n"] show ?thesis using assms(2,3) by (simp add: fill_loop_def)
qed

lemma map_upto_nth: "map (\<lambda>idx. F (xs ! nat idx)) [0..int (length xs) - 1] = map F xs"
  by (rule nth_equalityI) (simp_all add: nth_upto)

lemma fill_grid:
  assumes "0 \<le> w" "0 \<le> h"
  shows "map (\<lambda>idx. F (grid_image w h a ! nat idx) (grid_image w h b ! nat idx)) [0..w * h - 1] = grid_image w h (\<lambda>i j. F (a i j) (b i j))"
proof -
  let ?g = "grid_image w h (\<lambda>i j. (a i j, b i j))"
  have wh: "0 \<le> w * h" using assms by (rule mult_nonneg_nonneg)
  have "grid_image w h a = map fst ?g" "grid_image w h b = map snd ?g" by (auto simp: grid_image_def)
  moreover have "[0..w * h - 1] = [0..int (length ?g) - 1]" using assms wh by simp
  ultimately have "map (\<lambda>idx. F (grid_image w h a ! nat idx) (grid_image w h b ! nat idx)) [0..w * h - 1] =
      map (\<lambda>idx. (\<lambda>(x, y). F x y) (?g ! nat idx)) [0..int (length ?g) - 1]"
    by (auto simp: case_prod_beta)
  then show ?thesis unfolding map_upto_nth by (auto simp: grid_image_def)
qed

lemma idx_get_grid:
  assumes "0 \<le> w" "0 \<le> h" "0 \<le> idx" "idx < w * h"
  shows "idx_get (grid_image w h f) idx = Some (grid_image w h f ! nat idx)"
  using assms by (simp add: idx_get_def)

lemma DrawReference_spec:
  assumes "0 \<le> w" "0 \<le> h"
  shows "DrawReference fu vp v color bg w h = Some (
    grid_image w h (\<lambda>i j. if covered fu vp v i j then rgbaFloatToBGRA color else bg),
    \<lparr>cv_W = w, cv_H = h, cv_In = grid_image w h (covered fu vp v)\<rparr>)"
proof -
  obtain v0 v1 v2 where v: "v = (v0, v1, v2)" by (cases v)
  let ?in = "grid_image w h (covered fu vp v)"
  have wh: "0 \<le> w * h" using assms by (rule mult_nonneg_nonneg)
  have "fill_loop (w * h) (\<lambda>idx. do { b \<leftarrow> idx_get ?in idx; Some (if b then rgbaFloatToBGRA color else bg) })
      (replicate (nat (w * h)) black) = Some (map (\<lambda>idx. if ?in ! nat idx then rgbaFloatToBGRA color else bg) [0..w * h - 1])"
    using wh by (intro fill_loop_map) (simp_all add: idx_get_grid[OF assms])
  then show ?thesis
    using wh fill_grid[OF assms, of "\<lambda>b _. if b then rgbaFloatToBGRA color else bg" "covered fu vp v" "covered fu vp v"]
    by (simp add: DrawReference_def v rasterise_spec[OF assms] make_slice_def)
qed

section \<open>Scenes on a binary grid\<close>

definition window_point :: "int \<Rightarrow> int \<Rightarrow> Vertex \<Rightarrow> rat \<times> rat" where
  "window_point w h v = (vX v * (of_int w / 2) + of_int w / 2, vY v * (of_int h / 2) + of_int h / 2)"

definition window_triangle :: "int \<Rightarrow> int \<Rightarrow> Vertex \<times> Vertex \<times> Vertex \<Rightarrow> (rat \<times> rat) \<times> (rat \<times> rat) \<times> (rat \<times> rat)" where
  "window_triangle w h = (\<lambda>(v0, v1, v2). (window_point w h v0, window_point w h v1, window_point w h v2))"

definition flat :: "(rat \<times> rat) \<times> (rat \<times> rat) \<times> (rat \<times> rat) \<Rightarrow> bool" where
  "flat = (\<lambda>((x0, y0), (x1, y1), (x2, y2)). exact_edge x0 y0 x1 y1 x2 y2 = 0)"

text \<open>Clip-space coordinates that are multiples of 1/64.\<close>

definition on_grid :: "rat \<Rightarrow> bool" where
  "on_grid x \<longleftrightarrow> \<bar>x\<bar> \<le> 16 \<and> of_int \<lfloor>x * 64\<rfloor> = x * 64"

definition grid_vertex :: "Vertex \<Rightarrow> bool" where
  "grid_vertex v \<longleftrightarrow> on_grid (vX v) \<and> on_grid (vY v)"

definition grid_triangle :: "Vertex \<times> Vertex \<times> Vertex \<Rightarrow> bool" where
  "grid_triangle = (\<lambda>(v0, v1, v2). grid_vertex v0 \<and> grid_vertex v1 \<and> grid_vertex v2)"

lemma on_grid_dyadic:
  assumes "on_grid x"
  shows "dyadic 6 10 x"
proof (rule dyadicI)
  have x: "of_int \<lfloor>x * 64\<rfloor> = x * 64" "\<bar>x\<bar> \<le> 16" using assms by (auto simp: on_grid_def)
  show "x = of_int \<lfloor>x * 64\<rfloor> / 2 ^ 6" unfolding x(1) by simp
  have "- 1024 \<le> x * 64" "x * 64 \<le> 1024" using x(2) by linarith+
  then have "- 1024 \<le> \<lfloor>x * 64\<rfloor>" "\<lfloor>x * 64\<rfloor> \<le> 1024" by linarith+
  then have "\<bar>\<lfloor>x * 64\<rfloor>\<bar> \<le> 1024" by linarith
  then show "\<bar>\<lfloor>x * 64\<rfloor>\<bar> \<le> 2 ^ 10" by (simp only: power_numeral numeral_times_numeral) simp
qed

lemma viewport_half:
  assumes "0 \<le> n" "n \<le> 256"
  shows "rnd32 (float32_of_int n / 2) = of_int n / 2" "dyadic 6 13 (of_int n / 2)"
proof -
  have 1: "rnd32 (of_int n) = of_int n"
    unfolding rnd32_def by (rule rnd_exact[of _ n 0]) (use assms in auto)
  have 2: "rnd32 (of_int n / 2) = of_int n / 2"
    unfolding rnd32_def by (rule rnd_exact[of _ n 1]) (use assms in auto)
  show "rnd32 (float32_of_int n / 2) = of_int n / 2" using 1 2 by (simp add: float32_of_int_def)
  show "dyadic 6 13 (of_int n / 2)" by (rule dyadicI[of _ "n * 32"]) (use assms in auto)
qed

lemma window_exact:
  assumes "0 \<le> w" "w \<le> 256" "0 \<le> h" "h \<le> 256" "grid_vertex v"
  shows "window fu (ViewportFor w h) v = window_point w h v"
    "dyadic 12 24 (fst (window_point w h v))" "dyadic 12 24 (snd (window_point w h v))"
proof -
  note hw = viewport_half[OF assms(1,2)] and hh = viewport_half[OF assms(3,4)]
  have d: "dyadic 6 10 (vX v)" "dyadic 6 10 (vY v)" using assms(5) by (simp_all add: grid_vertex_def on_grid_dyadic)
  show "window fu (ViewportFor w h) v = window_point w h v"
    unfolding window_def window_point_def ViewportFor_def Viewport.simps hw(1) hh(1)
      mul_add_exact(1)[OF d(1) hw(2) hw(2)] mul_add_exact(1)[OF d(2) hh(2) hh(2)] by (rule refl)
  show "dyadic 12 24 (fst (window_point w h v))" "dyadic 12 24 (snd (window_point w h v))"
    unfolding window_point_def using mul_add_exact(2)[OF d(1) hw(2) hw(2)] mul_add_exact(2)[OF d(2) hh(2) hh(2)] by simp_all
qed

lemma covered_exact:
  assumes "w \<le> 256" "h \<le> 256" "grid_triangle v" "in_grid w h i j"
  shows "covered fu (ViewportFor w h) v i j \<longleftrightarrow>
    \<not> flat (window_triangle w h v) \<and> in_triangle (window_triangle w h v) (of_int i + 1 / 2) (of_int j + 1 / 2)"
proof -
  obtain v0 v1 v2 where v: "v = (v0, v1, v2)" "grid_vertex v0" "grid_vertex v1" "grid_vertex v2"
    using assms(3) by (auto simp: grid_triangle_def)
  obtain x0 y0 x1 y1 x2 y2 where win: "window_point w h v0 = (x0, y0)" "window_point w h v1 = (x1, y1)" "window_point w h v2 = (x2, y2)"
    by fastforce
  have wh: "0 \<le> w" "0 \<le> h" and ij: "0 \<le> i" "i < 4096" "0 \<le> j" "j < 4096"
    using assms(1,2,4) by (auto simp: in_grid_def)
  note we = window_exact[OF wh(1) assms(1) wh(2) assms(2)]
  have tri: "triangle_of fu (ViewportFor w h) (v0, v1, v2) = ((x0, y0), (x1, y1), (x2, y2))"
    using we(1)[OF v(2)] we(1)[OF v(3)] we(1)[OF v(4)] by (simp add: triangle_of_def win)
  have d: "dyadic 12 24 x0" "dyadic 12 24 y0" "dyadic 12 24 x1" "dyadic 12 24 y1" "dyadic 12 24 x2" "dyadic 12 24 y2"
    using we(2,3)[OF v(2)] we(2,3)[OF v(3)] we(2,3)[OF v(4)] by (simp_all add: win)
  note c = pixel_centre[OF ij(1,2)] pixel_centre[OF ij(3,4)]
  have area: "edge fu x0 y0 x1 y1 x2 y2 = exact_edge x0 y0 x1 y1 x2 y2" by (intro edge_exact d)
  have edges: "pixel_edges fu ((x0, y0), (x1, y1), (x2, y2)) i j =
      (exact_edge x1 y1 x2 y2 (of_int i + 1 / 2) (of_int j + 1 / 2), exact_edge x2 y2 x0 y0 (of_int i + 1 / 2) (of_int j + 1 / 2),
       exact_edge x0 y0 x1 y1 (of_int i + 1 / 2) (of_int j + 1 / 2))"
    unfolding pixel_edges_def prod.case Let_def c(1,3) by (simp add: edge_exact d c(2,4))
  show ?thesis
    using inside_iff[of "exact_edge x0 y0 x1 y1 x2 y2" x0 y0 x1 y1 x2 y2 "of_int i + 1 / 2" "of_int j + 1 / 2"]
    by (auto simp: covered_def tri Let_def area_of_def area edges window_triangle_def v(1) win flat_def)
qed

text \<open>C5. For a triangle whose clip-space coordinates are multiples of 1/64 and an image of at most
  256 by 256 pixels, \<open>DrawReference\<close> colours exactly the pixels whose centre lies in the closed
  window-space triangle, in either winding; a degenerate triangle covers nothing. The result
  does not depend on fused multiplications.\<close>

theorem draw_reference_exact:
  assumes "0 \<le> w" "w \<le> 256" "0 \<le> h" "h \<le> 256" "grid_triangle v" "in_grid w h i j"
  shows "\<exists>img cov. DrawReference fu (ViewportFor w h) v color bg w h = Some (img, cov) \<and> length img = nat (w * h) \<and>
    wf_cov cov \<and> (covers cov i j \<longleftrightarrow> \<not> flat (window_triangle w h v) \<and>
      in_triangle (window_triangle w h v) (of_int i + 1 / 2) (of_int j + 1 / 2)) \<and>
    img ! nat (j * w + i) = (if covers cov i j then rgbaFloatToBGRA color else bg)"
  using DrawReference_spec[OF assms(1,3), of fu "ViewportFor w h" v color bg] covered_exact[OF assms(2,4,5,6), of fu] assms(1,3)
    nth_grid_image[OF assms(6), of "covered fu (ViewportFor w h) v"]
    nth_grid_image[OF assms(6), of "\<lambda>i j. if covered fu (ViewportFor w h) v i j then rgbaFloatToBGRA color else bg"]
  by (simp add: wf_cov_def covers_def)

definition demo_triangle :: "Vertex \<times> Vertex \<times> Vertex" where
  "demo_triangle = (\<lparr>vX = - (1 / 2), vY = - (1 / 2), vU = 0, vV = 0\<rparr>, \<lparr>vX = 1 / 2, vY = - (1 / 2), vU = 1, vV = 0\<rparr>,
     \<lparr>vX = 0, vY = 1 / 2, vU = 1 / 2, vV = 1\<rparr>)"

theorem draw_reference_exact_witness:
  "\<exists>img cov. DrawReference FuseL (ViewportFor 16 16) demo_triangle (1, 0, 0, 1) (BGRA 0 0 0 255) 16 16 = Some (img, cov) \<and>
     length img = 256"
proof -
  have "grid_triangle demo_triangle" "in_grid 16 16 8 6" by code_simp+
  from draw_reference_exact[OF _ _ _ _ this, of FuseL "(1, 0, 0, 1)" "BGRA 0 0 0 255"] show ?thesis by auto
qed

section \<open>Texture sampling\<close>

definition texture :: "bytes \<Rightarrow> int \<Rightarrow> int \<Rightarrow> bool" where
  "texture tex texW texH \<longleftrightarrow> 0 < texW \<and> 0 < texH \<and> texW * texH * 4 \<le> int (length tex)"

definition texel :: "bytes \<Rightarrow> int \<Rightarrow> int \<Rightarrow> int \<Rightarrow> nat \<Rightarrow> byte" where
  "texel tex texW ix iy k = tex ! (nat ((iy * texW + ix) * 4) + k)"

lemma clampInt_range: "lo \<le> hi \<Longrightarrow> lo \<le> clampInt x lo hi \<and> clampInt x lo hi \<le> hi"
  by (simp add: clampInt_def)

lemma clampInt_id: "lo \<le> x \<Longrightarrow> x \<le> hi \<Longrightarrow> clampInt x lo hi = x"
  by (simp add: clampInt_def)

lemma texel_get:
  assumes "texture tex texW texH" "in_grid texW texH ix iy" "k < 4"
  shows "idx_get tex ((iy * texW + ix) * 4 + int k) = Some (texel tex texW ix iy k)"
proof -
  define n N where "n = iy * texW + ix" and "N = texW * texH"
  have "0 \<le> n" "n < N" using grid_index[OF assms(2)] by (simp_all add: n_def N_def)
  moreover have "N * 4 \<le> int (length tex)" using assms(1) by (simp add: texture_def N_def)
  ultimately have "n * 4 + int k < int (length tex)" "nat (n * 4 + int k) = nat (n * 4) + k" using assms(3) by linarith+
  then show ?thesis using \<open>0 \<le> n\<close> unfolding n_def[symmetric] texel_def by (simp add: idx_get_def)
qed

lemma texels:
  assumes "texture tex texW texH" "in_grid texW texH ix iy"
  shows "texelBGRA tex texW ix iy = Some (BGRA (texel tex texW ix iy 2) (texel tex texW ix iy 1) (texel tex texW ix iy 0) (texel tex texW ix iy 3))"
    "texelRGBAf tex texW ix iy = Some (map (\<lambda>k. of_int (uint (texel tex texW ix iy k))) [0, 1, 2, 3])"
  using texel_get[OF assms, of 0] texel_get[OF assms, of 1] texel_get[OF assms, of 2] texel_get[OF assms, of 3]
  by (simp_all add: texelBGRA_def texelRGBAf_def)

lemma clamp_in_grid:
  assumes "texture tex texW texH"
  shows "in_grid texW texH (clampInt x 0 (texW - 1)) (clampInt y 0 (texH - 1))"
  using assms clampInt_range[of 0 "texW - 1" x] clampInt_range[of 0 "texH - 1" y] by (simp add: in_grid_def texture_def)

lemma sample_total:
  assumes "texture tex texW texH"
  shows "\<exists>p. sample fu tex texW texH u v flt = Some p"
  using texels(1)[OF assms clamp_in_grid[OF assms]] texels(2)[OF assms clamp_in_grid[OF assms]]
  by (simp add: sample_def Let_def)

lemma rnd64_small: "0 \<le> n \<Longrightarrow> n \<le> 255 \<Longrightarrow> rnd64 (of_int n) = of_int n"
  by (rule rnd64_dyadic[of 0 8]) (auto intro!: dyadicI[of _ n])

lemma byte_roundtrip:
  assumes "0 \<le> n" "n \<le> 255"
  shows "byte_of_float (roundUnit (of_int n)) = of_int n"
proof -
  have "math_Round (of_int n) = n" 
  proof -
    have "\<lfloor>of_int n + 1 / 2 :: rat\<rfloor> = n" by linarith
    then show ?thesis using assms(1) by (simp only: math_Round_def of_int_0_le_iff if_True)
  qed
  then show ?thesis using assms by (simp add: roundUnit_def byte_of_float_def)
qed

lemma centre_exact:
  assumes "0 \<le> ix" "ix < n" "n \<le> 4096" "u * of_int n = of_int ix + 1 / 2"
  shows "\<lfloor>rnd64 (u * float64_of_int n)\<rfloor> = ix" "mul_add fu u (float64_of_int n) (- (1 / 2)) = of_int ix"
    "float64_of_int ix = of_int ix"
proof -
  have int: "float64_of_int k = of_int k" if "0 \<le> k" "k \<le> 4096" for k
    unfolding float64_of_int_def by (rule rnd64_dyadic[of 0 12]) (use that in \<open>auto intro!: dyadicI[of _ k]\<close>)
  have r: "rnd64 (of_int ix + 1 / 2) = of_int ix + 1 / 2"
    by (rule rnd64_dyadic[OF pixel_centre(2)]) (use assms(1-3) in auto)
  show i: "float64_of_int ix = of_int ix" using int assms(1-3) by simp
  have n: "float64_of_int n = of_int n" using int assms(1-3) by simp
  show "\<lfloor>rnd64 (u * float64_of_int n)\<rfloor> = ix" unfolding n assms(4) r by linarith
  have "rnd64 (of_int ix) = of_int ix" using i by (simp add: float64_of_int_def)
  then show "mul_add fu u (float64_of_int n) (- (1 / 2)) = of_int ix"
    unfolding mul_add_def n assms(4) by (simp add: r)
qed

lemma rnd64_0 [simp]: "rnd64 0 = 0"
  by (simp add: rnd64_def rnd_def)

lemma rnd64_1 [simp]: "rnd64 1 = 1"
  using rnd64_small[of 1] by simp

lemma blend_corner:
  assumes "rnd64 (c00 ! k) = c00 ! k"
  shows "blend fu 0 0 c00 c10 c01 c11 k = c00 ! k"
  using assms by (simp add: blend_def mul_add2_def)

text \<open>C30. Sampling stays inside a texture of the announced size for every coordinate and both
  filters, and at the centre of a texel both filters return that texel, in BGRA order.\<close>

theorem sample_texel_centre:
  assumes "texture tex texW texH"
  shows "(\<exists>p. sample fu tex texW texH u v flt = Some p) \<and>
    (in_grid texW texH ix iy \<and> texW \<le> 4096 \<and> texH \<le> 4096 \<and>
      u * of_int texW = of_int ix + 1 / 2 \<and> v * of_int texH = of_int iy + 1 / 2 \<longrightarrow>
     sample fu tex texW texH u v flt = Some (BGRA (texel tex texW ix iy 2) (texel tex texW ix iy 1)
       (texel tex texW ix iy 0) (texel tex texW ix iy 3)))"
proof (intro conjI impI)
  show "\<exists>p. sample fu tex texW texH u v flt = Some p" by (rule sample_total[OF assms])
next
  assume "in_grid texW texH ix iy \<and> texW \<le> 4096 \<and> texH \<le> 4096 \<and>
    u * of_int texW = of_int ix + 1 / 2 \<and> v * of_int texH = of_int iy + 1 / 2"
  then have g: "in_grid texW texH ix iy" and x: "0 \<le> ix" "ix < texW" "texW \<le> 4096" "u * of_int texW = of_int ix + 1 / 2"
      and y: "0 \<le> iy" "iy < texH" "texH \<le> 4096" "v * of_int texH = of_int iy + 1 / 2"
    by (auto simp: in_grid_def)
  have cl: "clampInt ix 0 (texW - 1) = ix" "clampInt iy 0 (texH - 1) = iy"
    using x y by (simp_all add: clampInt_id)
  show "sample fu tex texW texH u v flt = Some (BGRA (texel tex texW ix iy 2) (texel tex texW ix iy 1)
       (texel tex texW ix iy 0) (texel tex texW ix iy 3))"
  proof (cases flt)
    case Nearest
    then show ?thesis
      by (simp add: sample_def Let_def centre_exact(1)[OF x] centre_exact(1)[OF y] cl texels(1)[OF assms g])
  next
    case Linear
    define c where "c k = uint (texel tex texW ix iy k)" for k
    have c: "0 \<le> c k" "c k \<le> 255" "of_int (c k) = texel tex texW ix iy k" for k
      using uint_lt2p[of "texel tex texW ix iy k"] by (auto simp: c_def)
    have c00: "texelRGBAf tex texW ix iy = Some (map (\<lambda>k. of_int (c k)) [0, 1, 2, 3])"
      using texels(2)[OF assms g] by (simp only: c_def)
    obtain c10 c01 c11 where taps: "texelRGBAf tex texW (clampInt (ix + 1) 0 (texW - 1)) iy = Some c10"
        "texelRGBAf tex texW ix (clampInt (iy + 1) 0 (texH - 1)) = Some c01"
        "texelRGBAf tex texW (clampInt (ix + 1) 0 (texW - 1)) (clampInt (iy + 1) 0 (texH - 1)) = Some c11"
      using texels(2)[OF assms clamp_in_grid[OF assms, of "ix + 1" iy]] texels(2)[OF assms clamp_in_grid[OF assms, of ix "iy + 1"]]
        texels(2)[OF assms clamp_in_grid[OF assms, of "ix + 1" "iy + 1"]] unfolding cl by blast
    have b: "blend fu 0 0 (map (\<lambda>k. of_int (c k)) [0, 1, 2, 3]) c10 c01 c11 k = of_int (c k)" if "k \<in> {0, 1, 2, 3}" for k
      using that rnd64_small[OF c(1,2)] by (subst blend_corner) auto
    show ?thesis
      unfolding sample_def Linear Let_def centre_exact(2)[OF x] centre_exact(2)[OF y] floor_of_int
        centre_exact(3)[OF x] centre_exact(3)[OF y] diff_self rnd64_0 cl c00 taps
      using b byte_roundtrip[OF c(1,2)] c(3) by simp
  qed
qed

theorem sample_texel_centre_witness:
  "sample FuseR [1, 2, 3, 4, 5, 6, 7, 8] 2 1 (3 / 4) (1 / 2) Linear = Some (BGRA 7 6 5 8)"
proof -
  have "texture [1, 2, 3, 4, 5, 6, 7, 8] 2 1" "in_grid 2 1 1 0" by code_simp+
  with sample_texel_centre[of "[1, 2, 3, 4, 5, 6, 7, 8]" 2 1 FuseR "3 / 4" "1 / 2" Linear 1 0] show ?thesis
    by (simp add: texel_def)
qed

section \<open>The textured reference\<close>

definition texel_colour :: "fuse \<Rightarrow> Viewport \<Rightarrow> Vertex \<times> Vertex \<times> Vertex \<Rightarrow> bytes \<Rightarrow> int \<Rightarrow> int \<Rightarrow> Filter \<Rightarrow> bary \<Rightarrow> BGRA option" where
  "texel_colour fu vp = (\<lambda>(v0, v1, v2) tex texW texH flt b.
     sample fu tex texW texH (interpolate fu b (vU v0) (vU v1) (vU v2)) (interpolate fu b (vV v0) (vV v1) (vV v2)) flt)"

lemma TexReference_spec:
  assumes "0 \<le> w" "0 \<le> h" "texture tex texW texH"
  shows "TexReference fu vp v tex texW texH flt bg w h = Some (
    grid_image w h (\<lambda>i j. if covered fu vp v i j then the (texel_colour fu vp v tex texW texH flt (weights fu vp v i j)) else bg),
    \<lparr>cv_W = w, cv_H = h, cv_In = grid_image w h (covered fu vp v)\<rparr>)"
proof -
  obtain v0 v1 v2 where v: "v = (v0, v1, v2)" by (cases v)
  let ?in = "grid_image w h (covered fu vp (v0, v1, v2))" and ?bw = "grid_image w h (weights fu vp (v0, v1, v2))"
  let ?col = "\<lambda>b. the (texel_colour fu vp (v0, v1, v2) tex texW texH flt b)"
  have wh: "0 \<le> w * h" using assms(1,2) by (rule mult_nonneg_nonneg)
  have "fill_loop (w * h) (\<lambda>idx. do {
       inn \<leftarrow> idx_get ?in idx;
       if \<not> inn then Some bg
       else do {
         b \<leftarrow> idx_get ?bw idx;
         let u = interpolate fu b (vU v0) (vU v1) (vU v2);
         let vv = interpolate fu b (vV v0) (vV v1) (vV v2);
         sample fu tex texW texH u vv flt } }) (replicate (nat (w * h)) black) =
      Some (map (\<lambda>idx. if ?in ! nat idx then ?col (?bw ! nat idx) else bg) [0..w * h - 1])"
  proof (rule fill_loop_map)
    fix idx assume "0 \<le> idx" "idx < w * h"
    moreover have "\<exists>p. texel_colour fu vp (v0, v1, v2) tex texW texH flt b = Some p" for b
      using sample_total[OF assms(3)] by (simp add: texel_colour_def)
    ultimately show "(do {
       inn \<leftarrow> idx_get ?in idx;
       if \<not> inn then Some bg
       else do {
         b \<leftarrow> idx_get ?bw idx;
         let u = interpolate fu b (vU v0) (vU v1) (vU v2);
         let vv = interpolate fu b (vV v0) (vV v1) (vV v2);
         sample fu tex texW texH u vv flt } }) = Some (if ?in ! nat idx then ?col (?bw ! nat idx) else bg)"
      by (auto simp: idx_get_grid[OF assms(1,2)] texel_colour_def)
  qed (use wh in simp_all)
  then show ?thesis
    unfolding v using wh fill_grid[OF assms(1,2), of "\<lambda>c b. if c then ?col b else bg" "covered fu vp (v0, v1, v2)" "weights fu vp (v0, v1, v2)"]
    by (simp add: TexReference_def rasterise_spec[OF assms(1,2)] make_slice_def)
qed

end
