(* ===== verification/Validator_Props.thy ===== *)
theory Validator_Props
  imports Validator Render_Props
begin

text \<open>
  What the exit code of the validator means. The clear mode exits with 0 exactly when every pixel
  is red; the draw mode exactly when the readback agrees with the analytic triangle. A session
  against a conforming server sends the documented commands in order and exits with the verdict
  on the bytes read back. The locale \<open>duplex\<close> of the client carries the session; it is
  interpreted here on the connection of the validator.
\<close>

section \<open>The printed maps\<close>

lemma fold_opt_appends:
  assumes "\<And>x out. x \<in> set xs \<Longrightarrow> f x out = Some (out @ g x)"
  shows "fold_opt f xs out = Some (out @ concat (map g xs))"
  using assms by (induction xs arbitrary: out) auto

definition glyph_row :: "bool list \<Rightarrow> int \<Rightarrow> int \<Rightarrow> string" where
  "glyph_row xs w j = map (\<lambda>i. if xs ! nat (j * w + i) then CHR ''#'' else CHR ''.'') [0..w - 1] @ [CHR 0x0A]"

lemma ASCIIMap_rows:
  assumes "0 \<le> w" "0 \<le> h" "nat (w * h) \<le> length xs"
  shows "ASCIIMap xs w h = Some (concat (map (glyph_row xs w) [0..h - 1]))"
proof -
  have row: "ascii_row xs w j out = Some (out @ glyph_row xs w j)" if "j \<in> set [0..h - 1]" for j out
  proof -
    let ?g = "\<lambda>i. [if xs ! nat (j * w + i) then CHR ''#'' else CHR ''.'']"
    have "idx_get xs (j * w + i) = Some (xs ! nat (j * w + i))" if "i \<in> set [0..w - 1]" for i
      using grid_index[of w h i j] that \<open>j \<in> set [0..h - 1]\<close> assms(3) by (auto simp: in_grid_def idx_get_def)
    then have "fold_opt (\<lambda>i out. do { b \<leftarrow> idx_get xs (j * w + i); Some (out @ (if b then ''#'' else ''.'')) })
        [0..w - 1] out = Some (out @ concat (map ?g [0..w - 1]))"
      by (intro fold_opt_appends) simp
    then show ?thesis by (simp add: ascii_row_def glyph_row_def concat_map_singleton)
  qed
  have "0 \<le> (w + 1) * h" using assms by simp
  then show ?thesis
    using fold_opt_appends[of "[0..h - 1]" "ascii_row xs w" "glyph_row xs w" "[]"] row
    by (simp add: ASCIIMap_def make_slice_def)
qed

lemma length_BytesToBGRA [simp]: "length (BytesToBGRA b) = length b div 4"
  by (simp add: BytesToBGRA_def)

lemma dumpGrids_total:
  assumes "0 \<le> w" "0 \<le> h" "nat (w * h) \<le> length px div 4" "nat (w * h) \<le> length refIn"
  shows "\<exists>m. dumpGrids px refIn w h bg = Some m"
  using ASCIIMap_rows[OF assms(1,2), of "CoverageOf (BytesToBGRA px) bg"] ASCIIMap_rows[OF assms(1,2,4)] assms(3)
  by (auto simp: dumpGrids_def Let_def CoverageOf_def)

section \<open>Clear\<close>

lemma clear_loop_counts:
  assumes "w \<noteq> 0"
  shows "\<exists>f. clear_loop w i px bad first = Some (bad + int (length (filter (\<lambda>p. p \<noteq> red) px)), f)"
proof (induction px arbitrary: i bad first)
  case (Cons p px)
  show ?case using Cons[of "i + 1" "bad + 1"] Cons[of "i + 1" bad first] assms by (auto simp: add.assoc)
qed simp

lemma assertClearExact_eq:
  assumes "w \<noteq> 0"
  shows "assertClearExact px w h = Some (if \<forall>p\<in>set (BytesToBGRA px). p = red then 0 else 1)"
proof -
  obtain f where "clear_loop w 0 (BytesToBGRA px) 0 None = Some (int (length (filter (\<lambda>p. p \<noteq> red) (BytesToBGRA px))), f)"
    using clear_loop_counts[OF assms, of 0 "BytesToBGRA px" 0 None] by auto
  then show ?thesis by (auto simp: assertClearExact_def filter_empty_conv)
qed

lemma assertClearExact_zero_width:
  "assertClearExact px 0 h = (if \<forall>p\<in>set (BytesToBGRA px). p = red then Some 0 else None)"
proof -
  have "clear_loop 0 i ps 0 f = (if \<forall>p\<in>set ps. p = red then Some (0, f) else None)" for i ps f
    by (induction ps arbitrary: i) auto
  then show ?thesis by (simp add: assertClearExact_def)
qed

lemma clear_exit_code:
  assumes "w \<noteq> 0"
  shows "assertClearExact px w h =
    Some (if \<forall>k<length px div 4. [px ! (4 * k), px ! (4 * k + 1), px ! (4 * k + 2), px ! (4 * k + 3)] = [0, 0, 0xFF, 0xFF]
      then 0 else 1)"
  unfolding assertClearExact_eq[OF assms] BytesToBGRA_def
  by (simp add: bgra_at_def red_def mult.commute ball_simps)

section \<open>Draw and texture\<close>

text \<open>The triangle of the fixture, as the set of pixel centres it contains.\<close>

definition analytic :: "int \<Rightarrow> int \<Rightarrow> int \<Rightarrow> int \<Rightarrow> bool" where
  "analytic w h i j = in_triangle (window_triangle w h gpuVerts) (of_int i + 1 / 2) (of_int j + 1 / 2)"

definition analytic_cov :: "int \<Rightarrow> int \<Rightarrow> Coverage" where
  "analytic_cov w h = \<lparr>cv_W = w, cv_H = h, cv_In = grid_image w h (analytic w h)\<rparr>"

lemma gpuVerts_not_flat: "0 < w \<Longrightarrow> 0 < h \<Longrightarrow> \<not> flat (window_triangle w h gpuVerts)"
  by (simp add: flat_def window_triangle_def gpuVerts_def window_point_def exact_edge_def field_simps)

lemma gpuVerts_grid: "grid_triangle gpuVerts"
  by code_simp

lemma flat_fill: "rgbaFloatToBGRA gpuFlatColor = BGRA 191 128 64 255"
  by code_simp

lemma grid_image_cong: "(\<And>i j. in_grid w h i j \<Longrightarrow> f i j = g i j) \<Longrightarrow> grid_image w h f = grid_image w h g"
  by (auto simp: grid_image_def set_pixels)

lemma covered_fixture:
  assumes "0 < w" "w \<le> 256" "0 < h" "h \<le> 256" "in_grid w h i j"
  shows "covered fu (ViewportFor w h) gpuVerts i j = analytic w h i j"
  using covered_exact[OF assms(2,4) gpuVerts_grid assms(5)] gpuVerts_not_flat[OF assms(1,3)] by (simp add: analytic_def)

lemma draw_reference_fixture:
  assumes "0 < w" "w \<le> 256" "0 < h" "h \<le> 256"
  shows "DrawReference fu (ViewportFor w h) gpuVerts gpuFlatColor bg w h =
    Some (grid_image w h (\<lambda>i j. if analytic w h i j then BGRA 191 128 64 255 else bg), analytic_cov w h)"
proof -
  have "grid_image w h (covered fu (ViewportFor w h) gpuVerts) = grid_image w h (analytic w h)"
    "grid_image w h (\<lambda>i j. if covered fu (ViewportFor w h) gpuVerts i j then BGRA 191 128 64 255 else bg) =
       grid_image w h (\<lambda>i j. if analytic w h i j then BGRA 191 128 64 255 else bg)"
    by (intro grid_image_cong; simp add: covered_fixture[OF assms])+
  then show ?thesis using assms by (simp add: DrawReference_spec[where color = gpuFlatColor, unfolded flat_fill] analytic_cov_def)
qed

lemma Ball_pixels: "(\<forall>(i, j)\<in>set (pixels w h). P i j) \<longleftrightarrow> (\<forall>i j. in_grid w h i j \<longrightarrow> P i j)"
  by (simp add: Ball_def split_paired_All set_pixels)

text \<open>The pixel of a readback at column \<open>i\<close> of row \<open>j\<close>.\<close>

definition px_at :: "bytes \<Rightarrow> int \<Rightarrow> int \<Rightarrow> int \<Rightarrow> BGRA" where
  "px_at px w i j = bgra_at px (nat (j * w + i))"

text \<open>Agreement of a readback with a picture of the triangle: the coverage agrees, or the pixel is
  within one of the boundary, and a pixel covered on both sides has the colour of the picture up
  to \<open>tol\<close> on each channel.\<close>

definition agrees :: "(int \<Rightarrow> int \<Rightarrow> BGRA) \<Rightarrow> int \<Rightarrow> bytes \<Rightarrow> int \<Rightarrow> int \<Rightarrow> int \<Rightarrow> int \<Rightarrow> bool" where
  "agrees colour tol px w h i j \<longleftrightarrow>
     (analytic w h i j = (px_at px w i j \<noteq> gpuBG) \<or> near_edge (analytic_cov w h) 1 i j) \<and>
     (analytic w h i j \<and> px_at px w i j \<noteq> gpuBG \<longrightarrow>
       (\<forall>c<4. \<bar>uint (chan (px_at px w i j) c) - uint (chan (colour i j) c)\<bar> \<le> tol))"

definition picture_agrees :: "(int \<Rightarrow> int \<Rightarrow> BGRA) \<Rightarrow> int \<Rightarrow> bytes \<Rightarrow> int \<Rightarrow> int \<Rightarrow> bool" where
  "picture_agrees colour tol px w h \<longleftrightarrow> (\<forall>i j. in_grid w h i j \<longrightarrow> agrees colour tol px w h i j)"

lemma whole_target: "length px = nat (w * h * 4) \<Longrightarrow> length px div 4 = nat (w * h)" for w h :: int
  by (cases "0 \<le> w * h") (simp_all add: nat_mult_distrib)

lemma picture_comparison:
  assumes "0 < w" "0 < h" "length px = nat (w * h * 4)" "0 \<le> tol"
    "ref = grid_image w h (\<lambda>i j. if analytic w h i j then colour i j else gpuBG)"
  shows "\<exists>res. Compare px ref (analytic_cov w h) gpuBG edgeTol tol maxDiffs = Some res \<and>
    (rs_Pass res \<longleftrightarrow> picture_agrees colour tol px w h)"
proof -
  define k where "k = \<lparr>k_real = BytesToBGRA px, k_ref = ref, k_cov = analytic_cov w h, k_bg = gpuBG,
    k_edgeTol = edgeTol, k_colourTol = tol, k_maxDiffs = maxDiffs\<rparr>"
  have f: "k_cov k = analytic_cov w h" "cv_W (analytic_cov w h) = w" "cv_H (analytic_cov w h) = h" "k_colourTol k = tol"
    by (simp_all add: k_def analytic_cov_def)
  note n = whole_target[OF assms(3)]
  have wf: "wf_comparison k"
    using assms(1,2,5) n by (simp add: wf_comparison_def k_def wf_cov_def analytic_cov_def)
  have "cov_ok k i j \<and> (both_in k i j \<longrightarrow> delta k i j \<le> tol) \<longleftrightarrow> agrees colour tol px w h i j" if g: "in_grid w h i j" for i j
  proof -
    have "nat (j * w + i) < length px div 4" using grid_index_nat[OF g] n by simp
    then have p: "pixel_of k (k_real k) i j = px_at px w i j"
      by (simp add: pixel_of_def k_def px_at_def BytesToBGRA_def analytic_cov_def)
    have q: "pixel_of k (k_ref k) i j = (if analytic w h i j then colour i j else gpuBG)"
      using nth_grid_image[OF g, of "\<lambda>i j. if analytic w h i j then colour i j else gpuBG"]
      by (simp add: pixel_of_def k_def assms(5) analytic_cov_def)
    have r: "ref_in k i j = analytic w h i j"
      using nth_grid_image[OF g] by (simp add: ref_in_def covers_def k_def analytic_cov_def)
    have "real_in k i j = (px_at px w i j \<noteq> gpuBG)" using p by (simp add: real_in_def k_def)
    with p q r assms(4) show ?thesis
      by (auto simp: cov_ok_def both_in_def delta_def maxChannelDelta_le agrees_def f k_def edgeTol_def)
  qed
  then have "rs_Pass (expected_result k) \<longleftrightarrow> picture_agrees colour tol px w h"
    using assms(4) by (simp add: expected_result_def Let_def f Ball_pixels picture_agrees_def)
  moreover have "Compare px ref (analytic_cov w h) gpuBG edgeTol tol maxDiffs = Some (expected_result k)"
    using compare_result[OF wf] by (simp add: run_compare_def k_def Compare_def)
  ultimately show ?thesis by blast
qed

lemma dump_analytic:
  assumes "0 < w" "0 < h" "length px = nat (w * h * 4)"
  shows "\<exists>m. dumpGrids px (cv_In (analytic_cov w h)) w h gpuBG = Some m"
  using dumpGrids_total[of w h px "cv_In (analytic_cov w h)" gpuBG] assms whole_target[OF assms(3)]
  by (auto simp: analytic_cov_def)

abbreviation flat_colour :: "int \<Rightarrow> int \<Rightarrow> BGRA" where
  "flat_colour \<equiv> \<lambda>i j. BGRA 0xBF 0x80 0x40 0xFF"

lemma assertDrawExact_eq:
  assumes "0 < w" "w \<le> 256" "0 < h" "h \<le> 256" "length px = nat (w * h * 4)"
  shows "assertDrawExact fu px w h = Some (if picture_agrees flat_colour 2 px w h then 0 else 1)"
proof -
  obtain res where "Compare px (grid_image w h (\<lambda>i j. if analytic w h i j then BGRA 0xBF 0x80 0x40 0xFF else gpuBG))
      (analytic_cov w h) gpuBG edgeTol drawColourTol maxDiffs = Some res" "rs_Pass res \<longleftrightarrow> picture_agrees flat_colour 2 px w h"
    using picture_comparison[OF assms(1,3,5), of 2 _ flat_colour] by (auto simp: drawColourTol_def)
  moreover obtain m where "dumpGrids px (cv_In (analytic_cov w h)) w h gpuBG = Some m"
    using dump_analytic[OF assms(1,3,5)] by blast
  moreover obtain flatPx where "drawFlatBGRA fu = Some flatPx"
    using draw_reference_fixture[of 16 16 fu gpuBG] by (simp add: drawFlatBGRA_def)
  ultimately show ?thesis by (simp add: assertDrawExact_def draw_reference_fixture[OF assms(1-4)] Let_def)
qed

text \<open>The textured picture: the sample at the interpolated texture coordinates.\<close>

definition tex_colour :: "fuse \<Rightarrow> int \<Rightarrow> int \<Rightarrow> int \<Rightarrow> int \<Rightarrow> BGRA" where
  "tex_colour fu w h i j = the (texel_colour fu (ViewportFor w h) gpuVerts demo_tex 2 2 Linear (weights fu (ViewportFor w h) gpuVerts i j))"

lemma tex_reference_fixture:
  assumes "0 < w" "w \<le> 256" "0 < h" "h \<le> 256"
  shows "TexReference fu (ViewportFor w h) gpuVerts demo_tex 2 2 Linear bg w h =
    Some (grid_image w h (\<lambda>i j. if analytic w h i j then tex_colour fu w h i j else bg), analytic_cov w h)"
proof -
  have "texture demo_tex 2 2" by (simp add: texture_def demo_tex_def)
  note spec = TexReference_spec[OF _ _ this, of w h fu "ViewportFor w h" gpuVerts Linear bg, folded tex_colour_def]
  have "grid_image w h (covered fu (ViewportFor w h) gpuVerts) = grid_image w h (analytic w h)"
    "grid_image w h (\<lambda>i j. if covered fu (ViewportFor w h) gpuVerts i j then tex_colour fu w h i j else bg) =
       grid_image w h (\<lambda>i j. if analytic w h i j then tex_colour fu w h i j else bg)"
    by (intro grid_image_cong; simp add: covered_fixture[OF assms])+
  then show ?thesis using spec assms by (simp add: analytic_cov_def)
qed

lemma assertTexExact_eq:
  assumes "0 < w" "w \<le> 256" "0 < h" "h \<le> 256" "length px = nat (w * h * 4)"
  shows "assertTexExact fu px w h = Some (if picture_agrees (tex_colour fu w h) 4 px w h then 0 else 1)"
proof -
  obtain res where "Compare px (grid_image w h (\<lambda>i j. if analytic w h i j then tex_colour fu w h i j else gpuBG))
      (analytic_cov w h) gpuBG edgeTol texColourTol maxDiffs = Some res" "rs_Pass res \<longleftrightarrow> picture_agrees (tex_colour fu w h) 4 px w h"
    using picture_comparison[OF assms(1,3,5), of 4 _ "tex_colour fu w h"] by (auto simp: texColourTol_def)
  moreover obtain m where "dumpGrids px (cv_In (analytic_cov w h)) w h gpuBG = Some m"
    using dump_analytic[OF assms(1,3,5)] by blast
  ultimately show ?thesis by (simp add: assertTexExact_def tex_reference_fixture[OF assms(1-4)] Let_def)
qed

text \<open>C14. For targets of at most 256 by 256 pixels and a readback of the whole target, the draw mode
  exits with 0 exactly when the pixels that are not background are those whose centre lies in
  the triangle of the fixture, up to pixels within one of its boundary, and the covered pixels
  have the colour \<open>BF 80 40 FF\<close> within 2 on each channel; the texture mode does the same
  with the linearly sampled colours, within 4. Neither panics.\<close>

theorem picture_exit_codes:
  assumes "0 < w" "w \<le> 256" "0 < h" "h \<le> 256" "length px = nat (w * h * 4)"
  shows "assertDrawExact fu px w h = Some (if picture_agrees flat_colour 2 px w h then 0 else 1) \<and>
    assertTexExact fu px w h = Some (if picture_agrees (tex_colour fu w h) 4 px w h then 0 else 1)"
  using assertDrawExact_eq[OF assms] assertTexExact_eq[OF assms] by blast

lemma single_pixel:
  "picture_agrees flat_colour 2 px 1 1 \<longleftrightarrow> bgra_at px 0 \<noteq> gpuBG \<and>
     (\<forall>c<4. \<bar>uint (chan (bgra_at px 0) c) - uint (chan (BGRA 0xBF 0x80 0x40 0xFF) c)\<bar> \<le> 2)"
proof -
  have g: "in_grid 1 1 i j \<longleftrightarrow> i = 0 \<and> j = 0" for i j by (auto simp: in_grid_def)
  have "analytic 1 1 0 0"
    unfolding analytic_def in_triangle_def window_triangle_def gpuVerts_def window_point_def prod.case
    by (rule exI[of _ "1 / 2"], rule exI[of _ "1 / 4"], rule exI[of _ "1 / 4"]) simp
  moreover have "\<not> near_edge (analytic_cov 1 1) 1 0 0"
    by (simp add: near_edge_iff analytic_cov_def boundary_def differs_at_def g)
  ultimately show ?thesis by (auto simp: g picture_agrees_def agrees_def px_at_def)
qed

theorem picture_exit_codes_witness:
  "assertDrawExact FuseL [0, 0, 0, 0] 1 1 = Some 1 \<and> assertDrawExact FuseR [190, 127, 66, 255] 1 1 = Some 0"
proof -
  have "\<forall>c<4. \<bar>uint (chan (BGRA 190 127 66 255) c) - uint (chan (BGRA 0xBF 0x80 0x40 0xFF) c)\<bar> \<le> 2" by code_simp
  then show ?thesis
    using picture_exit_codes[of 1 1 "[0, 0, 0, 0]" FuseL] picture_exit_codes[of 1 1 "[190, 127, 66, 255]" FuseR]
    by (simp add: single_pixel bgra_at_def gpuBG_def)
qed

section \<open>A session\<close>

lemma wp_check_Ok:
  assumes "wp m (\<lambda>r s'. \<exists>x. r = Ok x \<and> P x s') s" "\<And>x s'. P x s' \<Longrightarrow> wp (k x) Q s'"
  shows "wp (check_io m h k) Q s"
proof -
  obtain x s' where "m s = Some (Ok x, s')" "P x s'" using assms(1) by (auto simp: wp_run)
  then show ?thesis using assms(2) by (simp add: wp_def check_io_def)
qed

text \<open>The commands the session consists of.\<close>

definition file_data :: "files \<Rightarrow> string \<Rightarrow> bytes" where
  "file_data fs n = (case fs n of Inl _ \<Rightarrow> [] | Inr d \<Rightarrow> d)"

definition readable :: "files \<Rightarrow> string \<Rightarrow> bool" where
  "readable fs n = (case fs n of Inl _ \<Rightarrow> False | Inr _ \<Rightarrow> True)"

definition vb_cmds :: "files \<Rightarrow> opts \<Rightarrow> vcmd list" where
  "vb_cmds fs o' = (if o_vb o' = [] then [] else
     [CmdResourceCreate (vb_args (file_data fs (o_vb o'))), CmdTransferPut (vb_put_args (file_data fs (o_vb o'))) (file_data fs (o_vb o'))])"

definition tex_cmds :: "files \<Rightarrow> opts \<Rightarrow> vcmd list" where
  "tex_cmds fs o' = (if o_tex o' = [] then [] else
     [CmdResourceCreate (tex_args o'), CmdTransferPut (tex_put_args o' (file_data fs (o_tex o'))) (file_data fs (o_tex o'))])"

definition session_cmds :: "files \<Rightarrow> opts \<Rightarrow> vcmd list" where
  "session_cmds fs o' = [CmdCreateRenderer ''go-virtio-validate'', CmdPing, CmdProtocolVersion VtestProtocolVersion,
     CmdResourceCreate (rt_args o')] @ vb_cmds fs o' @ tex_cmds fs o' @
     [CmdSubmit (file_data fs (o_buf o')), CmdTransferGet (get_args o')]"

definition inputs_ok :: "files \<Rightarrow> opts \<Rightarrow> bool" where
  "inputs_ok fs o' \<longleftrightarrow> o_buf o' \<noteq> [] \<and> readable fs (o_buf o') \<and> length (file_data fs (o_buf o')) mod 4 = 0 \<and>
     (o_vb o' = [] \<or> readable fs (o_vb o')) \<and> (o_tex o' = [] \<or> readable fs (o_tex o'))"

lemma readable_file: "readable fs n \<Longrightarrow> fs n = Inr (file_data fs n)"
  by (auto simp: readable_def file_data_def split: sum.splits)

definition wire :: "vcmd list \<Rightarrow> bytes" where
  "wire cs = concat (map encode_vcmd cs)"

lemma wire_append [simp]: "wire (xs @ ys) = wire xs @ wire ys" "wire [] = []" "wire (c # cs) = encode_vcmd c @ wire cs"
  by (simp_all add: wire_def)

context duplex
begin

lemma CreateResource_wp:
  "stream_at i out s \<Longrightarrow> wp (CreateResource (New r) a) (\<lambda>x s'. \<exists>y. x = Ok y \<and> stream_at i (out @ encodeResourceCreate a) s') s"
  unfolding CreateResource_def by (rule wp_mono[OF send_wp]) auto

lemma TransferPut_wp:
  "stream_at i out s \<Longrightarrow> wp (TransferPut (New r) a d) (\<lambda>x s'. \<exists>y. x = Ok y \<and> stream_at i (out @ encodeTransferPut a d) s') s"
  unfolding TransferPut_def by (rule wp_mono[OF send_wp]) auto

lemma SubmitCmd_wp:
  assumes "stream_at i out s" "length b mod 4 = 0"
  shows "wp (SubmitCmd (New r) b) (\<lambda>x s'. \<exists>y. x = Ok y \<and> stream_at i (out @ encode_vcmd (CmdSubmit b)) s') s"
proof -
  have "encodeSubmitCmd b = Ok (encode_vcmd (CmdSubmit b))" using assms(2) by (simp add: encodeSubmitCmd_def res_bytes_def)
  then show ?thesis unfolding SubmitCmd_def by (simp only: res.case) (rule wp_mono[OF send_wp[OF assms(1)]], simp)
qed

lemma upload_vb_wp:
  assumes "stream_at i out s" "o_vb o' = [] \<or> readable fs (o_vb o')"
    "\<And>s'. stream_at i (out @ wire (vb_cmds fs o')) s' \<Longrightarrow> wp k Q s'"
  shows "wp (upload_vb (New r) fs o' k) Q s"
proof (cases "o_vb o' = []")
  case True
  then show ?thesis using assms(1,3) by (simp add: upload_vb_def vb_cmds_def)
next
  case False
  let ?d = "file_data fs (o_vb o')"
  have "wp (check_io (CreateResource (New r) (vb_args ?d)) (\<lambda>_. return_io 1) (\<lambda>_.
      check_io (TransferPut (New r) (vb_put_args ?d) ?d) (\<lambda>_. return_io 1) (\<lambda>_. k))) Q s"
    by (rule wp_check_Ok[OF CreateResource_wp[OF assms(1)]], rule wp_check_Ok[OF TransferPut_wp], assumption, rule assms(3))
      (simp add: vb_cmds_def False)
  then show ?thesis using False assms(2) readable_file[of fs "o_vb o'"] by (simp add: upload_vb_def)
qed

lemma upload_tex_wp:
  assumes "stream_at i out s" "o_tex o' = [] \<or> readable fs (o_tex o')"
    "\<And>s'. stream_at i (out @ wire (tex_cmds fs o')) s' \<Longrightarrow> wp k Q s'"
  shows "wp (upload_tex (New r) fs o' k) Q s"
proof (cases "o_tex o' = []")
  case True
  then show ?thesis using assms(1,3) by (simp add: upload_tex_def tex_cmds_def)
next
  case False
  let ?d = "file_data fs (o_tex o')"
  have "wp (check_io (CreateResource (New r) (tex_args o')) (\<lambda>_. return_io 1) (\<lambda>_.
      check_io (TransferPut (New r) (tex_put_args o' ?d) ?d) (\<lambda>_. return_io 1) (\<lambda>_. k))) Q s"
    by (rule wp_check_Ok[OF CreateResource_wp[OF assms(1)]], rule wp_check_Ok[OF TransferPut_wp], assumption, rule assms(3))
      (simp add: tex_cmds_def False)
  then show ?thesis using False assms(2) readable_file[of fs "o_tex o'"] by (simp add: upload_tex_def)
qed

lemma session_wp:
  assumes "stream_at (le32 l1 @ le32 c1 @ le32 l2 @ le32 c2 @ le32 v @ px @ rest) out s" "inputs_ok fs o'"
    "length px = unat (tg_DataSize (get_args o'))" "4 \<le> length px"
    "\<And>s'. stream_at rest (out @ wire (session_cmds fs o')) s' \<Longrightarrow> wp (judge fu o' px) Q s'"
      "nd ''unix'' (o_sock o') = Inr r"
  shows "wp (validator_main fu nd fs o') Q s"
proof -
  have h: "wp (Handshake (New r) ''go-virtio-validate'' VtestProtocolVersion) (\<lambda>x s'. \<exists>y. x = Ok y \<and>
      stream_at (px @ rest) (out @ wire [CmdCreateRenderer ''go-virtio-validate'', CmdPing, CmdProtocolVersion VtestProtocolVersion]) s') s"
    by (rule wp_mono[OF Handshake_wp[OF assms(1)]]) simp
  have "wp (TransferGet (New r) (get_args o')) (\<lambda>x s'. \<exists>y. x = Ok y \<and> y = px \<and>
      stream_at rest (o2 @ encodeTransferGet (get_args o')) s') t" if "stream_at (px @ rest) o2 t" for o2 t
    by (rule wp_mono[OF TransferGet_wp[OF that]]) (use assms(3) in auto)
  note tg = this
  have ok: "o_buf o' \<noteq> []" "fs (o_buf o') = Inr (file_data fs (o_buf o'))" "length (file_data fs (o_buf o')) mod 4 = 0"
    "o_vb o' = [] \<or> readable fs (o_vb o')" "o_tex o' = [] \<or> readable fs (o_tex o')"
    using assms(2) readable_file by (auto simp: inputs_ok_def)
  show ?thesis
    unfolding validator_main_def Dial_def
    apply (simp only: ok(1,2) assms(6) if_False sum.case res.case prod.case New_def[symmetric])
    apply (rule wp_check_Ok[OF h], rule wp_check_Ok[OF CreateResource_wp], assumption)
    apply (rule upload_vb_wp[OF _ ok(4)], assumption, rule upload_tex_wp[OF _ ok(5)], assumption)
    apply (rule wp_check_Ok[OF SubmitCmd_wp[OF _ ok(3)]], assumption, rule wp_check_Ok[OF tg], assumption)
    using assms(4,5) by (auto simp: session_cmds_def)
qed

end

section \<open>The connection of the validator\<close>

definition net_live :: "netconn \<Rightarrow> bool" where
  "net_live s \<longleftrightarrow> [] \<notin> set (nc_in s)"

interpretation net: duplex netconn_rw "\<lambda>s. concat (nc_in s)" nc_out net_live
proof
  fix s :: netconn and n :: nat
  assume "net_live s" "0 < n" "concat (nc_in s) \<noteq> []"
  then obtain c cs where c: "nc_in s = c # cs" "c \<noteq> []" "[] \<notin> set cs" by (cases "nc_in s") (auto simp: net_live_def)
  have "min (n :: nat) (length c) \<le> length (concat (nc_in s))" using c by simp
  moreover have "take n c = take (min n (length c)) (c @ concat cs)" by (simp add: min_def)
  moreover have "drop (min n (length c)) (c @ concat cs) = concat (if length c \<le> n then cs else drop n c # cs)"
    by (auto simp: min_def)
  ultimately show "\<exists>k s'. 0 < k \<and> k \<le> n \<and> k \<le> length (concat (nc_in s)) \<and>
      rw_Read netconn_rw n s = Some ((take k (concat (nc_in s)), None), s') \<and>
      net_live s' \<and> concat (nc_in s') = drop k (concat (nc_in s)) \<and> nc_out s' = nc_out s"
    using c \<open>0 < n\<close> by (intro exI[of _ "min n (length c)"]) (auto simp: netconn_rw_def net_live_def)
next
  fix s :: netconn and n :: nat
  assume "net_live s" "concat (nc_in s) = []"
  then have "nc_in s = []" by (cases "nc_in s") (auto simp: net_live_def)
  then show "rw_Read netconn_rw n s = None" by (simp add: netconn_rw_def)
qed (simp add: netconn_rw_def net_live_def)

text \<open>The connection after a session: what it sent, as the server reads it, and what is left to read.\<close>

definition session_done :: "files \<Rightarrow> opts \<Rightarrow> bytes \<Rightarrow> netconn \<Rightarrow> bool" where
  "session_done fs o' rest s \<longleftrightarrow> concat (nc_in s) = rest \<and>
     dec_many parse_vcmd (length (session_cmds fs o')) (nc_out s) = Some (session_cmds fs o', [])"

definition uploads_fit :: "files \<Rightarrow> opts \<Rightarrow> bool" where
  "uploads_fit fs o' \<longleftrightarrow> list_all vcmd_ok (session_cmds fs o')"

lemma session_done_wire:
  assumes "uploads_fit fs o'" "net.stream_at rest (wire (session_cmds fs o')) s"
  shows "session_done fs o' rest s"
  using vtest_codec.dec_many_concat[of "session_cmds fs o'" "[]"] assms
  by (simp add: session_done_def net.stream_at_def wire_def uploads_fit_def list_all_iff)

text \<open>The verdict of a mode as the outcome of the process.\<close>

definition outcome :: "nat option \<Rightarrow> nat res" where
  "outcome x = (case x of None \<Rightarrow> Panic | Some n \<Rightarrow> Ok n)"

definition verdict :: "fuse \<Rightarrow> opts \<Rightarrow> bytes \<Rightarrow> nat res" where
  "verdict fu o' px = (let w = sint (o_w o'); h = sint (o_h o') in
     if o_mode o' = ''clear'' then outcome (assertClearExact px w h)
     else if o_mode o' = ''draw'' then outcome (assertDrawExact fu px w h)
     else if o_mode o' = ''tex'' then outcome (assertTexExact fu px w h)
     else Ok 2)"

lemma judge_eq: "judge fu o' px s = Some (verdict fu o' px, s)"
  by (simp add: judge_def verdict_def exit_of_def outcome_def Let_def split: option.split)

lemma main_session:
  assumes "net_live s" "nc_out s = []" "inputs_ok fs o'" "uploads_fit fs o'"
    "concat (nc_in s) = le32 l1 @ le32 c1 @ le32 l2 @ le32 c2 @ le32 v @ px @ rest"
    "length px = unat (tg_DataSize (get_args o'))" "4 \<le> length px" "nd ''unix'' (o_sock o') = Inr netconn_rw"
  shows "\<exists>s'. validator_main fu nd fs o' s = Some (verdict fu o' px, s') \<and> session_done fs o' rest s'"
proof -
  have st: "net.stream_at (le32 l1 @ le32 c1 @ le32 l2 @ le32 c2 @ le32 v @ px @ rest) [] s"
    using assms(1,2,5) by (simp add: net.stream_at_def)
  have "wp (validator_main fu nd fs o') (\<lambda>x t. x = verdict fu o' px \<and> session_done fs o' rest t) s"
    by (rule net.session_wp[OF st assms(3,6,7), where nd = nd]) (simp_all add: wp_def judge_eq session_done_wire[OF assms(4)] assms(8))
  then show ?thesis by (auto simp: wp_run)
qed

definition small_target :: "opts \<Rightarrow> bool" where
  "small_target o' \<longleftrightarrow> 0 < o_w o' \<and> o_w o' \<le> 256 \<and> 0 < o_h o' \<and> o_h o' \<le> 256"

lemma target_size:
  assumes "small_target o'"
  shows "sint (o_w o') = uint (o_w o')" "sint (o_h o') = uint (o_h o')" "0 < uint (o_w o')" "uint (o_w o') \<le> 256"
    "0 < uint (o_h o')" "uint (o_h o') \<le> 256" "unat (tg_DataSize (get_args o')) = nat (uint (o_w o') * uint (o_h o') * 4)"
proof -
  define a b where "a = unat (o_w o')" and "b = unat (o_h o')"
  then have ui: "uint (o_w o') = int a" "uint (o_h o') = int b"
    by simp_all
  have le: "0 < a" "a \<le> 256" "0 < b" "b \<le> 256"
    using assms by (auto simp: small_target_def word_le_nat_alt word_less_nat_alt a_def b_def)
  show "sint (o_w o') = uint (o_w o')" "sint (o_h o') = uint (o_h o')"
    using ui le by (simp_all add: sint_uint signed_take_bit_int_eq_self)
  show "0 < uint (o_w o')" "uint (o_w o') \<le> 256" "0 < uint (o_h o')" "uint (o_h o') \<le> 256" using ui le by simp_all
  have "ucast (o_w o') = (of_nat a :: u32)" "ucast (o_h o') = (of_nat b :: u32)" by (simp_all add: a_def b_def)
  then have "tg_DataSize (get_args o') = of_nat (a * 4 * b)" by (simp add: get_args_def Let_def)
  moreover have "a * 4 * b < 2 ^ LENGTH(32)"
    using mult_le_mono[OF mult_le_mono[OF le(2) order_refl, of 4] le(4)] by simp
  moreover from this have "unat (of_nat (a * 4 * b) :: u32) = a * 4 * b" unfolding unat_of_nat by (rule mod_less)
  ultimately have "unat (tg_DataSize (get_args o')) = a * 4 * b" by (simp only:)
  then show "unat (tg_DataSize (get_args o')) = nat (uint (o_w o') * uint (o_h o') * 4)"
    unfolding ui by (simp add: nat_mult_distrib)
qed

text \<open>C2. A whole run against a server that answers the handshake and the readback, in pieces of any
  size: the server reads exactly the commands of the session in order, with the uploads the
  flags ask for, and the exit code is the verdict on the bytes read back. In the clear mode it
  is 0 exactly when every pixel is red, in the draw and texture modes exactly when the readback
  agrees with the picture of the triangle, and 2 for an unknown mode.\<close>

theorem validator_session:
  assumes "net_live s" "nc_out s = []" "inputs_ok fs o'" "uploads_fit fs o'"
    "concat (nc_in s) = le32 l1 @ le32 c1 @ le32 l2 @ le32 c2 @ le32 v @ px @ rest"
    "length px = unat (tg_DataSize (get_args o'))" "4 \<le> length px" "nd ''unix'' (o_sock o') = Inr netconn_rw" "small_target o'"
  shows "\<exists>code s'. validator_main fu nd fs o' s = Some (Ok code, s') \<and> session_done fs o' rest s' \<and>
    code = (if o_mode o' = ''clear'' then
        if \<forall>k<length px div 4. [px ! (4 * k), px ! (4 * k + 1), px ! (4 * k + 2), px ! (4 * k + 3)] = [0, 0, 0xFF, 0xFF] then 0 else 1
      else if o_mode o' = ''draw'' then if picture_agrees flat_colour 2 px (uint (o_w o')) (uint (o_h o')) then 0 else 1
      else if o_mode o' = ''tex'' then
        if picture_agrees (tex_colour fu (uint (o_w o')) (uint (o_h o'))) 4 px (uint (o_w o')) (uint (o_h o')) then 0 else 1
      else 2)"
proof -
  note t = target_size[OF assms(9)]
  have len: "length px = nat (uint (o_w o') * uint (o_h o') * 4)" using assms(6) t(7) by simp
  note codes = clear_exit_code[of "uint (o_w o')"] assertDrawExact_eq[OF t(3-6) len] assertTexExact_eq[OF t(3-6) len]
  show ?thesis using main_session[OF assms(1-7), of nd fu] assms(8) t(3) by (auto simp: verdict_def outcome_def Let_def t(1,2) codes)
qed

text \<open>A target of one red pixel, read back in three pieces.\<close>

definition demo_opts :: opts where
  "demo_opts = \<lparr>o_sock = ''/tmp/.virgl_test'', o_buf = ''c'', o_w = 1, o_h = 1, o_mode = ''clear'', o_vb = ''v'', o_tex = [], o_tw = 2, o_th = 2\<rparr>"

definition demo_files :: files where
  "demo_files n = (if n = ''c'' then Inr [1, 2, 3, 4] else if n = ''v'' then Inr (replicate 8 7) else Inl EOF)"

definition demo_net :: netconn where
  "demo_net = \<lparr>nc_in = [le32 0 @ le32 10 @ le32 1, le32 11 @ le32 2 @ [0, 0], [0xFF, 0xFF]], nc_out = []\<rparr>"

theorem validator_session_witness:
  "\<exists>s'. validator_main NoFuse (\<lambda>_ _. Inr netconn_rw) demo_files demo_opts demo_net = Some (Ok 0, s') \<and>
     session_done demo_files demo_opts [] s'"
proof -
  have h: "net_live demo_net" "nc_out demo_net = []" "inputs_ok demo_files demo_opts"
    "concat (nc_in demo_net) = le32 0 @ le32 10 @ le32 1 @ le32 11 @ le32 2 @ [0, 0, 0xFF, 0xFF] @ []"
    "length ([0, 0, 0xFF, 0xFF] :: bytes) = unat (tg_DataSize (get_args demo_opts))" "4 \<le> length ([0, 0, 0xFF, 0xFF] :: bytes)"
    "small_target demo_opts" by code_simp+
  have fit: "uploads_fit demo_files demo_opts"
    by (simp add: uploads_fit_def session_cmds_def vb_cmds_def tex_cmds_def demo_opts_def demo_files_def file_data_def vb_put_args_def)
  have "o_mode demo_opts = ''clear''" by code_simp
  with validator_session[OF h(1-3) fit h(4-6) _ h(7), of "\<lambda>_ _. Inr netconn_rw" NoFuse] show ?thesis by auto
qed

end
