(* ===== verification/Guest_Transport.thy ===== *)
theory Guest_Transport
  imports Go_Base
begin

text \<open>
  The bridge of \<open>guest/transport/transport.go\<close> between the virtio drivers and the machine. A
  dereferenced \<open>unsafe.Pointer\<close> is a little-endian access to the physical memory, which is
  identity-mapped. The rest of the machine is a parameter: \<open>'s bus\<close> holds the methods of
  tamago's \<open>pci.Device\<close> and \<open>dma.Reserve\<close> over a state \<open>'s\<close>. A buffer of \<open>dma.Reserve\<close> is
  identified by its address and length, since it aliases the memory there; an allocator that
  panics is \<open>Panic\<close>.

  The locales state what the code relies on: \<open>config_space\<close> that configuration reads return
  the dwords of the device's configuration space, \<open>dma_region\<close> that reservations are aligned
  and of the requested size. Both are interpreted on \<open>demo_bus\<close>.
\<close>

section \<open>The machine\<close>

record 's machine =
  phys :: "u64 \<Rightarrow> byte"
  hw :: 's

record 's bus =
  pci_Command :: u32
  pci_Read :: "u32 \<Rightarrow> u32 \<Rightarrow> 's \<Rightarrow> u32 \<times> 's"
  pci_Write :: "u32 \<Rightarrow> u32 \<Rightarrow> u32 \<Rightarrow> 's \<Rightarrow> 's"
  pci_BaseAddress :: "nat \<Rightarrow> 's \<Rightarrow> u64 \<times> 's"
  dma_Reserve :: "goint \<Rightarrow> goint \<Rightarrow> 's \<Rightarrow> (u64 \<times> nat option) res \<times> 's"

text \<open>The operations of the bus, and the accesses to memory, as computations.\<close>

definition on_hw :: "('h \<Rightarrow> 'a \<times> 'h) \<Rightarrow> ('h machine, 'a) io" where
  "on_hw f = (\<lambda>s. case f (hw s) of (x, h) \<Rightarrow> Some (Ok x, s\<lparr>hw := h\<rparr>))"

definition load_bytes :: "(u64 \<Rightarrow> byte) \<Rightarrow> u64 \<Rightarrow> nat \<Rightarrow> bytes" where
  "load_bytes m a n = map (\<lambda>i. m (a + of_nat i)) [0..<n]"

definition store_bytes :: "(u64 \<Rightarrow> byte) \<Rightarrow> u64 \<Rightarrow> bytes \<Rightarrow> u64 \<Rightarrow> byte" where
  "store_bytes m a bs = (\<lambda>x. if unat (x - a) < length bs then bs ! unat (x - a) else m x)"

definition load :: "nat \<Rightarrow> u64 \<Rightarrow> ('h machine, bytes) io" where
  "load n a = (\<lambda>s. Some (Ok (load_bytes (phys s) a n), s))"

definition store :: "u64 \<Rightarrow> bytes \<Rightarrow> ('h machine, unit) io" where
  "store a bs = (\<lambda>s. Some (Ok (), s\<lparr>phys := store_bytes (phys s) a bs\<rparr>))"

section \<open>Transport\<close>

definition pageSize :: goint where "pageSize = 4096"

definition errBadBAR :: go_error where
  "errBadBAR = Errorf ''validate: BAR index out of range or unmapped'' []"

definition errBadAlloc :: go_error where
  "errBadAlloc = Errorf ''validate: DMA page allocation failed'' []"

record 's Transport =
  dev :: "'s bus"
  barBase :: "u64 list"

text \<open>The loop of \<open>New\<close> over the six BARs.\<close>

primrec read_bars :: "'s bus \<Rightarrow> nat list \<Rightarrow> u64 list \<Rightarrow> ('s machine, u64 list) io" where
  "read_bars d [] bars = return_io bars"
| "read_bars d (i # is) bars = bind_io (on_hw (pci_BaseAddress d i)) (\<lambda>b. read_bars d is (bars[i := b]))"

definition Transport_New :: "'s bus \<Rightarrow> ('s machine, 's Transport) io" where
  "Transport_New d =
     bind_io (on_hw (pci_Read d 0 (pci_Command d))) (\<lambda>cmd.
     bind_io (on_hw (\<lambda>h. ((), pci_Write d 0 (pci_Command d) (cmd OR push_bit 1 1 OR push_bit 2 1) h))) (\<lambda>_.
     bind_io (read_bars d [0..<6] (replicate 6 0)) (\<lambda>bars.
     return_io \<lparr>dev = d, barBase = bars\<rparr>)))"

definition dword :: "'s Transport \<Rightarrow> byte \<Rightarrow> ('s machine, u32) io" where
  "dword t offset = on_hw (pci_Read (dev t) 0 (ucast offset AND 0xfc))"

definition ReadConfig8 :: "'s Transport \<Rightarrow> byte \<Rightarrow> ('s machine, byte) io" where
  "ReadConfig8 t offset =
     bind_io (dword t offset) (\<lambda>v.
     let shift = ((ucast offset :: u32) AND 3) * 8 in
     return_io (ucast (drop_bit (unat shift) v AND 0xff)))"

definition ReadConfig16 :: "'s Transport \<Rightarrow> byte \<Rightarrow> ('s machine, u16) io" where
  "ReadConfig16 t offset =
     bind_io (dword t offset) (\<lambda>v.
     let shift = ((ucast offset :: u32) AND 2) * 8 in
     return_io (ucast (drop_bit (unat shift) v AND 0xffff)))"

definition ReadConfig32 :: "'s Transport \<Rightarrow> byte \<Rightarrow> ('s machine, u32) io" where
  "ReadConfig32 t offset = dword t offset"

definition addr :: "'s Transport \<Rightarrow> byte \<Rightarrow> u64 \<Rightarrow> u64 res" where
  "addr t bar offset =
     (if 5 < bar then Err errBadBAR
      else let base = barBase t ! unat bar in
        if base = 0 then Err errBadBAR else Ok (base + offset))"

text \<open>\<open>a, err := t.addr(bar, offset); if err != nil { return err }; k(a)\<close>\<close>

definition at_addr :: "'s Transport \<Rightarrow> byte \<Rightarrow> u64 \<Rightarrow> (u64 \<Rightarrow> ('s machine, 'a) io) \<Rightarrow> ('s machine, 'a) io" where
  "at_addr t bar offset k = (case addr t bar offset of Ok a \<Rightarrow> k a | Err e \<Rightarrow> fail_io e | Panic \<Rightarrow> panic_io)"

definition Read8 :: "'s Transport \<Rightarrow> byte \<Rightarrow> u64 \<Rightarrow> ('s machine, byte) io" where
  "Read8 t bar offset = at_addr t bar offset (\<lambda>a. bind_io (load 1 a) (\<lambda>b. return_io (b ! 0)))"

definition Read16 :: "'s Transport \<Rightarrow> byte \<Rightarrow> u64 \<Rightarrow> ('s machine, u16) io" where
  "Read16 t bar offset = at_addr t bar offset (\<lambda>a. bind_io (load 2 a) (\<lambda>b. return_io (get16 b)))"

definition Read32 :: "'s Transport \<Rightarrow> byte \<Rightarrow> u64 \<Rightarrow> ('s machine, u32) io" where
  "Read32 t bar offset = at_addr t bar offset (\<lambda>a. bind_io (load 4 a) (\<lambda>b. return_io (get32 b)))"

definition Read64 :: "'s Transport \<Rightarrow> byte \<Rightarrow> u64 \<Rightarrow> ('s machine, u64) io" where
  "Read64 t bar offset =
     bind_io (Read32 t bar offset) (\<lambda>lo.
     bind_io (Read32 t bar (offset + 4)) (\<lambda>hi.
     return_io (push_bit 32 (ucast hi) OR ucast lo)))"

definition Write8 :: "'s Transport \<Rightarrow> byte \<Rightarrow> u64 \<Rightarrow> byte \<Rightarrow> ('s machine, unit) io" where
  "Write8 t bar offset val = at_addr t bar offset (\<lambda>a. store a [val])"

definition Write16 :: "'s Transport \<Rightarrow> byte \<Rightarrow> u64 \<Rightarrow> u16 \<Rightarrow> ('s machine, unit) io" where
  "Write16 t bar offset val = at_addr t bar offset (\<lambda>a. store a (le16 val))"

definition Write32 :: "'s Transport \<Rightarrow> byte \<Rightarrow> u64 \<Rightarrow> u32 \<Rightarrow> ('s machine, unit) io" where
  "Write32 t bar offset val = at_addr t bar offset (\<lambda>a. store a (le32 val))"

definition Write64 :: "'s Transport \<Rightarrow> byte \<Rightarrow> u64 \<Rightarrow> u64 \<Rightarrow> ('s machine, unit) io" where
  "Write64 t bar offset val =
     bind_io (Write32 t bar offset (ucast val)) (\<lambda>_.
     Write32 t bar (offset + 4) (ucast (drop_bit 32 val)))"

text \<open>\<open>for i := range buf { buf[i] = 0 }\<close> for a buffer of \<open>n\<close> bytes at \<open>a\<close>.\<close>

primrec zero_loop :: "u64 \<Rightarrow> nat list \<Rightarrow> ('s machine, unit) io" where
  "zero_loop a [] = return_io ()"
| "zero_loop a (i # is) = bind_io (store (a + of_nat i) [0]) (\<lambda>_. zero_loop a is)"

definition on_alloc :: "('h \<Rightarrow> 'a res \<times> 'h) \<Rightarrow> ('h machine, 'a) io" where
  "on_alloc f = (\<lambda>s. case f (hw s) of (x, h) \<Rightarrow> Some (x, s\<lparr>hw := h\<rparr>))"

definition AllocatePages :: "'s Transport \<Rightarrow> goint \<Rightarrow> ('s machine, u64 \<times> nat) io" where
  "AllocatePages t count =
     (if sint count \<le> 0 then fail_io errBadAlloc
      else bind_io (on_alloc (dma_Reserve (dev t) (count * pageSize) pageSize)) (\<lambda>(a, buf).
        case buf of
          None \<Rightarrow> fail_io errBadAlloc
        | Some n \<Rightarrow> if a = 0 then fail_io errBadAlloc
            else bind_io (zero_loop a [0..<n]) (\<lambda>_. return_io (a, n))))"

section \<open>Configuration space\<close>

locale config_space =
  fixes d :: "'s bus" and cfg :: "'s \<Rightarrow> bytes"
  assumes cfg_length: "length (cfg h) = 256"
    and cfg_read: "4 * n < 256 \<Longrightarrow> pci_Read d 0 (of_nat (4 * n)) h = (get32 (drop (4 * n) (cfg h)), h)"

text \<open>The pieces of a dword.\<close>

lemma ucast_masked:
  "(ucast (v AND 0xff) :: byte) = ucast v" "(ucast (v AND 0xffff) :: u16) = ucast v" for v :: u32
proof -
  have m: "(0xff :: u32) = mask 8" "(0xffff :: u32) = mask 16" by (simp_all add: mask_eq_exp_minus_1)
  show "(ucast (v AND 0xff) :: byte) = ucast v" "(ucast (v AND 0xffff) :: u16) = ucast v"
    unfolding m by (auto intro!: bit_word_eqI simp: bit_simps)
qed

lemma le32_nth: "k < 4 \<Longrightarrow> le32 v ! k = ucast (drop_bit (8 * k) v)"
  by (auto simp: le32_def less_Suc_eq numeral_eq_Suc)

lemma le32_get32_word: "4 \<le> length b \<Longrightarrow> le32 (get32 b) = take 4 b"
  using le32_get32_take[of b] by (auto simp: get32_def)

lemma dword_byte: "4 \<le> length b \<Longrightarrow> k < 4 \<Longrightarrow> ucast (drop_bit (8 * k) (get32 b)) = b ! k"
  using le32_nth[of k "get32 b"] by (simp add: le32_get32_word)

lemma get16_ucast: "get16 [ucast v, ucast (drop_bit 8 v)] = ucast v" for v :: u32
  by (rule bit_word_eqI) (auto simp: get16_def bit_simps)

lemma dword_half:
  assumes "4 \<le> length b" "k = 0 \<or> k = 2"
  shows "(ucast (drop_bit (8 * k) (get32 b)) :: u16) = get16 (drop k b)"
proof -
  have "drop_bit 8 (drop_bit (8 * k) v) = drop_bit (8 * Suc k) v" for v :: u32
    by (simp add: add.commute)
  then have "(ucast (drop_bit (8 * k) (get32 b)) :: u16) = get16 [b ! k, b ! Suc k]"
    using get16_ucast[of "drop_bit (8 * k) (get32 b)"] assms dword_byte[OF assms(1), of k] dword_byte[OF assms(1), of "Suc k"]
    by auto
  then show ?thesis using assms by (auto simp: get16_def)
qed

text \<open>The offset of a byte: its dword and its place there.\<close>

lemma and_push_bit: "n AND push_bit k m = push_bit k (drop_bit k n AND m)" for n m :: nat
  by (rule bit_eqI) (auto simp: bit_simps)

lemma offset_parts:
  fixes offset :: byte
  shows "unat ((ucast offset :: u32) AND 0xfc) = 4 * (unat offset div 4)"
    "unat ((ucast offset :: u32) AND 3) = unat offset mod 4"
    "unat ((ucast offset :: u32) AND 2) = 2 * (unat offset div 2 mod 2)"
proof -
  have n: "unat offset < 256" using unsigned_less[of offset, where 'a = nat] by simp
  have u: "unat (ucast offset :: u32) = unat offset" by (simp add: unsigned_ucast_eq take_bit_nat_eq_self less_trans[OF n])
  have "(252 :: nat) = push_bit 2 (mask 6)" "(3 :: nat) = mask 2" "(2 :: nat) = push_bit 1 (mask 1)"
    by (simp_all add: push_bit_eq_mult mask_eq_exp_minus_1)
  note parts = this
  have "unat offset AND 252 = 4 * (unat offset div 4)"
    unfolding parts(1) and_push_bit using n by (simp add: push_bit_eq_mult drop_bit_eq_div take_bit_eq_mod flip: take_bit_eq_mask)
  moreover have "unat offset AND 3 = unat offset mod 4"
    unfolding parts(2) by (simp add: take_bit_eq_mod flip: take_bit_eq_mask)
  moreover have "unat offset AND 2 = 2 * (unat offset div 2 mod 2)"
  proof -
    have "unat offset AND push_bit 1 (mask 1) = 2 * (unat offset div 2 mod 2)"
      unfolding and_push_bit by (simp add: push_bit_eq_mult drop_bit_eq_div take_bit_eq_mod flip: take_bit_eq_mask)
    then show ?thesis by (simp add: push_bit_eq_mult mask_eq_exp_minus_1)
  qed
  ultimately show "unat ((ucast offset :: u32) AND 0xfc) = 4 * (unat offset div 4)"
    "unat ((ucast offset :: u32) AND 3) = unat offset mod 4"
    "unat ((ucast offset :: u32) AND 2) = 2 * (unat offset div 2 mod 2)"
    by (simp_all add: unsigned_and_eq u)
qed

lemma offset_dword: "4 * (unat (offset :: byte) div 4) \<le> 252"
proof -
  have "unat offset < 256" using unsigned_less[of offset, where 'a = nat] by simp
  then have "unat offset div 4 < 64" by (simp add: div_less_iff_less_mult)
  then show ?thesis by simp
qed

context config_space
begin

lemma dword_run:
  assumes "dev t = d"
  shows "dword t offset s = Some (Ok (get32 (drop (4 * (unat offset div 4)) (cfg (hw s)))), s)"
proof -
  have n: "unat offset < 256" using unsigned_less[of offset, where 'a = nat] by simp
  have "(ucast offset :: u32) AND 0xfc = of_nat (4 * (unat offset div 4))"
    unfolding offset_parts(1)[symmetric] by simp
  moreover have "4 * (unat offset div 4) < 256" using offset_dword[of offset] by simp
  ultimately show ?thesis using assms cfg_read by (simp add: dword_def on_hw_def)
qed

lemma ReadConfig8_run:
  assumes "dev t = d"
  shows "ReadConfig8 t offset s = Some (Ok (cfg (hw s) ! unat offset), s)"
proof -
  let ?b = "drop (4 * (unat offset div 4)) (cfg (hw s))"
  have n: "unat offset < 256" using unsigned_less[of offset, where 'a = nat] by simp
  have "unat (((ucast offset :: u32) AND 3) * 8) = 8 * (unat offset mod 4)"
    using offset_parts(2)[of offset] by (simp add: unat_word_ariths)
  moreover have "4 \<le> length ?b" using offset_dword[of offset] cfg_length[of "hw s"] by simp
  moreover have "?b ! (unat offset mod 4) = cfg (hw s) ! unat offset"
    using n cfg_length[of "hw s"] by (simp add: mult_div_mod_eq)
  ultimately show ?thesis
    unfolding ReadConfig8_def using dword_byte[of ?b "unat offset mod 4"] by (simp add: dword_run[OF assms] ucast_masked Let_def)
qed

lemma ReadConfig16_run:
  assumes "dev t = d"
  shows "ReadConfig16 t offset s = Some (Ok (get16 (drop (2 * (unat offset div 2)) (cfg (hw s)))), s)"
proof -
  let ?b = "drop (4 * (unat offset div 4)) (cfg (hw s))" and ?k = "2 * (unat offset div 2 mod 2)"
  have n: "unat offset < 256" using unsigned_less[of offset, where 'a = nat] by simp
  have k: "?k = 0 \<or> ?k = 2" by (cases "unat offset div 2 mod 2 = 0") auto
  have "unat (((ucast offset :: u32) AND 2) * 8) = 8 * ?k"
    using offset_parts(3)[of offset] k by (auto simp: unat_word_ariths)
  moreover have "4 \<le> length ?b" using offset_dword[of offset] cfg_length[of "hw s"] by simp
  moreover have "?k + 4 * (unat offset div 4) = 2 * (unat offset div 2)" by presburger
  ultimately show ?thesis
    unfolding ReadConfig16_def using dword_half[of ?b ?k] k by (simp add: dword_run[OF assms] ucast_masked Let_def)
qed

lemma ReadConfig32_run:
  "dev t = d \<Longrightarrow> ReadConfig32 t offset s = Some (Ok (get32 (drop (4 * (unat offset div 4)) (cfg (hw s)))), s)"
  by (simp add: ReadConfig32_def dword_run)

end

section \<open>Memory\<close>

lemma length_load_bytes [simp]: "length (load_bytes m a n) = n"
  by (simp add: load_bytes_def)

lemma load_store:
  assumes "length bs < 2 ^ 64"
  shows "load_bytes (store_bytes m a bs) a (length bs) = bs"
  by (rule nth_equalityI) (use assms in \<open>simp_all add: load_bytes_def store_bytes_def\<close>)

lemma unat_sub_of_nat:
  assumes "n < 2 ^ 64" "m < 2 ^ 64"
  shows "unat (of_nat n - of_nat m :: u64) = (if m \<le> n then n - m else 2 ^ 64 - (m - n))"
proof (cases "m \<le> n")
  case True
  then have "of_nat n - of_nat m = (of_nat (n - m) :: u64)" by (simp add: of_nat_diff)
  moreover have "unat (of_nat (n - m) :: u64) = n - m" using assms by (intro unat_of_nat_u64) simp
  ultimately show ?thesis using True by (simp only: if_True)
next
  case False
  have "(of_nat (2 ^ 64 - (m - n)) :: u64) = of_nat (2 ^ 64) - of_nat (m - n)" using False assms by (intro of_nat_diff) simp
  moreover have "(of_nat (2 ^ 64) :: u64) = 0" by simp
  moreover have "(of_nat (m - n) :: u64) = of_nat m - of_nat n" using False by (intro of_nat_diff) simp
  ultimately have "of_nat n - of_nat m = (of_nat (2 ^ 64 - (m - n)) :: u64)" by simp
  moreover have "unat (of_nat (2 ^ 64 - (m - n)) :: u64) = 2 ^ 64 - (m - n)" using False by (intro unat_of_nat_u64) simp
  ultimately show ?thesis using False by (simp only: if_False)
qed

lemma store_twice:
  assumes "length bs + length cs < 2 ^ 64"
  shows "store_bytes (store_bytes m a bs) (a + of_nat (length bs)) cs = store_bytes m a (bs @ cs)"
proof
  fix x
  define n where "n = unat (x - a)"
  have x: "x - a = of_nat n" "n < 2 ^ 64" using unsigned_less[of "x - a", where 'a = nat] by (simp_all add: n_def)
  have e: "x - (a + of_nat (length bs)) = of_nat n - of_nat (length bs)" using x(1) by (simp add: algebra_simps)
  have y: "unat (x - (a + of_nat (length bs))) = (if length bs \<le> n then n - length bs else 2 ^ 64 - (length bs - n))"
    unfolding e using assms by (intro unat_sub_of_nat[OF x(2)]) simp
  have "length cs \<le> 2 ^ 64 - (length bs - n)" using assms by simp
  then show "store_bytes (store_bytes m a bs) (a + of_nat (length bs)) cs x = store_bytes m a (bs @ cs) x"
    unfolding store_bytes_def y n_def[symmetric] by (auto simp: nth_append)
qed

lemma load_append: "load_bytes m a (n + k) = load_bytes m a n @ load_bytes m (a + of_nat n) k"
  by (rule nth_equalityI) (auto simp: load_bytes_def nth_append add.assoc simp flip: of_nat_add)

lemma io_mem [simp]:
  "load n a s = Some (Ok (load_bytes (phys s) a n), s)"
  "store a bs s = Some (Ok (), s\<lparr>phys := store_bytes (phys s) a bs\<rparr>)"
  by (simp_all add: load_def store_def)

lemma le64_halves: "le64 v = le32 (ucast v) @ le32 (ucast (drop_bit 32 v))"
proof -
  have "(ucast (drop_bit k (ucast v :: u32)) :: byte) = ucast (drop_bit k v)" if "k \<le> 24" for k
    using that by (intro bit_word_eqI) (auto simp: bit_simps)
  moreover have "(ucast (drop_bit k (ucast (drop_bit 32 v) :: u32)) :: byte) = ucast (drop_bit (32 + k) v)" if "k \<le> 24" for k
    using that by (intro bit_word_eqI) (auto simp: bit_simps add.assoc)
  note this[of 0] this[of 8] this[of 16] this[of 24] calculation[of 0] calculation[of 8] calculation[of 16] calculation[of 24]
  then show ?thesis by (simp add: le64_def le32_def)
qed

lemma not_bit_u32 [simp]: "\<not> bit (v :: u32) (32 + n)"
  using bit_imp_le_length[of v "32 + n"] by auto

lemma get64_halves:
  assumes "length a = 4" "length b = 4"
  shows "get64 (a @ b) = push_bit 32 (ucast (get32 b)) OR ucast (get32 a)"
proof -
  let ?lo = "get32 a" and ?hi = "get32 b"
  have "a @ b = le32 ?lo @ le32 ?hi" using assms by (simp add: le32_get32_word)
  moreover have "le32 ?lo @ le32 ?hi = le64 (push_bit 32 (ucast ?hi) OR ucast ?lo)"
  proof -
    have "ucast (push_bit 32 (ucast ?hi) OR ucast ?lo :: u64) = ?lo"
      "ucast (drop_bit 32 (push_bit 32 (ucast ?hi) OR ucast ?lo :: u64)) = ?hi"
      by (auto intro!: bit_word_eqI simp: bit_simps)
    then show ?thesis by (simp add: le64_halves)
  qed
  ultimately show ?thesis by simp
qed

section \<open>Accesses through a BAR\<close>

lemma addr_plus: "addr t bar off = Ok a \<Longrightarrow> addr t bar (off + k) = Ok (a + k)"
  by (auto simp: addr_def Let_def add.assoc split: if_splits)

lemma Write64_run:
  assumes "addr t bar off = Ok a"
  shows "Write64 t bar off v s = Some (Ok (), s\<lparr>phys := store_bytes (phys s) a (le64 v)\<rparr>)"
  using store_twice[of "le32 (ucast v)" "le32 (ucast (drop_bit 32 v))" "phys s" a] addr_plus[OF assms, of 4] assms
  by (simp add: Write64_def Write32_def at_addr_def le64_halves)

lemma Read64_run:
  assumes "addr t bar off = Ok a"
  shows "Read64 t bar off s = Some (Ok (get64 (load_bytes (phys s) a 8)), s)"
  using get64_halves[of "load_bytes (phys s) a 4" "load_bytes (phys s) (a + 4) 4"] load_append[of "phys s" a 4 4]
    addr_plus[OF assms, of 4] assms
  by (simp add: Read64_def Read32_def at_addr_def)

text \<open>C15. A 64-bit write through a mapped BAR, done as two 32-bit stores, puts the eight
  little-endian bytes at the resolved address and changes nothing else, also where the address
  wraps around; a 64-bit read returns the value written. An unmapped or unknown BAR is refused
  with an error before any access.\<close>

theorem mmio_roundtrip:
  "(addr t bar off = Ok a \<longrightarrow> (\<exists>s'. Write64 t bar off v s = Some (Ok (), s') \<and> Read64 t bar off s' = Some (Ok v, s') \<and>
      s' = s\<lparr>phys := phys s'\<rparr> \<and> load_bytes (phys s') a 8 = le64 v \<and> (\<forall>x. 8 \<le> unat (x - a) \<longrightarrow> phys s' x = phys s x))) \<and>
   (5 < bar \<or> barBase t ! unat bar = 0 \<longrightarrow>
      Write64 t bar off v s = Some (Err errBadBAR, s) \<and> Read64 t bar off s = Some (Err errBadBAR, s))"
proof (intro conjI impI)
  assume "addr t bar off = Ok a"
  note w = Write64_run[OF this, of v s] and r = Read64_run[OF this, of "s\<lparr>phys := store_bytes (phys s) a (le64 v)\<rparr>"]
  have "load_bytes (store_bytes (phys s) a (le64 v)) a 8 = le64 v" using load_store[of "le64 v" "phys s" a] by simp
  with w r show "\<exists>s'. Write64 t bar off v s = Some (Ok (), s') \<and> Read64 t bar off s' = Some (Ok v, s') \<and>
      s' = s\<lparr>phys := phys s'\<rparr> \<and> load_bytes (phys s') a 8 = le64 v \<and> (\<forall>x. 8 \<le> unat (x - a) \<longrightarrow> phys s' x = phys s x)"
    by (simp add: store_bytes_def)
qed (auto simp: Write64_def Write32_def Read64_def Read32_def at_addr_def addr_def Let_def)

section \<open>Page allocation\<close>

locale dma_region =
  fixes d :: "'s bus"
  assumes reserve: "0 < sint n \<Longrightarrow> dma_Reserve d n al h = (Ok (a, Some k), h') \<Longrightarrow> k = unat n \<and> unat al dvd unat a \<and> unat a + k \<le> 2 ^ 64"

lemma zero_loop_run:
  assumes "n < 2 ^ 64"
  shows "zero_loop a [k..<k + n] s = Some (Ok (), s\<lparr>phys := store_bytes (phys s) (a + of_nat k) (replicate n 0)\<rparr>)"
  using assms
proof (induction n arbitrary: k s)
  case 0
  then show ?case by (simp add: store_bytes_def)
next
  case (Suc n)
  let ?s = "s\<lparr>phys := store_bytes (phys s) (a + of_nat k) [0]\<rparr>"
  have u: "[k..<k + Suc n] = k # [Suc k..<Suc k + n]" by (simp add: upt_conv_Cons)
  have "store_bytes (phys ?s) (a + of_nat (Suc k)) (replicate n 0) = store_bytes (phys s) (a + of_nat k) (replicate (Suc n) 0)"
    using store_twice[of "[0]" "replicate n 0" "phys s" "a + of_nat k"] Suc.prems by (simp add: ac_simps)
  then show ?case using Suc.IH[of "Suc k" ?s] Suc.prems unfolding u by simp
qed

context dma_region
begin

lemma AllocatePages_run:
  assumes "dev t = d" "0 < sint count" "0 < sint (count * pageSize)"
    "dma_Reserve d (count * pageSize) pageSize (hw s) = (Ok (a, Some k), h')" "a \<noteq> 0"
  shows "AllocatePages t count s = Some (Ok (a, unat (count * pageSize)),
      s\<lparr>hw := h', phys := store_bytes (phys s) a (replicate (unat (count * pageSize)) 0)\<rparr>) \<and> 4096 dvd unat a"
proof -
  from reserve[OF assms(3,4)] have k: "k = unat (count * pageSize)" "4096 dvd unat a" by (simp_all add: pageSize_def)
  have "zero_loop a [0..<k] (s\<lparr>hw := h'\<rparr>) = Some (Ok (), s\<lparr>hw := h', phys := store_bytes (phys s) a (replicate k 0)\<rparr>)"
    using zero_loop_run[of k a 0 "s\<lparr>hw := h'\<rparr>"] unsigned_less[of "count * pageSize", where ?'a = nat] by (simp add: k(1))
  with k assms show ?thesis by (simp add: AllocatePages_def on_alloc_def)
qed

end

text \<open>The size requested: the product of \<open>count\<close> and the page size, at 64 bits.\<close>

lemma page_bytes:
  assumes "0 < sint (count :: goint)"
  shows "unat (count * pageSize) = (4096 * nat (sint count)) mod 2 ^ 64"
proof -
  define c where "c = nat (sint count)"
  have c: "count = of_nat c" "sint count = int c" using assms by (simp_all add: c_def)
  have "count * pageSize = of_nat (4096 * c)" by (simp add: c(1) pageSize_def)
  then show ?thesis by (simp add: c(2) unat_of_nat del: of_nat_mult)
qed

lemma page_bytes_exact:
  assumes "0 < sint (count :: goint)" "0 < sint (count * pageSize)"
  shows "unat (count * pageSize) = 4096 * nat (sint count) \<longleftrightarrow> sint count < 2 ^ 51"
proof -
  define n where "n = nat (sint (count * pageSize))"
  have "count * pageSize = of_nat n" "n < 2 ^ 63"
    using assms(2) sint_less[of "count * pageSize"] by (simp_all add: n_def)
  then have "unat (count * pageSize) < 9223372036854775808" by (simp add: unat_of_nat_u64)
  moreover have "4096 * nat (sint count) < 18446744073709551616" if "sint count < 2251799813685248" using that by linarith
  ultimately show ?thesis using page_bytes[OF assms(1)] by auto
qed

section \<open>A device\<close>

text \<open>A device with a configuration space, six base addresses and a page allocator.\<close>

record demo_hw =
  h_cfg :: bytes
  h_bars :: "u64 list"
  h_page :: nat

definition cfg_of :: "demo_hw \<Rightarrow> bytes" where
  "cfg_of h = take 256 (h_cfg h @ replicate 256 0)"

definition demo_bus :: "demo_hw bus" where
  "demo_bus = \<lparr>pci_Command = 4,
     pci_Read = \<lambda>fn off h. (get32 (drop (unat off) (cfg_of h)), h),
     pci_Write = \<lambda>fn off v h. h\<lparr>h_cfg := take (unat off) (cfg_of h) @ le32 v @ drop (unat off + 4) (cfg_of h)\<rparr>,
     pci_BaseAddress = \<lambda>i h. (h_bars h ! i, h),
     dma_Reserve = \<lambda>n al h.
       if al = 4096 \<and> 4096 * h_page h + unat n < 2 ^ 64
       then (Ok (of_nat (4096 * h_page h), Some (unat n)), h\<lparr>h_page := h_page h + (unat n + 4095) div 4096\<rparr>)
       else (Ok (0, None), h)\<rparr>"

interpretation demo_cfg: config_space demo_bus cfg_of
proof
  fix n :: nat and h
  assume "4 * n < 256"
  then have "unat (of_nat (4 * n) :: u32) = 4 * n" by (intro unat_of_nat_u32) simp
  then show "pci_Read demo_bus 0 (of_nat (4 * n)) h = (get32 (drop (4 * n) (cfg_of h)), h)"
    by (simp only: demo_bus_def bus.simps)
qed (simp add: cfg_of_def)

interpretation demo_dma: dma_region demo_bus
proof
  fix n al h a k h'
  assume "0 < sint n" "dma_Reserve demo_bus n al h = (Ok (a, Some k), h')"
  then have r: "al = 4096" "4096 * h_page h + unat n < 2 ^ 64" "a = of_nat (4096 * h_page h)" "k = unat n"
    by (auto simp: demo_bus_def split: if_splits)
  then have "unat a = 4096 * h_page h" using unat_of_nat_u64[of "4096 * h_page h"] by simp
  with r show "k = unat n \<and> unat al dvd unat a \<and> unat a + k \<le> 2 ^ 64" by simp
qed

definition demo_machine :: "demo_hw machine" where
  "demo_machine = \<lparr>phys = \<lambda>a. ucast a, hw = \<lparr>h_cfg = map of_nat [0..<256], h_bars = [0x1000, 0, 0, 0, 0xFFFFFFFFFFFFFFF0, 0], h_page = 16\<rparr>\<rparr>"

definition demo_transport :: "demo_hw Transport" where
  "demo_transport = \<lparr>dev = demo_bus, barBase = [0x1000, 0, 0, 0, 0xFFFFFFFFFFFFFFF0, 0]\<rparr>"

theorem mmio_roundtrip_witness:
  "(\<exists>s'. Write64 demo_transport 4 12 0x1122334455667788 demo_machine = Some (Ok (), s') \<and>
      Read64 demo_transport 4 12 s' = Some (Ok 0x1122334455667788, s')) \<and>
   Read64 demo_transport 1 0 demo_machine = Some (Err errBadBAR, demo_machine)"
proof -
  have a: "addr demo_transport 4 12 = Ok 0xFFFFFFFFFFFFFFFC" "barBase demo_transport ! unat (1 :: byte) = 0" by code_simp+
  show ?thesis
    using mmio_roundtrip[of demo_transport 4 12 "0xFFFFFFFFFFFFFFFC" "0x1122334455667788" demo_machine]
      mmio_roundtrip[of demo_transport 1 0 0 0 demo_machine] a by blast
qed

text \<open>C31. Where the PCI bus returns the dwords of the configuration space, the transport reads it at
  every granularity: a byte at any offset, a 16-bit word at the even offset at or below the
  given one, and a dword at the multiple of four at or below it.\<close>

theorem config_reads:
  assumes "config_space d cfg" "dev t = d"
  shows "ReadConfig8 t offset s = Some (Ok (cfg (hw s) ! unat offset), s) \<and>
    ReadConfig16 t offset s = Some (Ok (get16 (drop (2 * (unat offset div 2)) (cfg (hw s)))), s) \<and>
    ReadConfig32 t offset s = Some (Ok (get32 (drop (4 * (unat offset div 4)) (cfg (hw s)))), s)"
  using config_space.ReadConfig8_run[OF assms] config_space.ReadConfig16_run[OF assms] config_space.ReadConfig32_run[OF assms]
  by blast

theorem config_reads_witness:
  "ReadConfig8 demo_transport 5 demo_machine = Some (Ok 5, demo_machine)"
proof -
  have "dev demo_transport = demo_bus" by (simp add: demo_transport_def)
  from config_reads[OF demo_cfg.config_space_axioms this, of 5 demo_machine] show ?thesis
    by (simp add: demo_machine_def cfg_of_def)
qed

text \<open>C32. \<open>AllocatePages\<close> with an allocator that returns aligned buffers of the requested size,
  for every positive size: the size it requests is \<open>count\<close> pages modulo \<open>2^64\<close>; when that is
  positive and the allocator finds room, the result is page-aligned and exactly that long, every byte of it is zero, no
  other byte of memory changes and no error is reported. It is \<open>count\<close> pages long exactly when
  \<open>count < 2^51\<close>; for a larger count the product wraps and the buffer is too short. A
  count that is not positive is refused.\<close>

theorem allocate_pages_zeroed:
  assumes "dma_region d" "dev t = d" "0 < sint count" "0 < sint (count * pageSize)"
    "dma_Reserve d (count * pageSize) pageSize (hw s) = (Ok (a, Some k), h')" "a \<noteq> 0"
  defines "n \<equiv> (4096 * nat (sint count)) mod 2 ^ 64"
  shows "(\<exists>s'. AllocatePages t count s = Some (Ok (a, n), s') \<and> 4096 dvd unat a \<and>
      (\<forall>x. phys s' x = (if unat (x - a) < n then 0 else phys s x))) \<and>
    (n = 4096 * nat (sint count) \<longleftrightarrow> sint count < 2 ^ 51) \<and>
    (\<forall>c. sint c \<le> 0 \<longrightarrow> AllocatePages t c s = Some (Err errBadAlloc, s))"
  using dma_region.AllocatePages_run[OF assms(1-6)] page_bytes_exact[OF assms(3,4)]
  unfolding n_def page_bytes[OF assms(3), symmetric] by (simp add: store_bytes_def AllocatePages_def)

theorem allocate_pages_zeroed_witness:
  "(\<exists>s'. AllocatePages demo_transport 2 demo_machine = Some (Ok (0x10000, 8192), s') \<and> phys s' 0x11234 = 0) \<and>
   (\<exists>s'. AllocatePages demo_transport 0x10000000000001 demo_machine = Some (Ok (0x10000, 4096), s') \<and>
      phys s' 0x11234 = 0x34)"
proof
  note run = allocate_pages_zeroed[OF demo_dma.dma_region_axioms]
  have c: "dev demo_transport = demo_bus" "0 < sint (2 :: goint)" "0 < sint ((2 :: goint) * pageSize)" "(0x10000 :: u64) \<noteq> 0"
    "0 < sint (0x10000000000001 :: goint)" "0 < sint ((0x10000000000001 :: goint) * pageSize)"
    by (simp_all add: demo_transport_def pageSize_def)
  have d: "dma_Reserve demo_bus (2 * pageSize) pageSize (hw demo_machine) =
      (Ok (0x10000, Some 8192), (hw demo_machine)\<lparr>h_page := 18\<rparr>)"
    "dma_Reserve demo_bus (0x10000000000001 * pageSize) pageSize (hw demo_machine) =
      (Ok (0x10000, Some 4096), (hw demo_machine)\<lparr>h_page := 17\<rparr>)"
    by (simp_all add: demo_bus_def demo_machine_def pageSize_def)
  show "\<exists>s'. AllocatePages demo_transport 2 demo_machine = Some (Ok (0x10000, 8192), s') \<and> phys s' 0x11234 = 0"
    using run[OF c(1-3) d(1) c(4)] by auto
  show "\<exists>s'. AllocatePages demo_transport 0x10000000000001 demo_machine = Some (Ok (0x10000, 4096), s') \<and> phys s' 0x11234 = 0x34"
    using run[OF c(1,5,6) d(2) c(4)] by (auto simp: demo_machine_def)
qed

end
