(* ===== verification/Guest_Base.thy ===== *)
theory Guest_Base
  imports Guest_Transport "HOL-Library.Sublist"
begin

text \<open>
  What the guest harnesses of \<open>guest/cmd\<close> share: a machine and the serial console, on which the
  verdict is printed. A printed line is kept as format string and arguments. \<open>halt()\<close> is an
  endless loop; a harness that reaches it has its final state, so \<open>halt\<close> returns it. The PCI
  probe of tamago is a parameter.
\<close>

section \<open>State and output\<close>

type_synonym serial_line = "string \<times> farg list"

record 's guest =
  g_machine :: "'s machine"
  g_serial :: "serial_line list"

definition on_machine :: "('s machine, 'a) io \<Rightarrow> ('s guest, 'a) io" where
  "on_machine m = (\<lambda>s. case m (g_machine s) of None \<Rightarrow> None | Some (x, t) \<Rightarrow> Some (x, s\<lparr>g_machine := t\<rparr>))"

text \<open>\<open>fmt.Printf\<close> of a line; the final newline of every format is left out.\<close>

definition say :: "string \<Rightarrow> farg list \<Rightarrow> ('s guest, unit) io" where
  "say fmt args = (\<lambda>s. Some (Ok (), s\<lparr>g_serial := g_serial s @ [(fmt, args)]\<rparr>))"

definition halt :: "('s guest, unit) io" where
  "halt = return_io ()"

abbreviation andThen :: "('s, 'a) io \<Rightarrow> ('s, 'b) io \<Rightarrow> ('s, 'b) io" where
  "andThen m k \<equiv> bind_io m (\<lambda>_. k)"

text \<open>The value of a field of the driver's handle at this point of the run.\<close>

definition see :: "('s machine \<Rightarrow> 'a) \<Rightarrow> ('a \<Rightarrow> ('s guest, unit) io) \<Rightarrow> ('s guest, unit) io" where
  "see f k = (\<lambda>s. k (f (g_machine s)) s)"

text \<open>\<open>_ = call()\<close>: the error is dropped.\<close>

definition ignore :: "('s machine, 'a) io \<Rightarrow> ('s guest, unit) io \<Rightarrow> ('s guest, unit) io" where
  "ignore m k = check_io (on_machine m) (\<lambda>_. k) (\<lambda>_. k)"

text \<open>Go strings are byte sequences: \<open>[]byte(s)\<close> and \<open>string(b)\<close>.\<close>

definition to_bytes :: "string \<Rightarrow> bytes" where "to_bytes s = map (\<lambda>c. of_nat (of_char c)) s"
definition to_string :: "bytes \<Rightarrow> string" where "to_string b = map (\<lambda>x. char_of (unat x)) b"

section \<open>Bringing up a device\<close>

record 's platform =
  pf_VendorID :: u16
  pf_DeviceID :: u16
  pf_Probe :: "u16 \<Rightarrow> u16 \<Rightarrow> ('s machine, ('s bus \<times> u16 \<times> u16) option) io"

text \<open>The head of every \<open>main\<close>: probe, build the transport, open the driver. \<open>k\<close> gets the ids of
  the device and the driver's handle.\<close>

definition bring_up :: "'s platform \<Rightarrow> serial_line \<Rightarrow> string \<Rightarrow> ('s Transport \<Rightarrow> ('s machine, 'h) io) \<Rightarrow>
    (u16 \<times> u16 \<Rightarrow> 'h \<Rightarrow> ('s guest, unit) io) \<Rightarrow> ('s guest, unit) io" where
  "bring_up pf absent openFmt opener k =
     bind_io (on_machine (pf_Probe pf (pf_VendorID pf) (pf_DeviceID pf))) (\<lambda>found.
     case found of
       None \<Rightarrow> andThen (say (fst absent) (snd absent)) halt
     | Some (d, vendor, device) \<Rightarrow>
         bind_io (on_machine (Transport_New d)) (\<lambda>t.
         check_io (on_machine (opener t)) (\<lambda>e. andThen (say openFmt [AErr e]) halt) (k (vendor, device))))"

section \<open>The verdict\<close>

text \<open>A verdict line is one that begins with the harness's tag and \<open>PASS\<close>.\<close>

definition says_pass :: "string \<Rightarrow> serial_line list \<Rightarrow> bool" where
  "says_pass tag log = list_ex (\<lambda>(fmt, _). prefix (tag @ '': PASS'') fmt) log"

lemma say_run [simp]: "say fmt args s = Some (Ok (), s\<lparr>g_serial := g_serial s @ [(fmt, args)]\<rparr>)"
  by (simp add: say_def)

lemma halt_run [simp]: "halt s = Some (Ok (), s)"
  by (simp add: halt_def)

lemma on_machine_run: "m (g_machine s) = Some (x, t) \<Longrightarrow> on_machine m s = Some (x, s\<lparr>g_machine := t\<rparr>)"
  by (simp add: on_machine_def)

lemma check_io_run [simp]:
  "m s = Some (Ok x, s') \<Longrightarrow> check_io m h k s = k x s'"
  "m s = Some (Err e, s') \<Longrightarrow> check_io m h k s = h e s'"
  by (simp_all add: check_io_def)

lemma see_run [simp]: "see f k s = k (f (g_machine s)) s"
  by (simp add: see_def)

lemma says_pass_append [simp]: "says_pass tag (xs @ ys) \<longleftrightarrow> says_pass tag xs \<or> says_pass tag ys"
  by (simp add: says_pass_def)

lemma Transport_New_returns: "\<exists>t m'. Transport_New d m = Some (Ok t, m')"
proof -
  have "\<exists>x m'. read_bars d is bars m = Some (Ok x, m')" for "is" bars m
    by (induction "is" arbitrary: bars m) (auto simp: on_hw_def try_with_def split: prod.split)
  note bars = this
  obtain c h where "pci_Read d 0 (pci_Command d) (hw m) = (c, h)" by fastforce
  then have r: "on_hw (pci_Read d 0 (pci_Command d)) m = Some (Ok c, m\<lparr>hw := h\<rparr>)" by (simp add: on_hw_def)
  let ?m = "m\<lparr>hw := pci_Write d 0 (pci_Command d) (c OR push_bit 1 1 OR push_bit 2 1) h\<rparr>"
  obtain x m' where "read_bars d [0..<6] (replicate 6 0) ?m = Some (Ok x, m')" using bars by blast
  then have "Transport_New d m = Some (Ok \<lparr>dev = d, barBase = x\<rparr>, m')"
    using r by (simp add: Transport_New_def) (simp add: on_hw_def)
  then show ?thesis by blast
qed

text \<open>The machine on which a harness finds its device open.\<close>

definition booted :: "'s platform \<Rightarrow> ('s Transport \<Rightarrow> ('s machine, 'h) io) \<Rightarrow> 's machine \<Rightarrow> 's machine" where
  "booted pf opener m = (case pf_Probe pf (pf_VendorID pf) (pf_DeviceID pf) m of
     Some (Ok (Some (d, ids)), m1) \<Rightarrow> (case Transport_New d m1 of
       Some (Ok t, m2) \<Rightarrow> (case opener t m2 of Some (x, m3) \<Rightarrow> m3 | None \<Rightarrow> m2)
     | _ \<Rightarrow> m1)
   | _ \<Rightarrow> m)"

text \<open>The interface every harness relies on: the probe finds a device and the driver opens it.\<close>

locale boots =
  fixes pf :: "'s platform" and opener :: "'s Transport \<Rightarrow> ('s machine, 'h) io" and info :: 'h
  assumes probe: "\<exists>d ids m'. pf_Probe pf (pf_VendorID pf) (pf_DeviceID pf) m = Some (Ok (Some (d, ids)), m')"
    and opens: "\<exists>m'. opener t m = Some (Ok info, m')"
begin

lemma bring_up_run:
  "\<exists>ids. bring_up pf absent fmt opener k s = k ids info (s\<lparr>g_machine := booted pf opener (g_machine s)\<rparr>)"
proof -
  obtain d v w m1 where p: "pf_Probe pf (pf_VendorID pf) (pf_DeviceID pf) (g_machine s) = Some (Ok (Some (d, v, w)), m1)"
    using probe[of "g_machine s"] by auto
  obtain t m2 where t: "Transport_New d m1 = Some (Ok t, m2)" using Transport_New_returns by blast
  obtain m3 where o: "opener t m2 = Some (Ok info, m3)" using opens by blast
  have "booted pf opener (g_machine s) = m3" using p t o by (simp add: booted_def)
  moreover have "bring_up pf absent fmt opener k s = k (v, w) info (s\<lparr>g_machine := m3\<rparr>)"
    using p t o by (simp add: bring_up_def on_machine_run)
  ultimately show ?thesis by blast
qed

end

text \<open>A platform whose probe answers with a device that has no memory regions; it serves every harness
  whose driver does not use the transport.\<close>

definition bare_bus :: "'s bus" where
  "bare_bus = \<lparr>pci_Command = 4, pci_Read = \<lambda>f o' h. (0, h), pci_Write = \<lambda>f o' v h. h, pci_BaseAddress = \<lambda>i h. (0, h),
     dma_Reserve = \<lambda>n al h. (Ok (0, None), h)\<rparr>"

definition bare_platform :: "'s platform" where
  "bare_platform = \<lparr>pf_VendorID = 0x1AF4, pf_DeviceID = 0x1042, pf_Probe = \<lambda>v d m. Some (Ok (Some (bare_bus, v, d)), m)\<rparr>"

lemma bare_probe [simp]: "pf_Probe bare_platform v d m = Some (Ok (Some (bare_bus, v, d)), m)"
  by (simp add: bare_platform_def)

interpretation bare: boots bare_platform "\<lambda>t m. Some (Ok info, m)" info
  by unfold_locales auto

lemma bare_booted: "(\<And>t m. opener t m = Some (Ok info, m)) \<Longrightarrow> booted bare_platform opener m = m"
  by (simp add: booted_def bare_bus_def Transport_New_def on_hw_def upt_rec try_with_def)

end
