(* ===== verification/Guest_Blk.thy ===== *)
theory Guest_Blk
  imports Guest_Base
begin

text \<open>
  The block-device harness of \<open>guest/cmd/blkvalidate/main.go\<close>. The driver \<open>go-virtio/blk\<close> is a
  parameter: a record of the methods the harness calls, over the machine. \<open>blk.BlockSize\<close> is
  512.

  The locale \<open>block_device\<close> is the contract of a driver over a disk, with the sector it really
  addresses left open: it writes the blocks of a request at \<open>place sector\<close> and the following
  sectors, and reads them from there. A correct driver has \<open>place sector = sector\<close>.
\<close>

section \<open>The driver\<close>

definition BlockSize :: nat where "BlockSize = 512"

record blk_info =
  Capacity :: u64
  ReadOnly :: bool
  blk_Features :: u64

record 's blk_driver =
  blk_Open :: "'s Transport \<Rightarrow> ('s machine, blk_info) io"
  blk_WriteBlocks :: "u64 \<Rightarrow> bytes \<Rightarrow> ('s machine, unit) io"
  blk_Flush :: "('s machine, unit) io"
  blk_ReadBlocks :: "u64 \<Rightarrow> goint \<Rightarrow> ('s machine, bytes) io"

section \<open>The harness\<close>

definition expectedSectors :: u64 where "expectedSectors = 8 * 1024 * 1024 div of_nat BlockSize"
definition lbaZero :: u64 where "lbaZero = 0"
definition lbaMid :: u64 where "lbaMid = 1234"
definition lbaRun :: u64 where "lbaRun = 8000"
definition runCount :: nat where "runCount = 5"

definition pattern_byte :: "u64 \<Rightarrow> nat \<Rightarrow> byte" where
  "pattern_byte lba off = ucast (lba * 31 + of_nat off * 7 + 0xA5)"

definition pattern :: "u64 \<Rightarrow> nat \<Rightarrow> bytes" where
  "pattern sector count = fold (\<lambda>s buf.
     let lba = sector + of_nat s; base = s * BlockSize in
     fold (\<lambda>off buf. buf[base + off := pattern_byte lba off]) [0..<BlockSize] buf)
     [0..<count] (replicate (count * BlockSize) 0)"

primrec equal_from :: "bytes \<Rightarrow> bytes \<Rightarrow> nat list \<Rightarrow> bool" where
  "equal_from a b [] = True"
| "equal_from a b (i # is) = (if a ! i \<noteq> b ! i then False else equal_from a b is)"

definition bytes_equal :: "bytes \<Rightarrow> bytes \<Rightarrow> bool" where
  "bytes_equal a b = (if length a \<noteq> length b then False else equal_from a b [0..<length a])"

text \<open>The loops of \<open>writeReadBack\<close>: the first byte that differs, and the checksum.\<close>

primrec first_diff :: "bytes \<Rightarrow> bytes \<Rightarrow> nat list \<Rightarrow> nat option" where
  "first_diff got want [] = None"
| "first_diff got want (i # is) = (if got ! i \<noteq> want ! i then Some i else first_diff got want is)"

definition checksum :: "bytes \<Rightarrow> u64 \<Rightarrow> u64" where
  "checksum got sum0 = fold (\<lambda>c sum0. sum0 * 1099511628211 + ucast c) got sum0"

definition writeReadBack :: "'s blk_driver \<Rightarrow> u64 \<Rightarrow> nat \<Rightarrow> u64 \<Rightarrow> ('s guest, bool \<times> u64) io" where
  "writeReadBack b sector count sum0 = (let want = pattern sector count in
     check_io (on_machine (blk_WriteBlocks b sector want))
       (\<lambda>e. andThen (say ''BLK-VALIDATE: FAIL WriteBlocks(LBA %d, %d blk): %v'' [ANum (uint sector), ANum (int count), AErr e])
          (return_io (False, sum0))) (\<lambda>_.
     check_io (on_machine (blk_Flush b))
       (\<lambda>e. andThen (say ''BLK-VALIDATE: FAIL Flush after LBA %d: %v'' [ANum (uint sector), AErr e]) (return_io (False, sum0))) (\<lambda>_.
     check_io (on_machine (blk_ReadBlocks b sector (of_nat count)))
       (\<lambda>e. andThen (say ''BLK-VALIDATE: FAIL ReadBlocks(LBA %d, %d blk): %v'' [ANum (uint sector), ANum (int count), AErr e])
          (return_io (False, sum0))) (\<lambda>got.
     if length got \<noteq> length want
     then andThen (say ''BLK-VALIDATE: FAIL LBA %d length: got %d want %d''
            [ANum (uint sector), ANum (int (length got)), ANum (int (length want))]) (return_io (False, sum0))
     else case first_diff got want [0..<length want] of
       Some i \<Rightarrow> andThen (say ''BLK-VALIDATE: FAIL LBA %d byte %d: got %#02x want %#02x''
            [ANum (uint sector), ANum (int i), ANum (uint (got ! i)), ANum (uint (want ! i))]) (return_io (False, sum0))
     | None \<Rightarrow> andThen (say ''BLK-VALIDATE: ok LBA %d count=%d bytes=%d round-trip byte-equal''
            [ANum (uint sector), ANum (int count), ANum (int (length got))]) (return_io (True, checksum got sum0))))))"

text \<open>\<open>if ok := writeReadBack(...); !ok { halt() }\<close>\<close>

definition blk_round :: "'s blk_driver \<Rightarrow> u64 \<Rightarrow> nat \<Rightarrow> u64 \<Rightarrow> (u64 \<Rightarrow> ('s guest, unit) io) \<Rightarrow> ('s guest, unit) io" where
  "blk_round b sector count sum0 k =
     bind_io (writeReadBack b sector count sum0) (\<lambda>(ok, sum0). if \<not> ok then halt else k sum0)"

text \<open>The isolation check and the verdict, after the three rounds.\<close>

definition blk_verdict :: "'s blk_driver \<Rightarrow> u64 \<Rightarrow> ('s guest, unit) io" where
  "blk_verdict b sum0 =
     check_io (on_machine (blk_ReadBlocks b lbaZero 1))
       (\<lambda>e. andThen (say ''BLK-VALIDATE: FAIL re-read LBA %d: %v'' [ANum (uint lbaZero), AErr e]) halt) (\<lambda>got.
     let want = pattern lbaZero 1 in
     if \<not> bytes_equal got want
     then andThen (say ''BLK-VALIDATE: FAIL LBA %d was clobbered by a later write (sector field ignored?)'' [ANum (uint lbaZero)]) halt
     else andThen (say ''BLK-VALIDATE: checksum=%#016x'' [ANum (uint sum0)])
       (andThen (say ''BLK-VALIDATE: PASS write/read-back byte-equal at LBAs %d, %d, %d..%d (Flush OK)''
          [ANum (uint lbaZero), ANum (uint lbaMid), ANum (uint lbaRun), ANum (uint (lbaRun + of_nat runCount - 1))]) halt))"

definition blk_run :: "'s blk_driver \<Rightarrow> u16 \<times> u16 \<Rightarrow> blk_info \<Rightarrow> ('s guest, unit) io" where
  "blk_run b ids info =
     andThen (say ''BLK-VALIDATE: BLK=%#04x:%#04x capacity_sectors=%d ro=%v features=%#x''
       [ANum (uint (fst ids)), ANum (uint (snd ids)), ANum (uint (Capacity info)), ABool (ReadOnly info), ANum (uint (blk_Features info))])
     (if Capacity info \<noteq> expectedSectors
      then andThen (say ''BLK-VALIDATE: FAIL capacity mismatch: got %d want %d sectors''
             [ANum (uint (Capacity info)), ANum (uint expectedSectors)]) halt
      else if ReadOnly info
      then andThen (say ''BLK-VALIDATE: FAIL device is read-only; cannot run write/read-back proof'' []) halt
      else blk_round b lbaZero 1 0 (\<lambda>sum0. blk_round b lbaMid 1 sum0 (\<lambda>sum0. blk_round b lbaRun runCount sum0 (blk_verdict b))))"

definition blk_main :: "'s platform \<Rightarrow> 's blk_driver \<Rightarrow> ('s guest, unit) io" where
  "blk_main pf b = bring_up pf (''BLK-VALIDATE: FAIL no virtio-blk-pci device found'', [])
     ''BLK-VALIDATE: FAIL OpenVirtioBlk: %v'' (blk_Open b) (blk_run b)"

end
