(* ===== verification/Guest_Rng.thy ===== *)
theory Guest_Rng
  imports Guest_Blk
begin

text \<open>
  The entropy harness of \<open>guest/cmd/rngvalidate/main.go\<close>. The driver \<open>go-virtio/rng\<close> is a
  parameter; \<open>Read\<close> fills a buffer of the given length and returns a count, so it returns the
  contents of the buffer after the call together with that count.
\<close>

section \<open>The driver\<close>

record 's rng_driver =
  rng_Open :: "'s Transport \<Rightarrow> ('s machine, u64) io"
  rng_Read :: "nat \<Rightarrow> ('s machine, bytes \<times> int) io"

section \<open>The harness\<close>

definition readLen :: nat where "readLen = 64"
definition sampleLen :: nat where "sampleLen = 8192"
definition minDistinctValues :: int where "minDistinctValues = 200"
definition chiSquareMax :: int where "chiSquareMax = 400"

definition hex_digit :: "byte \<Rightarrow> char" where
  "hex_digit d = ''0123456789abcdef'' ! unat d"

definition hex8 :: "bytes \<Rightarrow> string" where
  "hex8 b = (let n = (if 8 < length b then 8 else length b) in
     fold (\<lambda>i out. out @ [hex_digit (drop_bit 4 (b ! i)), hex_digit (b ! i AND 0x0f)]) [0..<n] [])"

text \<open>The loop over the sample: the histogram, and whether every byte so far is zero.\<close>

definition hist_step :: "byte \<Rightarrow> int list \<times> bool \<Rightarrow> int list \<times> bool" where
  "hist_step c = (\<lambda>(hist, allZero). (hist[unat c := hist ! unat c + 1], if c \<noteq> 0 then False else allZero))"

definition histogram :: "bytes \<Rightarrow> int list \<times> bool" where
  "histogram s = fold hist_step s (replicate 256 0, True)"

definition distinct_values :: "int list \<Rightarrow> int" where
  "distinct_values hist = fold (\<lambda>h n. if 0 < h then n + 1 else n) hist 0"

text \<open>Go's \<open>/\<close> truncates; every dividend here is at least 0.\<close>

definition chi_square :: "int list \<Rightarrow> int" where
  "chi_square hist = (let expected = int sampleLen div 256 in
     fold (\<lambda>h chi. let d = h - expected in chi + (d * d * 100) div expected) hist 0 div 100)"

text \<open>One read into a fresh buffer, with its two checks.\<close>

definition rng_fill :: "'s rng_driver \<Rightarrow> string \<Rightarrow> nat \<Rightarrow> (bytes \<Rightarrow> ('s guest, unit) io) \<Rightarrow> ('s guest, unit) io" where
  "rng_fill r name n k =
     check_io (on_machine (rng_Read r n))
       (\<lambda>e. andThen (say (''RNG-VALIDATE: FAIL Read('' @ name @ ''): %v'') [AErr e]) halt) (\<lambda>(buf, cnt).
     if cnt \<noteq> int n
     then andThen (say (''RNG-VALIDATE: FAIL Read('' @ name @ '') length: got %d want %d'') [ANum cnt, ANum (int n)]) halt
     else k buf)"

definition rng_judge :: "bytes \<Rightarrow> ('s guest, unit) io" where
  "rng_judge s = (let (hist, allZero) = histogram s in
     if allZero then andThen (say ''RNG-VALIDATE: FAIL sample is all-zero (no entropy delivered)'' []) halt
     else let distinct = distinct_values hist in
     if distinct < minDistinctValues
     then andThen (say ''RNG-VALIDATE: FAIL only %d of 256 byte values present (< %d); low-entropy source''
            [ANum distinct, ANum minDistinctValues]) halt
     else let chi = chi_square hist in
     if chiSquareMax < chi
     then andThen (say ''RNG-VALIDATE: FAIL chi-square=%d exceeds %d (non-uniform; suspect source)'' [ANum chi, ANum chiSquareMax]) halt
     else andThen (say ''RNG-VALIDATE: sample=%d distinct_values=%d chi_square=%d (max %d)''
            [ANum (int sampleLen), ANum distinct, ANum chi, ANum chiSquareMax])
       (andThen (say ''RNG-VALIDATE: PASS entropy delivered: length OK, two reads differ, %d/256 values, chi=%d''
            [ANum distinct, ANum chi]) halt))"

definition rng_run :: "'s rng_driver \<Rightarrow> u16 \<times> u16 \<Rightarrow> u64 \<Rightarrow> ('s guest, unit) io" where
  "rng_run r ids features =
     andThen (say ''RNG-VALIDATE: RNG=%#04x:%#04x features=%#x'' [ANum (uint (fst ids)), ANum (uint (snd ids)), ANum (uint features)])
     (rng_fill r ''#1'' readLen (\<lambda>a.
      rng_fill r ''#2'' readLen (\<lambda>b.
      if bytes_equal a b
      then andThen (say ''RNG-VALIDATE: FAIL two successive %d-byte reads are byte-identical (stuck source?)'' [ANum (int readLen)]) halt
      else andThen (say ''RNG-VALIDATE: read1[0:8]=%s'' [AStr (hex8 a)])
        (andThen (say ''RNG-VALIDATE: read2[0:8]=%s'' [AStr (hex8 b)])
        (rng_fill r ''sample'' sampleLen rng_judge)))))"

definition rng_main :: "'s platform \<Rightarrow> 's rng_driver \<Rightarrow> ('s guest, unit) io" where
  "rng_main pf r = bring_up pf (''RNG-VALIDATE: FAIL no virtio-rng-pci device found'', [])
     ''RNG-VALIDATE: FAIL OpenVirtioRng: %v'' (rng_Open r) (rng_run r)"

end
