(* ===== verification/Guest_Blk_Props.thy ===== *)
theory Guest_Blk_Props
  imports Guest_Blk
begin

text \<open>
  What the verdict of the block harness means. The written pattern identifies a sector modulo 256.
  For every driver that serves requests from some place on the disk, the three write and read-back
  rounds succeed, and the verdict is \<open>PASS\<close> exactly when none of the later writes reaches the
  place of sector 0: a correct driver passes, and one that ignores the sector number fails.
\<close>

section \<open>The pattern\<close>

definition block :: "u64 \<Rightarrow> bytes" where
  "block lba = map (pattern_byte lba) [0..<512]"

lemma length_block [simp]: "length (block lba) = 512"
  by (simp add: block_def)

lemma fold_update:
  assumes "base + n \<le> length buf"
  shows "fold (\<lambda>i buf. buf[base + i := g i]) [0..<n] buf = take base buf @ map g [0..<n] @ drop (base + n) buf"
  using assms
proof (induction n)
  case (Suc n)
  then have "drop (base + n) buf = buf ! (base + n) # drop (Suc (base + n)) buf" by (simp add: Cons_nth_drop_Suc)
  with Suc show ?case by (simp add: list_update_append)
qed simp

lemma pattern_blocks: "pattern sector count = concat (map (\<lambda>s. block (sector + of_nat s)) [0..<count])"
proof -
  let ?step = "\<lambda>s buf. let lba = sector + of_nat s; base = s * BlockSize in
     fold (\<lambda>off buf. buf[base + off := pattern_byte lba off]) [0..<BlockSize] buf"
  have len: "length (concat (map (\<lambda>s. block (sector + of_nat s)) [0..<k])) = k * 512" for k
    by (induction k) simp_all
  have "fold ?step [0..<k] (replicate (count * BlockSize) 0) =
      concat (map (\<lambda>s. block (sector + of_nat s)) [0..<k]) @ replicate ((count - k) * 512) 0" if "k \<le> count" for k
    using that
  proof (induction k)
    case (Suc k)
    let ?pre = "concat (map (\<lambda>s. block (sector + of_nat s)) [0..<k])"
    have "(count - k) * 512 = 512 + (count - Suc k) * 512" using Suc.prems by (simp add: Suc_diff_Suc flip: mult_Suc)
    then have "?step k (?pre @ replicate ((count - k) * 512) 0) = ?pre @ block (sector + of_nat k) @ replicate ((count - Suc k) * 512) 0"
      using fold_update[of "k * 512" 512 "?pre @ replicate ((count - k) * 512) 0" "pattern_byte (sector + of_nat k)"] len[of k]
      by (simp add: BlockSize_def Let_def block_def)
    with Suc show ?case by simp
  qed (simp add: BlockSize_def)
  from this[of count] show ?thesis by (simp add: pattern_def)
qed

lemma pattern_block_at: "i < count \<Longrightarrow> take 512 (drop (i * 512) (pattern sector count)) = block (sector + of_nat i)"
proof -
  assume i: "i < count"
  have len: "length (concat (map (\<lambda>s. block (sector + of_nat s)) [0..<k])) = k * 512" for k
    by (induction k) simp_all
  have "[0..<count] = [0..<i] @ i # [Suc i..<count]" using i upt_add_eq_append[of 0 i "count - i"] by (simp add: upt_conv_Cons)
  then have "pattern sector count = concat (map (\<lambda>s. block (sector + of_nat s)) [0..<i]) @ block (sector + of_nat i) @
      concat (map (\<lambda>s. block (sector + of_nat s)) [Suc i..<count])"
    by (simp add: pattern_blocks)
  then show ?thesis using len[of i] by simp
qed

lemma length_pattern [simp]: "length (pattern sector count) = count * 512"
  by (induction count) (simp_all add: pattern_blocks)

lemma of_int_mod64: "(of_int (x mod 2 ^ 64) :: byte) = of_int x"
  unfolding word_of_int_eq_iff take_bit_eq_mod by (simp add: mod_mod_cancel)

lemma ucast_byte_arith:
  "(ucast (a + b) :: byte) = ucast a + ucast b" "(ucast (a * b) :: byte) = ucast a * ucast b"
  "(ucast (of_nat n :: u64) :: byte) = of_nat n" for a b :: u64
proof -
  have c: "(ucast w :: byte) = of_int (uint w)" for w :: u64 by simp
  show "(ucast (a + b) :: byte) = ucast a + ucast b"
    using of_int_mod64[of "uint a + uint b"] unfolding c uint_word_ariths by simp
  show "(ucast (a * b) :: byte) = ucast a * ucast b"
    using of_int_mod64[of "uint a * uint b"] unfolding c uint_word_ariths by simp
  show "(ucast (of_nat n :: u64) :: byte) = of_nat n"
  proof -
    have "(ucast (of_nat n :: u64) :: byte) = of_nat (unat (of_nat n :: u64))" by simp
    also have "\<dots> = of_nat (n mod 2 ^ 64)" by (simp only: unat_of_nat len_num1 len_bit0 len_bit1) simp
    also have "\<dots> = of_nat n" unfolding word_of_nat_eq_iff take_bit_eq_mod by (simp add: mod_mod_cancel)
    finally show ?thesis .
  qed
qed

lemma pattern_byte_alt: "pattern_byte lba off = ucast lba * 31 + of_nat off * 7 + 0xA5"
  by (simp add: pattern_byte_def ucast_byte_arith)

text \<open>C33. The pattern of a sector determines its number modulo 256 and nothing more: the blocks of two
  sectors are equal exactly when their numbers agree modulo 256, and then they agree in every
  byte.\<close>

theorem pattern_identifies_sector:
  "pattern l 1 = pattern l' 1 \<longleftrightarrow> unat l mod 256 = unat l' mod 256"
proof -
  have "pattern l 1 = pattern l' 1 \<longleftrightarrow> (ucast l :: byte) = ucast l'"
  proof
    assume "pattern l 1 = pattern l' 1"
    then have "block l ! 0 = block l' ! 0" by (simp add: pattern_blocks)
    then have "(ucast l :: byte) * 31 = ucast l' * 31" by (simp add: block_def pattern_byte_alt)
    then have "(ucast l :: byte) * 31 * 223 = ucast l' * 31 * 223" by simp
    moreover have "(31 :: byte) * 223 = 1" by code_simp
    ultimately show "(ucast l :: byte) = ucast l'" by (simp only: mult.assoc mult_1_right)
  next
    assume "(ucast l :: byte) = ucast l'"
    then have "block l = block l'" by (simp add: block_def pattern_byte_alt fun_eq_iff)
    then show "pattern l 1 = pattern l' 1" by (simp add: pattern_blocks)
  qed
  also have "(ucast l :: byte) = ucast l' \<longleftrightarrow> unat (ucast l :: byte) = unat (ucast l' :: byte)" by (rule word_eq_iff_unsigned)
  also have "\<dots> \<longleftrightarrow> unat l mod 256 = unat l' mod 256" by (simp add: unsigned_ucast_eq take_bit_eq_mod)
  finally show ?thesis .
qed

section \<open>Drivers over a disk\<close>

text \<open>Blocks of data laid on the disk from sector \<open>p\<close> on.\<close>

definition lay :: "(nat \<Rightarrow> bytes) \<Rightarrow> nat \<Rightarrow> bytes \<Rightarrow> nat \<Rightarrow> bytes" where
  "lay d p data k = (if p \<le> k \<and> k < p + length data div 512 then take 512 (drop ((k - p) * 512) data) else d k)"

locale block_device =
  boots pf "blk_Open b" info for pf :: "'s platform" and b :: "'s blk_driver" and info :: blk_info +
  fixes disk :: "'s machine \<Rightarrow> nat \<Rightarrow> bytes" and place :: "u64 \<Rightarrow> nat"
  assumes writes: "length data mod 512 = 0 \<Longrightarrow>
      \<exists>m'. blk_WriteBlocks b sector data m = Some (Ok (), m') \<and> disk m' = lay (disk m) (place sector) data"
    and flushes: "\<exists>m'. blk_Flush b m = Some (Ok (), m') \<and> disk m' = disk m"
    and reads: "\<exists>m'. blk_ReadBlocks b sector n m =
      Some (Ok (concat (map (disk m) [place sector..<place sector + unat n])), m') \<and> disk m' = disk m"

lemma first_diff_refl: "first_diff xs xs is = None"
  by (induction "is") simp_all

lemma bytes_equal_iff: "bytes_equal xs ys \<longleftrightarrow> xs = ys"
proof -
  have "equal_from xs ys is \<longleftrightarrow> (\<forall>i\<in>set is. xs ! i = ys ! i)" for "is" by (induction "is") simp_all
  then show ?thesis by (auto simp: bytes_equal_def intro: nth_equalityI)
qed

lemma lay_pattern:
  "lay d p (pattern sector count) k = (if p \<le> k \<and> k < p + count then block (sector + of_nat (k - p)) else d k)"
  using pattern_block_at[of "k - p" count sector] by (auto simp: lay_def)

lemma lay_pattern_read: "concat (map (lay d p (pattern sector count)) [p..<p + count]) = pattern sector count"
proof -
  have "map (lay d p (pattern sector count)) [p..<p + count] = map (\<lambda>s. block (sector + of_nat s)) [0..<count]"
    by (rule nth_equalityI) (simp_all add: lay_pattern)
  then show ?thesis by (simp add: pattern_blocks)
qed

context block_device
begin

lemma blk_round_run:
  assumes "count < 2 ^ 64"
  shows "\<exists>m' line. blk_round b sector count acc k s = k (checksum (pattern sector count) acc)
      (s\<lparr>g_machine := m', g_serial := g_serial s @ [(''BLK-VALIDATE: ok LBA %d count=%d bytes=%d round-trip byte-equal'', line)]\<rparr>) \<and>
    disk m' = lay (disk (g_machine s)) (place sector) (pattern sector count)"
proof -
  let ?p = "pattern sector count" and ?ok = "''BLK-VALIDATE: ok LBA %d count=%d bytes=%d round-trip byte-equal''"
  obtain m1 where m1: "blk_WriteBlocks b sector ?p (g_machine s) = Some (Ok (), m1)"
      "disk m1 = lay (disk (g_machine s)) (place sector) ?p"
    using writes[of ?p sector "g_machine s"] by auto
  obtain m2 where m2: "blk_Flush b m1 = Some (Ok (), m2)" "disk m2 = disk m1" using flushes[of m1] by auto
  obtain m3 where m3: "blk_ReadBlocks b sector (of_nat count) m2 = Some (Ok ?p, m3)" "disk m3 = disk m2"
    using reads[of sector "of_nat count" m2] assms m1(2) m2(2) by (auto simp: lay_pattern_read)
  have "writeReadBack b sector count acc s = Some (Ok (True, checksum ?p acc), s\<lparr>g_machine := m3,
      g_serial := g_serial s @ [(?ok, [ANum (uint sector), ANum (int count), ANum (int (length ?p))])]\<rparr>)"
    using m1(1) m2(1) m3(1) by (simp add: writeReadBack_def Let_def on_machine_run first_diff_refl)
  then have "blk_round b sector count acc k s = k (checksum ?p acc) (s\<lparr>g_machine := m3,
      g_serial := g_serial s @ [(?ok, [ANum (uint sector), ANum (int count), ANum (int (length ?p))])]\<rparr>)"
    by (simp add: blk_round_def)
  moreover have "disk m3 = lay (disk (g_machine s)) (place sector) ?p" using m1(2) m2(2) m3(2) by simp
  ultimately show ?thesis by (intro exI conjI)
qed

lemma blk_verdict_run:
  "\<exists>s'. blk_verdict b acc s = Some (Ok (), s') \<and>
    (says_pass ''BLK-VALIDATE'' (g_serial s') \<longleftrightarrow> says_pass ''BLK-VALIDATE'' (g_serial s) \<or> disk (g_machine s) (place 0) = block 0)"
proof -
  have p: "pattern lbaZero 1 = block 0" by (simp add: pattern_blocks lbaZero_def)
  obtain m' where r: "blk_ReadBlocks b lbaZero 1 (g_machine s) = Some (Ok (disk (g_machine s) (place 0)), m')"
    using reads[of lbaZero 1 "g_machine s"] by (auto simp: lbaZero_def)
  show ?thesis
    by (cases "disk (g_machine s) (place 0) = block 0")
      (simp_all add: blk_verdict_def on_machine_run[where m = "blk_ReadBlocks b lbaZero 1", OF r] p[unfolded One_nat_def] bytes_equal_iff Let_def says_pass_def)
qed

text \<open>The disk after the three rounds, at the place of sector 0.\<close>

definition final_block :: "nat \<Rightarrow> bytes" where
  "final_block k = (if place 8000 \<le> k \<and> k < place 8000 + 5 then block (8000 + of_nat (k - place 8000))
     else if k = place 1234 then block 1234 else block 0)"

lemma blk_run_verdict:
  assumes "Capacity info = expectedSectors" "\<not> ReadOnly info"
  shows "\<exists>s'. blk_run b ids info s = Some (Ok (), s') \<and>
    (says_pass ''BLK-VALIDATE'' (g_serial s') \<longleftrightarrow> says_pass ''BLK-VALIDATE'' (g_serial s) \<or> final_block (place 0) = block 0)"
proof -
  let ?s0 = "s\<lparr>g_serial := g_serial s @ [(''BLK-VALIDATE: BLK=%#04x:%#04x capacity_sectors=%d ro=%v features=%#x'',
    [ANum (uint (fst ids)), ANum (uint (snd ids)), ANum (uint (Capacity info)), ABool (ReadOnly info), ANum (uint (blk_Features info))])]\<rparr>"
  let ?ok = "''BLK-VALIDATE: ok LBA %d count=%d bytes=%d round-trip byte-equal''"
  let ?k2 = "\<lambda>acc. blk_round b lbaRun runCount acc (blk_verdict b)" and ?k1 = "\<lambda>acc. blk_round b lbaMid 1 acc (\<lambda>acc. blk_round b lbaRun runCount acc (blk_verdict b))"
  define c1 c2 c3 where "c1 = checksum (pattern lbaZero 1) 0" and "c2 = checksum (pattern lbaMid 1) c1" and "c3 = checksum (pattern lbaRun runCount) c2"
  obtain m1 a1 where r1: "blk_round b lbaZero 1 0 ?k1 ?s0 = ?k1 c1 (?s0\<lparr>g_machine := m1, g_serial := g_serial ?s0 @ [(?ok, a1)]\<rparr>)"
      "disk m1 = lay (disk (g_machine ?s0)) (place lbaZero) (pattern lbaZero 1)"
    using blk_round_run[of 1 lbaZero 0 ?k1 ?s0] by (auto simp: c1_def)
  let ?s1 = "?s0\<lparr>g_machine := m1, g_serial := g_serial ?s0 @ [(?ok, a1)]\<rparr>"
  obtain m2 a2 where r2: "?k1 c1 ?s1 = ?k2 c2 (?s1\<lparr>g_machine := m2, g_serial := g_serial ?s1 @ [(?ok, a2)]\<rparr>)"
      "disk m2 = lay (disk (g_machine ?s1)) (place lbaMid) (pattern lbaMid 1)"
    using blk_round_run[of 1 lbaMid c1 ?k2 ?s1] by (auto simp: c2_def)
  let ?s2 = "?s1\<lparr>g_machine := m2, g_serial := g_serial ?s1 @ [(?ok, a2)]\<rparr>"
  obtain m3 a3 where r3: "?k2 c2 ?s2 = blk_verdict b c3 (?s2\<lparr>g_machine := m3, g_serial := g_serial ?s2 @ [(?ok, a3)]\<rparr>)"
      "disk m3 = lay (disk (g_machine ?s2)) (place lbaRun) (pattern lbaRun runCount)"
    using blk_round_run[of runCount lbaRun c2 "blk_verdict b" ?s2] by (auto simp: c3_def runCount_def)
  let ?s3 = "?s2\<lparr>g_machine := m3, g_serial := g_serial ?s2 @ [(?ok, a3)]\<rparr>"
  have run: "blk_run b ids info s = blk_verdict b c3 ?s3"
    using r1(1) r2(1) r3(1) assms by (simp add: blk_run_def)
  have "disk m3 (place 0) = final_block (place 0)"
    using r1(2) r2(2) r3(2) by (auto simp: lay_pattern final_block_def lbaZero_def lbaMid_def lbaRun_def runCount_def)
  moreover have "says_pass ''BLK-VALIDATE'' (g_serial ?s3) \<longleftrightarrow> says_pass ''BLK-VALIDATE'' (g_serial s)"
    by (simp add: says_pass_def)
  ultimately show ?thesis using blk_verdict_run[of c3 ?s3] unfolding run by simp
qed

lemma final_block_iff:
  "final_block (place 0) = block 0 \<longleftrightarrow> place 0 \<noteq> place 1234 \<and> \<not> (place 8000 \<le> place 0 \<and> place 0 < place 8000 + 5)"
proof -
  have "block l ! 0 = pattern_byte l 0" for l by (simp add: block_def)
  moreover have "pattern_byte 1234 0 \<noteq> pattern_byte 0 0" by code_simp
  moreover have "pattern_byte (8000 + of_nat i) 0 \<noteq> pattern_byte 0 0" if "i < 5" for i
  proof -
    have "\<forall>i\<in>{0, 1, 2, 3, 4}. pattern_byte (8000 + of_nat i) 0 \<noteq> pattern_byte 0 0" by code_simp
    moreover have "i \<in> {0, 1, 2, 3, 4}" using that by auto
    ultimately show ?thesis by blast
  qed
  ultimately have d: "block 1234 \<noteq> block 0" "i < 5 \<Longrightarrow> block (8000 + of_nat i) \<noteq> block 0" for i by metis+
  have "place 0 - place 8000 < 5" if "place 0 < place 8000 + 5" using that by simp
  with d(1) d(2)[of "place 0 - place 8000"] show ?thesis by (simp add: final_block_def del: of_nat_diff)
qed

lemma blk_main_verdict:
  "\<exists>s'. blk_main pf b s = Some (Ok (), s') \<and> (says_pass ''BLK-VALIDATE'' (g_serial s') \<longleftrightarrow>
     says_pass ''BLK-VALIDATE'' (g_serial s) \<or> Capacity info = expectedSectors \<and> \<not> ReadOnly info \<and>
       place 0 \<noteq> place 1234 \<and> \<not> (place 8000 \<le> place 0 \<and> place 0 < place 8000 + 5))"
proof -
  obtain ids m where up: "blk_main pf b s = blk_run b ids info (s\<lparr>g_machine := m\<rparr>)"
    unfolding blk_main_def using bring_up_run by blast
  show ?thesis
  proof (cases "Capacity info = expectedSectors \<and> \<not> ReadOnly info")
    case True
    then show ?thesis using blk_run_verdict[of ids "s\<lparr>g_machine := m\<rparr>"] final_block_iff unfolding up by simp
  next
    case False
    then show ?thesis unfolding up blk_run_def by (auto simp: says_pass_def)
  qed
qed

end

section \<open>A disk in memory\<close>

text \<open>A driver that keeps the disk as the hardware state and serves requests at \<open>pl sector\<close>.\<close>

definition disk_driver :: "(u64 \<Rightarrow> nat) \<Rightarrow> blk_info \<Rightarrow> (nat \<Rightarrow> bytes) blk_driver" where
  "disk_driver pl info = \<lparr>blk_Open = \<lambda>t m. Some (Ok info, m),
     blk_WriteBlocks = \<lambda>sector data m. Some (Ok (), m\<lparr>hw := lay (hw m) (pl sector) data\<rparr>),
     blk_Flush = \<lambda>m. Some (Ok (), m),
     blk_ReadBlocks = \<lambda>sector n m. Some (Ok (concat (map (hw m) [pl sector..<pl sector + unat n])), m)\<rparr>"

interpretation disk: block_device bare_platform "disk_driver pl info" info hw pl
  by unfold_locales (auto simp: bare_platform_def disk_driver_def)

text \<open>C10. Against any driver that serves block requests from a disk, at the place \<open>place sector\<close> it takes
  for a sector, the harness reaches its verdict, and it is \<open>PASS\<close> exactly when the disk has the
  expected capacity, is writable, and neither of the later writes reaches the place of sector 0.\<close>

theorem blk_verdict_iff:
  assumes "block_device pf b info disk place" "\<not> says_pass ''BLK-VALIDATE'' (g_serial s)"
  shows "\<exists>s'. blk_main pf b s = Some (Ok (), s') \<and> (says_pass ''BLK-VALIDATE'' (g_serial s') \<longleftrightarrow>
    Capacity info = expectedSectors \<and> \<not> ReadOnly info \<and>
    place 0 \<noteq> place 1234 \<and> \<not> (place 8000 \<le> place 0 \<and> place 0 < place 8000 + 5))"
  using block_device.blk_main_verdict[OF assms(1), of s] assms(2) by simp

definition demo_guest :: "(nat \<Rightarrow> bytes) guest" where
  "demo_guest = \<lparr>g_machine = \<lparr>phys = \<lambda>_. 0, hw = \<lambda>_. []\<rparr>, g_serial = []\<rparr>"

definition disk_info :: blk_info where
  "disk_info = \<lparr>Capacity = 16384, ReadOnly = False, blk_Features = 0\<rparr>"

text \<open>A correct driver passes; one that ignores the sector number is caught.\<close>

theorem blk_verdict_iff_witness:
  "(\<exists>s'. blk_main bare_platform (disk_driver unat disk_info) demo_guest = Some (Ok (), s') \<and> says_pass ''BLK-VALIDATE'' (g_serial s')) \<and>
   (\<exists>s'. blk_main bare_platform (disk_driver (\<lambda>_. 0) disk_info) demo_guest = Some (Ok (), s') \<and> \<not> says_pass ''BLK-VALIDATE'' (g_serial s'))"
proof -
  have n: "\<not> says_pass ''BLK-VALIDATE'' (g_serial demo_guest)" by (simp add: demo_guest_def says_pass_def)
  have i: "Capacity disk_info = expectedSectors" "\<not> ReadOnly disk_info" by (simp_all add: disk_info_def expectedSectors_def BlockSize_def)
  show ?thesis
    using blk_verdict_iff[OF disk.block_device_axioms[of unat disk_info] n] blk_verdict_iff[OF disk.block_device_axioms[of "\<lambda>_. 0" disk_info] n] i by auto
qed

end
