(* ===== verification/Guest_Rng_Props.thy ===== *)
theory Guest_Rng_Props
  imports Guest_Rng Guest_Blk_Props Complex_Main
begin

text \<open>
  What the verdict of the entropy harness means, for every source that delivers the requested
  number of bytes: it is \<open>PASS\<close> exactly when two successive reads differ, the sample has at least
  200 different byte values, and its chi-square statistic, computed in integers, is at most 400.
  The integer statistic is below the exact one by less than 3.56.
\<close>

section \<open>The statistics\<close>

lemma hist_step_spec:
  assumes "length (fst h) = 256"
  shows "length (fst (hist_step c h)) = 256" "snd (hist_step c h) \<longleftrightarrow> snd h \<and> c = 0"
    "k < 256 \<Longrightarrow> fst (hist_step c h) ! k = fst h ! k + of_bool (of_nat k = c)"
proof -
  have c: "unat c < 256" using unsigned_less[of c, where 'a = nat] by simp
  show "length (fst (hist_step c h)) = 256" "snd (hist_step c h) \<longleftrightarrow> snd h \<and> c = 0"
    using assms by (auto simp: hist_step_def split: prod.splits)
  have "(of_nat k :: byte) = c \<longleftrightarrow> unat c = k" if "k < 256"
    using that c by (auto simp: unat_of_nat take_bit_nat_eq_self)
  then show "fst (hist_step c h) ! k = fst h ! k + of_bool (of_nat k = c)" if "k < 256"
    using that assms by (cases "unat c = k") (auto simp: hist_step_def split: prod.splits)
qed

lemma fold_hist:
  assumes "length (fst h) = 256"
  shows "length (fst (fold hist_step s h)) = 256 \<and>
    (\<forall>k<256. fst (fold hist_step s h) ! k = fst h ! k + int (count_list s (of_nat k))) \<and>
    (snd (fold hist_step s h) \<longleftrightarrow> snd h \<and> (\<forall>c\<in>set s. c = 0))"
  using assms
proof (induction s arbitrary: h)
  case (Cons c s)
  note st = hist_step_spec[OF Cons.prems, where c = c]
  from Cons.IH[OF st(1)] show ?case by (auto simp: st(2,3))
qed simp

lemma histogram_counts:
  "length (fst (histogram s)) = 256" "k < 256 \<Longrightarrow> fst (histogram s) ! k = int (count_list s (of_nat k))"
  "snd (histogram s) \<longleftrightarrow> (\<forall>c\<in>set s. c = 0)"
  using fold_hist[of "(replicate 256 0, True)" s] by (simp_all add: histogram_def)

lemma fold_count: "fold (\<lambda>h n. if 0 < h then n + 1 else n) hist a = a + int (length (filter (\<lambda>h. 0 < h) hist))" for a :: int and hist :: "int list"
  by (induction hist arbitrary: a) auto

lemma distinct_values_card: "distinct_values (fst (histogram s)) = int (card (set s))"
proof -
  let ?h = "fst (histogram s)"
  have "length (filter (\<lambda>h. 0 < h) ?h) = card {k. k < length ?h \<and> 0 < ?h ! k}" by (rule length_filter_conv_card)
  also have "{k. k < length ?h \<and> 0 < ?h ! k} = unat ` set s"
  proof (intro set_eqI iffI)
    fix k assume "k \<in> {k. k < length ?h \<and> 0 < ?h ! k}"
    then have "k < 256" "of_nat k \<in> set s" using count_list_0_iff[of s "of_nat k"] by (auto simp: histogram_counts)
    then show "k \<in> unat ` set s" by (intro image_eqI[of _ _ "of_nat k"]) (auto simp: unat_of_nat take_bit_nat_eq_self)
  next
    fix k assume "k \<in> unat ` set s"
    then obtain c where c: "c \<in> set s" "k = unat c" by blast
    then have "k < 256" "of_nat k = c" using unsigned_less[of c, where 'a = nat] by auto
    with c show "k \<in> {k. k < length ?h \<and> 0 < ?h ! k}" by (simp add: histogram_counts zero_less_iff_neq_zero count_list_0_iff)
  qed
  also have "card (unat ` set s) = card (set s)" by (rule card_image) (auto simp: inj_on_def intro: unsigned_word_eqI)
  finally show ?thesis by (simp add: distinct_values_def fold_count)
qed

text \<open>The exact statistic of a histogram of \<open>8192\<close> bytes.\<close>

definition exact_chi :: "int list \<Rightarrow> rat" where
  "exact_chi hist = (\<Sum>h\<leftarrow>hist. of_int ((h - 32) * (h - 32)) / 32)"

definition scaled_chi :: "int list \<Rightarrow> int" where
  "scaled_chi hist = (\<Sum>h\<leftarrow>hist. ((h - 32) * (h - 32) * 100) div 32)"

lemma chi_square_scaled: "chi_square hist = scaled_chi hist div 100"
proof -
  have "fold (\<lambda>h chi. chi + f h) xs a = a + (\<Sum>h\<leftarrow>xs. f h)" for f :: "int \<Rightarrow> int" and xs a
    by (induction xs arbitrary: a) simp_all
  then show ?thesis by (simp add: chi_square_def scaled_chi_def sampleLen_def Let_def)
qed

lemma scaled_term:
  "of_int (d * 100 div 32) \<le> 100 * (of_int d / 32 :: rat)" "100 * (of_int d / 32 :: rat) \<le> of_int (d * 100 div 32) + 1"
proof -
  have "d * 100 = 32 * (d * 100 div 32) + d * 100 mod 32" by (simp only: mult_div_mod_eq)
  then have "(of_int (d * 100) :: rat) = 32 * of_int (d * 100 div 32) + of_int (d * 100 mod 32)"
    by (metis of_int_add of_int_mult of_int_numeral)
  moreover have "0 \<le> d * 100 mod 32" "d * 100 mod 32 < 32" by simp_all
  then have "(0 :: rat) \<le> of_int (d * 100 mod 32)" "(of_int (d * 100 mod 32) :: rat) \<le> 32" by simp_all
  ultimately show "of_int (d * 100 div 32) \<le> 100 * (of_int d / 32 :: rat)"
    "100 * (of_int d / 32 :: rat) \<le> of_int (d * 100 div 32) + 1"
    by simp_all
qed

lemma scaled_chi_bounds:
  "of_int (scaled_chi hist) \<le> 100 * exact_chi hist \<and> 100 * exact_chi hist \<le> of_int (scaled_chi hist) + of_nat (length hist)"
proof (induction hist)
  case (Cons h hist)
  define d where "d = (h - 32) * (h - 32)"
  have "scaled_chi (h # hist) = d * 100 div 32 + scaled_chi hist" "exact_chi (h # hist) = of_int d / 32 + exact_chi hist"
    by (simp_all add: scaled_chi_def exact_chi_def d_def)
  with Cons scaled_term[of d] show ?case by (simp del: of_int_mult of_int_diff)
qed (simp add: scaled_chi_def exact_chi_def)

text \<open>C34. The integer statistic of the harness never exceeds the exact chi-square statistic of the
  sample and is below it by less than 3.56, so a sample whose exact statistic is at least 403.56
  is rejected and one whose exact statistic is at most 400 is not.\<close>

theorem chi_square_bounds:
  "of_int (chi_square (fst (histogram s))) \<le> exact_chi (fst (histogram s)) \<and>
   exact_chi (fst (histogram s)) < of_int (chi_square (fst (histogram s))) + 3.56"
proof -
  define T where "T = scaled_chi (fst (histogram s))"
  have "T = 100 * (T div 100) + T mod 100" by (simp only: mult_div_mod_eq)
  moreover have "0 \<le> T mod 100" "T mod 100 < 100" by simp_all
  ultimately have "100 * (T div 100) \<le> T" "T + 1 \<le> 100 * (T div 100) + 100" by linarith+
  then have "of_int (100 * (T div 100)) \<le> (of_int T :: rat)" "of_int (T + 1) \<le> (of_int (100 * (T div 100) + 100) :: rat)"
    unfolding of_int_le_iff .
  then have "100 * of_int (T div 100) \<le> (of_int T :: rat)" "of_int T + 1 \<le> (100 * of_int (T div 100) + 100 :: rat)" by simp_all
  then show ?thesis
    using scaled_chi_bounds[of "fst (histogram s)"] histogram_counts(1)[of s] by (simp add: chi_square_scaled flip: T_def)
qed

section \<open>Sources\<close>

locale entropy_source =
  boots pf "rng_Open r" features for pf :: "'s platform" and r :: "'s rng_driver" and features :: u64 +
  fixes source :: "nat \<Rightarrow> 's machine \<Rightarrow> bytes \<times> 's machine"
  assumes reads: "rng_Read r n m = Some (Ok (fst (source n m), int n), snd (source n m))"

text \<open>The three reads of a run that starts at machine \<open>m\<close>.\<close>

definition three_reads :: "(nat \<Rightarrow> 's machine \<Rightarrow> bytes \<times> 's machine) \<Rightarrow> 's machine \<Rightarrow> bytes \<times> bytes \<times> bytes" where
  "three_reads source m = (let (a, m1) = source 64 m; (b, m2) = source 64 m1; (smp, m3) = source 8192 m2 in (a, b, smp))"

definition good_entropy :: "bytes \<times> bytes \<times> bytes \<Rightarrow> bool" where
  "good_entropy = (\<lambda>(a, b, smp). a \<noteq> b \<and> 200 \<le> card (set smp) \<and> chi_square (fst (histogram smp)) \<le> 400)"

lemma rng_judge_run:
  "\<exists>s'. rng_judge smp s = Some (Ok (), s') \<and> (says_pass ''RNG-VALIDATE'' (g_serial s') \<longleftrightarrow>
     says_pass ''RNG-VALIDATE'' (g_serial s) \<or> 200 \<le> card (set smp) \<and> chi_square (fst (histogram smp)) \<le> 400)"
proof -
  obtain hist z where h: "histogram smp = (hist, z)" by fastforce
  have d: "distinct_values hist = int (card (set smp))" using distinct_values_card[of smp] by (simp add: h)
  have "card (set smp) \<le> 1" if z
  proof -
    have "set smp \<subseteq> {0}" using histogram_counts(3)[of smp] that by (auto simp: h)
    then show ?thesis using card_mono[of "{0}" "set smp"] by simp
  qed
  then show ?thesis
    by (auto simp: rng_judge_def h Let_def d minDistinctValues_def chiSquareMax_def says_pass_def)
qed

context entropy_source
begin

lemma rng_fill_run: "rng_fill r name n k s = k (fst (source n (g_machine s))) (s\<lparr>g_machine := snd (source n (g_machine s))\<rparr>)"
  by (simp add: rng_fill_def on_machine_def reads check_io_def)

lemma rng_main_verdict:
  "\<exists>s'. rng_main pf r s = Some (Ok (), s') \<and> (says_pass ''RNG-VALIDATE'' (g_serial s') \<longleftrightarrow>
     says_pass ''RNG-VALIDATE'' (g_serial s) \<or> good_entropy (three_reads source (booted pf (rng_Open r) (g_machine s))))"
proof -
  let ?m = "booted pf (rng_Open r) (g_machine s)"
  obtain ids where up: "rng_main pf r s = rng_run r ids features (s\<lparr>g_machine := ?m\<rparr>)"
    unfolding rng_main_def using bring_up_run by blast
  obtain a m1 b m2 smp m3 where src: "source 64 ?m = (a, m1)" "source 64 m1 = (b, m2)" "source 8192 m2 = (smp, m3)" by fastforce
  then have three: "three_reads source ?m = (a, b, smp)" by (simp add: three_reads_def)
  let ?s = "s\<lparr>g_serial := g_serial s @ [(''RNG-VALIDATE: RNG=%#04x:%#04x features=%#x'',
    [ANum (uint (fst ids)), ANum (uint (snd ids)), ANum (uint features)]), (''RNG-VALIDATE: read1[0:8]=%s'', [AStr (hex8 a)]),
    (''RNG-VALIDATE: read2[0:8]=%s'', [AStr (hex8 b)])], g_machine := m3\<rparr>"
  show ?thesis
  proof (cases "a = b")
    case True
    then show ?thesis
      unfolding up three by (simp add: rng_run_def rng_fill_run src readLen_def bytes_equal_iff good_entropy_def says_pass_def)
  next
    case False
    then have "rng_run r ids features (s\<lparr>g_machine := ?m\<rparr>) = rng_judge smp ?s"
      by (simp add: rng_run_def rng_fill_run src readLen_def sampleLen_def bytes_equal_iff)
    moreover have "says_pass ''RNG-VALIDATE'' (g_serial ?s) \<longleftrightarrow> says_pass ''RNG-VALIDATE'' (g_serial s)"
      by (simp add: says_pass_def)
    ultimately show ?thesis
      unfolding up three using False rng_judge_run[of smp ?s] by (auto simp: good_entropy_def)
  qed
qed

end

text \<open>C35. Against any source that delivers the requested number of bytes, the harness reaches its
  verdict, and it is \<open>PASS\<close> exactly when two successive reads of 64 bytes differ, the sample of
  8192 bytes has at least 200 different values and its integer chi-square statistic is at most
  400.\<close>

theorem rng_verdict:
  assumes "entropy_source pf r features source" "\<not> says_pass ''RNG-VALIDATE'' (g_serial s)"
  shows "\<exists>s'. rng_main pf r s = Some (Ok (), s') \<and> (says_pass ''RNG-VALIDATE'' (g_serial s') \<longleftrightarrow>
    good_entropy (three_reads source (booted pf (rng_Open r) (g_machine s))))"
  using entropy_source.rng_main_verdict[OF assms(1), of s] assms(2) by simp

text \<open>A counter as the source: byte \<open>n\<close> of the stream is \<open>n mod 256\<close>; and a stuck source.\<close>

definition counter_source :: "nat \<Rightarrow> byte machine \<Rightarrow> bytes \<times> byte machine" where
  "counter_source n m = (map (\<lambda>i. hw m + of_nat i) [0..<n], m\<lparr>hw := hw m + of_nat n\<rparr>)"

definition stuck_source :: "nat \<Rightarrow> byte machine \<Rightarrow> bytes \<times> byte machine" where
  "stuck_source n m = (replicate n (hw m), m)"

definition source_driver :: "(nat \<Rightarrow> byte machine \<Rightarrow> bytes \<times> byte machine) \<Rightarrow> byte rng_driver" where
  "source_driver src = \<lparr>rng_Open = \<lambda>t m. Some (Ok 0, m), rng_Read = \<lambda>n m. Some (Ok (fst (src n m), int n), snd (src n m))\<rparr>"

interpretation any_source: entropy_source bare_platform "source_driver src" 0 src
  by unfold_locales (auto simp: bare_platform_def source_driver_def)

lemma count_counter: "count_list (map (\<lambda>i. h + of_nat i) [0..<256 * n]) x = n" for h x :: byte
proof (induction n)
  case (Suc n)
  let ?block = "map (\<lambda>i. h + of_nat i) [0..<256]"
  have "inj_on (\<lambda>i. h + of_nat i) {0..<256}"
  proof (rule inj_onI)
    fix i j assume ij: "i \<in> {0..<256}" "j \<in> {0..<256}" "h + (of_nat i :: byte) = h + of_nat j"
    then have "unat (of_nat i :: byte) = unat (of_nat j :: byte)" by simp
    with ij(1,2) show "i = j" by (simp add: unat_of_nat take_bit_nat_eq_self)
  qed
  then have d: "distinct ?block" by (simp add: distinct_map)
  have "x \<in> set ?block"
    using unsigned_less[of "x - h", where 'a = nat] by (auto intro!: image_eqI[of _ _ "unat (x - h)"])
  then have "{y. x = y} \<inter> set ?block = {x}" by auto
  then have one: "count_list ?block x = 1" using distinct_length_filter[OF d, of "(=) x"] by (simp add: count_list_eq_length_filter)
  have "map (\<lambda>i. h + of_nat i) [256 * n..<256 * n + 256] = map (\<lambda>i. h + of_nat (256 * n + i)) [0..<256]"
    unfolding list_eq_iff_nth_eq by simp
  also have "\<dots> = ?block"
  proof -
    have "(256 :: byte) = 0" by simp
    then show ?thesis by (simp only: of_nat_add of_nat_mult of_nat_numeral mult_zero_left add_0)
  qed
  finally have "map (\<lambda>i. h + of_nat i) [0..<256 * Suc n] = map (\<lambda>i. h + of_nat i) [0..<256 * n] @ ?block"
    using upt_add_eq_append[of 0 "256 * n" 256] by (simp add: add.commute)
  with Suc one show ?case by simp
qed simp

lemma counter_good: "good_entropy (three_reads counter_source m)"
proof -
  define smp where "smp = map (\<lambda>i. hw m + 128 + of_nat i :: byte) [0..<256 * 32]"
  have c: "count_list smp x = 32" for x unfolding smp_def by (rule count_counter)
  then have "set smp = UNIV" by (metis UNIV_eq_I count_list_0_iff zero_neq_numeral)
  then have "card (set smp) = 256" by (simp add: card_word)
  moreover have "fst (histogram smp) = replicate 256 32"
    by (rule nth_equalityI) (simp_all add: histogram_counts c)
  then have "chi_square (fst (histogram smp)) = 0" by (simp add: chi_square_scaled scaled_chi_def sum_list_replicate)
  moreover have "map (\<lambda>i. hw m + of_nat i) [0..<64] \<noteq> map (\<lambda>i. hw m + 64 + of_nat i) [0..<64]" by (simp add: upt_rec)
  moreover have "three_reads counter_source m = (map (\<lambda>i. hw m + of_nat i) [0..<64], map (\<lambda>i. hw m + 64 + of_nat i) [0..<64], smp)"
    by (simp add: three_reads_def counter_source_def smp_def)
  ultimately show ?thesis by (simp add: good_entropy_def)
qed

theorem rng_verdict_witness:
  "(\<exists>s'. rng_main bare_platform (source_driver counter_source) \<lparr>g_machine = \<lparr>phys = \<lambda>_. 0, hw = 7\<rparr>, g_serial = []\<rparr> = Some (Ok (), s') \<and>
      says_pass ''RNG-VALIDATE'' (g_serial s')) \<and>
   (\<exists>s'. rng_main bare_platform (source_driver stuck_source) \<lparr>g_machine = \<lparr>phys = \<lambda>_. 0, hw = 7\<rparr>, g_serial = []\<rparr> = Some (Ok (), s') \<and>
      \<not> says_pass ''RNG-VALIDATE'' (g_serial s'))"
proof -
  let ?s = "\<lparr>g_machine = \<lparr>phys = \<lambda>_. 0, hw = 7\<rparr>, g_serial = []\<rparr> :: byte guest"
  have n: "\<not> says_pass ''RNG-VALIDATE'' (g_serial ?s)" by (simp add: says_pass_def)
  have "\<not> good_entropy (three_reads stuck_source m)" for m
    by (simp add: good_entropy_def three_reads_def stuck_source_def)
  then show ?thesis
    using rng_verdict[OF any_source.entropy_source_axioms[of stuck_source] n] rng_verdict[OF any_source.entropy_source_axioms[of counter_source] n] counter_good
    by auto
qed

end
