(* ===== verification/Guest_Console.thy ===== *)
theory Guest_Console
  imports Guest_Blk_Props
begin

text \<open>
  The console harness of \<open>guest/cmd/consolevalidate/main.go\<close>: it writes a token and reads until as
  many bytes have come back. The driver \<open>go-virtio/console\<close> is a parameter. The read loop has no
  bound of its own, so it is a partial function: \<open>None\<close> is a loop that never ends.

  The locale \<open>echo_peer\<close> is the contract of the device with a host peer that returns what it is
  sent, after what it was going to deliver already, in pieces of any positive size.
\<close>

section \<open>The driver\<close>

record console_info =
  con_Features :: u64
  con_RxSize :: u16
  con_TxSize :: u16

record 's console_driver =
  con_Open :: "'s Transport \<Rightarrow> ('s machine, console_info) io"
  con_Write :: "bytes \<Rightarrow> ('s machine, nat \<times> go_error option) io"
  con_Read :: "goint \<Rightarrow> ('s machine, bytes) io"

section \<open>The harness\<close>

definition token :: bytes where
  "token = map (\<lambda>c. of_nat (of_char c)) (''GO-VIRTIO-CONSOLE-RT-0123456789-abcdef'' @ [CHR 0x0A])"

definition rxPollBudget :: goint where "rxPollBudget = 4000000"

text \<open>The loop that collects the echo; the result is \<open>None\<close> when a read failed and the guest halted.\<close>

partial_function (option) collect :: "'s console_driver \<Rightarrow> bytes \<Rightarrow> 's guest \<Rightarrow> (bytes option res \<times> 's guest) option" where
  "collect c got s =
     (if length got < length token
      then case on_machine (con_Read c rxPollBudget) s of
        None \<Rightarrow> None
      | Some (Ok chunk, s') \<Rightarrow> collect c (got @ chunk) s'
      | Some (Err e, s') \<Rightarrow> andThen (say ''CONSOLE-VALIDATE: FAIL Read after %d/%d echoed bytes: %v''
            [ANum (int (length got)), ANum (int (length token)), AErr e]) (return_io None) s'
      | Some (Panic, s') \<Rightarrow> Some (Panic, s')
      else Some (Ok (Some got), s))"

definition console_judge :: "bytes \<Rightarrow> ('s guest, unit) io" where
  "console_judge got =
     (if length got < length token
      then andThen (say ''CONSOLE-VALIDATE: FAIL echoed length %d < token %d'' [ANum (int (length got)), ANum (int (length token))]) halt
      else case first_diff got token [0..<length token] of
        Some i \<Rightarrow> andThen (say ''CONSOLE-VALIDATE: FAIL echoed byte %d: got %#02x want %#02x''
            [ANum (int i), ANum (uint (got ! i)), ANum (uint (token ! i))]) halt
      | None \<Rightarrow> andThen (say ''CONSOLE-VALIDATE: rx read %d bytes, first %d byte-equal to tx token''
            [ANum (int (length got)), ANum (int (length token))])
          (andThen (say ''CONSOLE-VALIDATE: PASS console TX->host-echo->RX round-trip byte-equal (%d bytes)''
            [ANum (int (length token))]) halt))"

definition console_run :: "'s console_driver \<Rightarrow> u16 \<times> u16 \<Rightarrow> console_info \<Rightarrow> ('s guest, unit) io" where
  "console_run c ids info =
     andThen (say ''CONSOLE-VALIDATE: CONSOLE=%#04x:%#04x features=%#x rxq_size=%d txq_size=%d''
       [ANum (uint (fst ids)), ANum (uint (snd ids)), ANum (uint (con_Features info)), ANum (uint (con_RxSize info)), ANum (uint (con_TxSize info))])
     (bind_io (on_machine (con_Write c token)) (\<lambda>(n, err).
      case err of
        Some e \<Rightarrow> andThen (say ''CONSOLE-VALIDATE: FAIL Write(token): %v (wrote %d/%d)''
            [AErr e, ANum (int n), ANum (int (length token))]) halt
      | None \<Rightarrow>
      if n \<noteq> length token
      then andThen (say ''CONSOLE-VALIDATE: FAIL short write: wrote %d want %d'' [ANum (int n), ANum (int (length token))]) halt
      else andThen (say ''CONSOLE-VALIDATE: tx wrote %d bytes, awaiting host echo on rx'' [ANum (int n)])
        (bind_io (collect c []) (\<lambda>r. case r of None \<Rightarrow> halt | Some got \<Rightarrow> console_judge got))))"

definition console_main :: "'s platform \<Rightarrow> 's console_driver \<Rightarrow> ('s guest, unit) io" where
  "console_main pf c = bring_up pf (''CONSOLE-VALIDATE: FAIL no virtio-console-pci device found (modern DID %#04x)'', [ANum (uint (pf_DeviceID pf))])
     ''CONSOLE-VALIDATE: FAIL OpenVirtioConsole: %v'' (con_Open c) (console_run c)"

section \<open>An echoing peer\<close>

text \<open>\<open>pending m\<close> are the bytes the peer has yet to deliver. A write queues its bytes behind them, changed by
  \<open>mangle\<close>, which an honest peer leaves alone.\<close>

locale echo_peer =
  boots pf "con_Open c" info for pf :: "'s platform" and c :: "'s console_driver" and info :: console_info +
  fixes pending :: "'s machine \<Rightarrow> bytes" and mangle :: "bytes \<Rightarrow> bytes"
  assumes writes: "\<exists>m'. con_Write c p m = Some (Ok (length p, None), m') \<and> pending m' = pending m @ mangle p"
    and reads: "pending m \<noteq> [] \<Longrightarrow> \<exists>k m'. 0 < k \<and> k \<le> length (pending m) \<and>
      con_Read c n m = Some (Ok (take k (pending m)), m') \<and> pending m' = drop k (pending m)"
    and silent: "pending m = [] \<Longrightarrow> \<exists>e m'. con_Read c n m = Some (Err e, m')"

text \<open>The outcome of the loop, from the bytes collected and the bytes to come.\<close>

definition collected :: "bytes \<Rightarrow> bytes \<Rightarrow> bytes option \<Rightarrow> bool" where
  "collected got pend res \<longleftrightarrow> (if length token \<le> length got + length pend
     then \<exists>n\<le>length pend. length token \<le> length got + n \<and> res = Some (got @ take n pend) else res = None)"

lemma collected_step:
  assumes "collected (got @ take k p) (drop k p) res" "k \<le> length p"
  shows "collected got p res"
proof (cases "length token \<le> length got + length p")
  case True
  then obtain n where n: "n \<le> length (drop k p)" "length token \<le> length (got @ take k p) + n"
      "res = Some ((got @ take k p) @ take n (drop k p))"
    using assms by (auto simp: collected_def)
  have "take k p @ take n (drop k p) = take (k + n) p" by (simp add: take_add)
  with n assms(2) True show ?thesis by (auto simp: collected_def intro!: exI[of _ "k + n"])
next
  case False
  with assms show ?thesis by (simp add: collected_def)
qed

text \<open>The lines printed in between carry no verdict.\<close>

definition quiet :: "'s guest \<Rightarrow> 's guest \<Rightarrow> bool" where
  "quiet s s' \<longleftrightarrow> (says_pass ''CONSOLE-VALIDATE'' (g_serial s') \<longleftrightarrow> says_pass ''CONSOLE-VALIDATE'' (g_serial s))"

lemma first_diff_None: "first_diff a b is = None \<longleftrightarrow> (\<forall>i\<in>set is. a ! i = b ! i)"
  by (induction "is") simp_all

lemma console_judge_run:
  assumes "length token \<le> length got"
  shows "\<exists>s'. console_judge got s = Some (Ok (), s') \<and> (says_pass ''CONSOLE-VALIDATE'' (g_serial s') \<longleftrightarrow>
    says_pass ''CONSOLE-VALIDATE'' (g_serial s) \<or> take (length token) got = token)"
proof -
  have "first_diff got token [0..<length token] = None \<longleftrightarrow> take (length token) got = token"
    unfolding first_diff_None list_eq_iff_nth_eq using assms by (simp add: Ball_def)
  then show ?thesis
    using assms by (cases "first_diff got token [0..<length token]") (simp_all add: console_judge_def says_pass_def)
qed

lemma prefix_take_iff:
  assumes "length p \<le> length (take n x)"
  shows "prefix p x \<longleftrightarrow> take (length p) (take n x) = p"
proof -
  have "take (length p) (take n x) = take (length p) x" using assms by (simp add: min_absorb1)
  moreover have "prefix p x \<longleftrightarrow> take (length p) x = p"
    unfolding prefix_def by (metis append_eq_conv_conj)
  ultimately show ?thesis by simp
qed

context echo_peer
begin

lemma collect_run:
  "\<exists>res s'. collect c got s = Some (Ok res, s') \<and> collected got (pending (g_machine s)) res \<and> quiet s s'"
proof (induction "length (pending (g_machine s))" arbitrary: got s rule: less_induct)
  case less
  consider "length token \<le> length got" | "length got < length token" "pending (g_machine s) = []" |
      "length got < length token" "pending (g_machine s) \<noteq> []" by linarith
  then show ?case
  proof cases
    case 1
    then have "collect c got s = Some (Ok (Some got), s)" by (simp add: collect.simps)
    with 1 show ?thesis by (auto simp: collected_def quiet_def intro!: exI[of _ 0])
  next
    case 2
    then obtain e m' where "con_Read c rxPollBudget (g_machine s) = Some (Err e, m')" using silent by blast
    then have "collect c got s = Some (Ok None, s\<lparr>g_machine := m', g_serial := g_serial s @
        [(''CONSOLE-VALIDATE: FAIL Read after %d/%d echoed bytes: %v'', [ANum (int (length got)), ANum (int (length token)), AErr e])]\<rparr>)"
      using 2 by (simp add: collect.simps on_machine_def)
    with 2 show ?thesis by (simp add: collected_def quiet_def says_pass_def)
  next
    case 3
    then obtain k m' where k: "0 < k" "k \<le> length (pending (g_machine s))" "pending m' = drop k (pending (g_machine s))"
        "con_Read c rxPollBudget (g_machine s) = Some (Ok (take k (pending (g_machine s))), m')"
      using reads by blast
    let ?got = "got @ take k (pending (g_machine s))" and ?s = "s\<lparr>g_machine := m'\<rparr>"
    have "collect c got s = collect c ?got ?s" using 3 k(4) by (subst collect.simps) (simp add: on_machine_def)
    moreover have "length (pending (g_machine ?s)) < length (pending (g_machine s))" using k(1-3) by simp
    from less.hyps[OF this, of ?got] obtain res s' where "collect c ?got ?s = Some (Ok res, s')"
        "collected ?got (drop k (pending (g_machine s))) res" "quiet ?s s'"
      using k(3) by auto
    moreover have "quiet s s'" using \<open>quiet ?s s'\<close> by (simp add: quiet_def)
    moreover have "collected got (pending (g_machine s)) res"
      by (rule collected_step[OF \<open>collected ?got (drop k (pending (g_machine s))) res\<close> k(2)])
    ultimately show ?thesis by simp
  qed
qed

lemma console_main_verdict:
  "\<exists>s'. console_main pf c s = Some (Ok (), s') \<and> (says_pass ''CONSOLE-VALIDATE'' (g_serial s') \<longleftrightarrow>
     says_pass ''CONSOLE-VALIDATE'' (g_serial s) \<or>
     prefix token (pending (booted pf (con_Open c) (g_machine s)) @ mangle token))"
proof -
  let ?m = "booted pf (con_Open c) (g_machine s)"
  let ?echoed = "pending ?m @ mangle token"
  obtain ids where up: "console_main pf c s = console_run c ids info (s\<lparr>g_machine := ?m\<rparr>)"
    unfolding console_main_def using bring_up_run by blast
  obtain m1 where m1: "con_Write c token ?m = Some (Ok (length token, None), m1)" "pending m1 = ?echoed"
    using writes by blast
  let ?s = "s\<lparr>g_machine := m1, g_serial := g_serial s @ [(''CONSOLE-VALIDATE: CONSOLE=%#04x:%#04x features=%#x rxq_size=%d txq_size=%d'',
      [ANum (uint (fst ids)), ANum (uint (snd ids)), ANum (uint (con_Features info)), ANum (uint (con_RxSize info)), ANum (uint (con_TxSize info))]),
      (''CONSOLE-VALIDATE: tx wrote %d bytes, awaiting host echo on rx'', [ANum (int (length token))])]\<rparr>"
  have run: "console_run c ids info (s\<lparr>g_machine := ?m\<rparr>) = bind_io (collect c []) (\<lambda>r. case r of None \<Rightarrow> halt | Some got \<Rightarrow> console_judge got) ?s"
    using m1(1) by (simp add: console_run_def on_machine_def)
  have q: "says_pass ''CONSOLE-VALIDATE'' (g_serial ?s) \<longleftrightarrow> says_pass ''CONSOLE-VALIDATE'' (g_serial s)"
    by (simp add: says_pass_def)
  obtain res s' where r: "collect c [] ?s = Some (Ok res, s')" "collected [] ?echoed res" "quiet ?s s'"
    using collect_run[of "[]" ?s] m1(2) by auto
  show ?thesis
  proof (cases res)
    case None
    then have "\<not> prefix token ?echoed" using r(2) prefix_length_le[of token ?echoed] by (auto simp: collected_def split: if_splits)
    with None r(1,3) q show ?thesis unfolding up run by (simp add: quiet_def)
  next
    case (Some got)
    then obtain n where n: "got = take n ?echoed" "length token \<le> length got"
      using r(2) by (auto simp: collected_def split: if_splits)
    have "prefix token ?echoed \<longleftrightarrow> take (length token) got = token"
      using prefix_take_iff[of token n ?echoed] n by simp
    with Some r(1,3) q n(2) show ?thesis
      unfolding up run using console_judge_run[of got s'] by (simp add: quiet_def)
  qed
qed

end

text \<open>C36. Against any device whose peer sends the token back, changed by \<open>mangle\<close>, behind whatever it had
  yet to deliver, and in pieces of any positive size, the harness reaches its verdict, and it is \<open>PASS\<close>
  exactly when what comes back begins with the token: a truncated or changed echo is rejected, so is
  one behind stale bytes, and the read loop ends in every case.\<close>

theorem console_verdict:
  assumes "echo_peer pf c info pending mangle" "\<not> says_pass ''CONSOLE-VALIDATE'' (g_serial s)"
  shows "\<exists>s'. console_main pf c s = Some (Ok (), s') \<and> (says_pass ''CONSOLE-VALIDATE'' (g_serial s') \<longleftrightarrow>
    prefix token (pending (booted pf (con_Open c) (g_machine s)) @ mangle token))"
  using echo_peer.console_main_verdict[OF assms(1), of s] assms(2) by simp

text \<open>A peer that delivers three bytes at a time.\<close>

definition echo_driver :: "(bytes \<Rightarrow> bytes) \<Rightarrow> console_info \<Rightarrow> bytes console_driver" where
  "echo_driver mangle info = \<lparr>con_Open = \<lambda>t m. Some (Ok info, m),
     con_Write = \<lambda>p m. Some (Ok (length p, None), m\<lparr>hw := hw m @ mangle p\<rparr>),
     con_Read = \<lambda>n m. Some (if hw m = [] then Err EOF else Ok (take 3 (hw m)), m\<lparr>hw := drop 3 (hw m)\<rparr>)\<rparr>"

interpretation three_bytes: echo_peer bare_platform "echo_driver mangle info" info hw mangle
proof
  fix m :: "bytes machine" and n
  assume "hw m \<noteq> []"
  then show "\<exists>k m'. 0 < k \<and> k \<le> length (hw m) \<and> con_Read (echo_driver mangle info) n m = Some (Ok (take k (hw m)), m') \<and>
      hw m' = drop k (hw m)"
    by (intro exI[of _ "min 3 (length (hw m))"] exI[of _ "m\<lparr>hw := drop 3 (hw m)\<rparr>"]) (auto simp: echo_driver_def min_def)
qed (auto simp: bare_platform_def echo_driver_def)

definition echo_info :: console_info where
  "echo_info = \<lparr>con_Features = 0, con_RxSize = 8, con_TxSize = 8\<rparr>"

definition echo_guest :: "bytes \<Rightarrow> bytes guest" where
  "echo_guest stale = \<lparr>g_machine = \<lparr>phys = \<lambda>_. 0, hw = stale\<rparr>, g_serial = []\<rparr>"

theorem console_verdict_witness:
  "(\<exists>s'. console_main bare_platform (echo_driver id echo_info) (echo_guest []) = Some (Ok (), s') \<and> says_pass ''CONSOLE-VALIDATE'' (g_serial s')) \<and>
   (\<exists>s'. console_main bare_platform (echo_driver butlast echo_info) (echo_guest []) = Some (Ok (), s') \<and> \<not> says_pass ''CONSOLE-VALIDATE'' (g_serial s')) \<and>
   (\<exists>s'. console_main bare_platform (echo_driver id echo_info) (echo_guest [0]) = Some (Ok (), s') \<and> \<not> says_pass ''CONSOLE-VALIDATE'' (g_serial s'))"
proof -
  have n: "\<not> says_pass ''CONSOLE-VALIDATE'' (g_serial (echo_guest x))" for x by (simp add: says_pass_def echo_guest_def)
  have b: "hw (booted bare_platform (con_Open (echo_driver f echo_info)) (g_machine (echo_guest x))) = x" for f x
    by (subst bare_booted[where info = echo_info]) (simp_all add: echo_driver_def echo_guest_def)
  have "\<not> prefix token (butlast token)" using prefix_length_le[of token "butlast token"] by (auto simp: token_def)
  moreover have "\<not> prefix token (0 # token)" by (simp add: token_def)
  ultimately show ?thesis
    using console_verdict[OF three_bytes.echo_peer_axioms n, of id echo_info "[]", unfolded b]
      console_verdict[OF three_bytes.echo_peer_axioms n, of butlast echo_info "[]", unfolded b]
      console_verdict[OF three_bytes.echo_peer_axioms n, of id echo_info "[0]", unfolded b] by auto
qed

end
