(* ===== verification/Guest_Net.thy ===== *)
theory Guest_Net
  imports Guest_Base
begin

text \<open>
  The network harness of \<open>guest/cmd/netvalidate/main.go\<close>. The driver \<open>go-virtio/net\<close> is a
  parameter.
\<close>

section \<open>The driver\<close>

record net_info =
  net_MAC :: bytes
  net_MACString :: string
  net_Features :: u64
  net_RxSize :: u16
  net_TxSize :: u16

record 's net_driver =
  net_Open :: "'s Transport \<Rightarrow> ('s machine, net_info) io"
  net_TransmitFrame :: "bytes \<Rightarrow> ('s machine, unit) io"
  net_ReceiveFrame :: "goint \<Rightarrow> ('s machine, bytes) io"

section \<open>The harness\<close>

definition magicEtherType :: u16 where "magicEtherType = 0x88B5"
definition magicPayload :: bytes where "magicPayload = to_bytes ''GO-VIRTIO-NET-VALIDATE-0123456789''"
definition dstMAC :: bytes where "dstMAC = [0x02, 0x00, 0x00, 0x00, 0x00, 0x01]"
definition net_rxPollBudget :: goint where "net_rxPollBudget = 4000000"

text \<open>\<open>copy(f[lo:hi], src)\<close> copies as many bytes as fit.\<close>

definition copy_into :: "nat \<Rightarrow> nat \<Rightarrow> bytes \<Rightarrow> bytes \<Rightarrow> bytes" where
  "copy_into lo hi src f = (let n = min (hi - lo) (length src) in take lo f @ take n src @ drop (lo + n) f)"

definition buildFrame :: "bytes \<Rightarrow> bytes" where
  "buildFrame src = (
     let minLen = 60; body = 14 + length magicPayload; n = (if body < minLen then minLen else body);
         f = replicate n 0;
         f = copy_into 0 6 dstMAC f;
         f = copy_into 6 12 src f;
         f = f[12 := ucast (drop_bit 8 magicEtherType)];
         f = f[13 := ucast (magicEtherType AND 0xff)]
     in copy_into 14 (length f) magicPayload f)"

definition net_report :: "bytes \<Rightarrow> ('s guest, unit) io" where
  "net_report rx =
     andThen (if 14 \<le> length rx
       then say ''NET-VALIDATE: rx received %d-byte frame ethertype=%#04x''
         [ANum (int (length rx)), ANum (uint (push_bit 8 (ucast (rx ! 12)) OR ucast (rx ! 13) :: u16))]
       else say ''NET-VALIDATE: rx received %d-byte frame (shorter than an Ethernet header)'' [ANum (int (length rx))])
     (andThen (say ''NET-VALIDATE: PASS tx frame handed to device AND rx frame received from host peer (both directions)'' []) halt)"

definition net_run :: "'s net_driver \<Rightarrow> u16 \<times> u16 \<Rightarrow> net_info \<Rightarrow> ('s guest, unit) io" where
  "net_run v ids info =
     andThen (say ''NET-VALIDATE: NET=%#04x:%#04x mac=%s features=%#x rxq_size=%d txq_size=%d''
       [ANum (uint (fst ids)), ANum (uint (snd ids)), AStr (net_MACString info), ANum (uint (net_Features info)),
        ANum (uint (net_RxSize info)), ANum (uint (net_TxSize info))])
     (let frame = buildFrame (net_MAC info) in
      check_io (on_machine (net_TransmitFrame v frame)) (\<lambda>e. andThen (say ''NET-VALIDATE: FAIL TransmitFrame: %v'' [AErr e]) halt) (\<lambda>_.
      andThen (say ''NET-VALIDATE: tx handed %d-byte frame to device (ethertype=%#04x payload=%q)''
        [ANum (int (length frame)), ANum (uint magicEtherType), ABytes magicPayload])
      (andThen (say ''NET-VALIDATE: TX-DONE device returned the tx descriptor; host peer should observe the frame'' [])
      (check_io (on_machine (net_ReceiveFrame v net_rxPollBudget))
        (\<lambda>e. andThen (say ''NET-VALIDATE: RX-WALL ReceiveFrame: %v (TX path is the required proof; RX not confirmed in-guest)'' [AErr e])
          (andThen (say ''NET-VALIDATE: PASS tx frame handed to a real virtio-net-pci device (RX best-effort, see RX-WALL)'' []) halt))
        net_report))))"

definition net_main :: "'s platform \<Rightarrow> 's net_driver \<Rightarrow> ('s guest, unit) io" where
  "net_main pf v = bring_up pf (''NET-VALIDATE: FAIL no virtio-net-pci device found (modern DID %#04x)'', [ANum (uint (pf_DeviceID pf))])
     ''NET-VALIDATE: FAIL OpenVirtioNet: %v'' (net_Open v) (net_run v)"

section \<open>The frame\<close>

definition test_frame :: "bytes \<Rightarrow> bytes" where
  "test_frame src = dstMAC @ src @ [0x88, 0xB5] @ magicPayload @ replicate 13 0"

lemma copy_into_middle:
  "length f1 = lo \<Longrightarrow> length f2 = length src \<Longrightarrow> lo + length src \<le> hi \<Longrightarrow> copy_into lo hi src (f1 @ f2 @ f3) = f1 @ src @ f3"
  by (simp add: copy_into_def Let_def min.absorb2)

lemma buildFrame_layout:
  assumes "length src = 6"
  shows "buildFrame src = test_frame src"
proof -
  have p: "length magicPayload = 33" by (simp add: magicPayload_def to_bytes_def)
  have d: "length dstMAC = 6" by (simp add: dstMAC_def)
  have z: "replicate 60 (0 :: byte) = replicate 6 0 @ replicate 6 0 @ replicate 2 0 @ replicate 33 0 @ replicate 13 0"
    by (simp flip: replicate_add)
  have c1: "copy_into 0 6 dstMAC (replicate 60 0) = dstMAC @ replicate 6 0 @ replicate 2 0 @ replicate 33 0 @ replicate 13 0"
    unfolding z using copy_into_middle[of "[]" 0 "replicate 6 0" dstMAC 6] d by simp
  have c2: "copy_into 6 12 src (dstMAC @ replicate 6 0 @ replicate 2 0 @ replicate 33 0 @ replicate 13 0) =
      dstMAC @ src @ replicate 2 0 @ replicate 33 0 @ replicate 13 0"
    using assms d by (intro copy_into_middle) simp_all
  have e: "ucast (drop_bit 8 magicEtherType) = (0x88 :: byte)" "ucast (magicEtherType AND 0xff) = (0xB5 :: byte)"
    by (simp_all add: magicEtherType_def)
  have c3: "(dstMAC @ src @ replicate 2 0 @ replicate 33 0 @ replicate 13 0)[12 := 0x88, 13 := 0xB5] =
      (dstMAC @ src @ [0x88, 0xB5]) @ replicate 33 0 @ replicate 13 0"
    using assms d by (simp add: list_update_append numeral_2_eq_2)
  have c4: "copy_into 14 60 magicPayload ((dstMAC @ src @ [0x88, 0xB5]) @ replicate 33 0 @ replicate 13 0) =
      (dstMAC @ src @ [0x88, 0xB5]) @ magicPayload @ replicate 13 0"
    using assms d p by (intro copy_into_middle) simp_all
  have l: "length (copy_into 6 12 src (copy_into 0 6 dstMAC (replicate 60 0))) = 60" unfolding c1 c2 using assms d by simp
  show ?thesis
    using c4 assms d by (simp add: buildFrame_def Let_def p l e c1 c2 c3 test_frame_def)
qed

section \<open>Network cards\<close>

text \<open>\<open>wire m\<close> are the frames that left the card; \<open>accepts\<close> says which frames it takes. What comes back
  is arbitrary.\<close>

locale network_card = boots pf "net_Open v" info for pf :: "'s platform" and v :: "'s net_driver" and info :: net_info +
  fixes wire :: "'s machine \<Rightarrow> bytes list" and accepts :: "bytes \<Rightarrow> bool"
  assumes mac: "length (net_MAC info) = 6"
    and sends: "accepts f \<Longrightarrow> \<exists>m'. net_TransmitFrame v f m = Some (Ok (), m') \<and> wire m' = wire m @ [f]"
    and refuses: "\<not> accepts f \<Longrightarrow> \<exists>e m'. net_TransmitFrame v f m = Some (Err e, m') \<and> wire m' = wire m"
    and receives: "\<exists>x m'. net_ReceiveFrame v n m = Some (x, m') \<and> x \<noteq> Panic \<and> wire m' = wire m"
begin

lemma net_main_verdict:
  "\<exists>s'. net_main pf v s = Some (Ok (), s') \<and>
     (says_pass ''NET-VALIDATE'' (g_serial s') \<longleftrightarrow> says_pass ''NET-VALIDATE'' (g_serial s) \<or> accepts (test_frame (net_MAC info))) \<and>
     wire (g_machine s') = wire (booted pf (net_Open v) (g_machine s)) @
       (if accepts (test_frame (net_MAC info)) then [test_frame (net_MAC info)] else [])"
proof -
  let ?m = "booted pf (net_Open v) (g_machine s)" and ?f = "test_frame (net_MAC info)"
  obtain ids where up: "net_main pf v s = net_run v ids info (s\<lparr>g_machine := ?m\<rparr>)"
    unfolding net_main_def using bring_up_run by blast
  show ?thesis
  proof (cases "accepts ?f")
    case True
    then obtain m1 where t: "net_TransmitFrame v ?f ?m = Some (Ok (), m1)" "wire m1 = wire ?m @ [?f]" using sends by blast
    obtain x m2 where r: "net_ReceiveFrame v net_rxPollBudget m1 = Some (x, m2)" "x \<noteq> Panic" "wire m2 = wire m1"
      using receives by blast
    then show ?thesis
      using t True unfolding up
      by (cases x) (simp_all add: net_run_def buildFrame_layout[OF mac] on_machine_def Let_def net_report_def says_pass_def)
  next
    case False
    then obtain e m1 where t: "net_TransmitFrame v ?f ?m = Some (Err e, m1)" "wire m1 = wire ?m" using refuses by blast
    then show ?thesis
      using False unfolding up by (simp add: net_run_def buildFrame_layout[OF mac] on_machine_def Let_def says_pass_def)
  qed
qed

end

text \<open>C37. Against any card, whatever comes back, the harness reaches its verdict, and it is \<open>PASS\<close>
  exactly when the card takes the test frame; then exactly this frame has left the card:
  destination, the card's own address, the EtherType \<open>0x88B5\<close>, the token and padding to 60 bytes.\<close>

theorem net_verdict:
  assumes "network_card pf v info wire accepts" "\<not> says_pass ''NET-VALIDATE'' (g_serial s)"
  shows "\<exists>s'. net_main pf v s = Some (Ok (), s') \<and>
    (says_pass ''NET-VALIDATE'' (g_serial s') \<longleftrightarrow> accepts (test_frame (net_MAC info))) \<and>
    wire (g_machine s') = wire (booted pf (net_Open v) (g_machine s)) @
      (if accepts (test_frame (net_MAC info)) then [test_frame (net_MAC info)] else []) \<and>
    length (test_frame (net_MAC info)) = 60"
proof -
  have "length (test_frame (net_MAC info)) = 60"
    using network_card.mac[OF assms(1)] by (simp add: test_frame_def dstMAC_def magicPayload_def to_bytes_def)
  then show ?thesis using network_card.net_main_verdict[OF assms(1), of s] assms(2) by simp
qed

text \<open>A card that takes frames of at least \<open>n\<close> bytes and receives nothing.\<close>

definition card_driver :: "nat \<Rightarrow> net_info \<Rightarrow> (bytes list) net_driver" where
  "card_driver n info = \<lparr>net_Open = \<lambda>t m. Some (Ok info, m),
     net_TransmitFrame = \<lambda>f m. if n \<le> length f then Some (Ok (), m\<lparr>hw := hw m @ [f]\<rparr>) else Some (Err EOF, m),
     net_ReceiveFrame = \<lambda>k m. Some (Err EOF, m)\<rparr>"

definition card_info :: net_info where
  "card_info = \<lparr>net_MAC = [0x52, 0x54, 0, 0x12, 0x34, 0x56], net_MACString = ''52:54:00:12:34:56'', net_Features = 0, net_RxSize = 8, net_TxSize = 8\<rparr>"

interpretation card: network_card bare_platform "card_driver n card_info" card_info hw "\<lambda>f. n \<le> length f"
  by unfold_locales (auto simp: card_driver_def card_info_def)

theorem net_verdict_witness:
  "(\<exists>s'. net_main bare_platform (card_driver 60 card_info) \<lparr>g_machine = \<lparr>phys = \<lambda>_. 0, hw = []\<rparr>, g_serial = []\<rparr> = Some (Ok (), s') \<and>
      says_pass ''NET-VALIDATE'' (g_serial s')) \<and>
   (\<exists>s'. net_main bare_platform (card_driver 64 card_info) \<lparr>g_machine = \<lparr>phys = \<lambda>_. 0, hw = []\<rparr>, g_serial = []\<rparr> = Some (Ok (), s') \<and>
      \<not> says_pass ''NET-VALIDATE'' (g_serial s'))"
proof -
  let ?s = "\<lparr>g_machine = \<lparr>phys = \<lambda>_. 0, hw = []\<rparr>, g_serial = []\<rparr> :: (bytes list) guest"
  have n: "\<not> says_pass ''NET-VALIDATE'' (g_serial ?s)" by (simp add: says_pass_def)
  show ?thesis
    using net_verdict[OF card.network_card_axioms[of 60] n] net_verdict[OF card.network_card_axioms[of 64] n] by auto
qed

end
