(* ===== verification/Guest_Vsock.thy ===== *)
theory Guest_Vsock
  imports Guest_Base
begin

text \<open>
  The socket harness of \<open>guest/cmd/vsockvalidate/main.go\<close>. The driver \<open>go-virtio/vsock\<close> with its
  constants is a parameter.
\<close>

section \<open>The driver\<close>

record Packet =
  SrcCID :: u64
  DstCID :: u64
  SrcPort :: u32
  DstPort :: u32
  pk_Type :: u16
  pk_Op :: u16
  pk_Data :: bytes

record vsock_info =
  GuestCID :: u64
  vs_Features :: u64

record 's vsock_driver =
  vs_CIDHost :: u64
  vs_TypeStream :: u16
  vs_OpRequest :: u16
  vs_Open :: "'s Transport \<Rightarrow> ('s machine, vsock_info) io"
  vs_SendPacket :: "Packet \<Rightarrow> ('s machine, unit) io"
  vs_ReceivePacket :: "goint \<Rightarrow> ('s machine, Packet) io"

section \<open>The harness\<close>

definition hostPort :: u32 where "hostPort = 9999"
definition guestPort :: u32 where "guestPort = 1024"
definition rxPoll :: goint where "rxPoll = 2000000"

definition vsock_request :: "'s vsock_driver \<Rightarrow> vsock_info \<Rightarrow> Packet" where
  "vsock_request v info = \<lparr>SrcCID = GuestCID info, DstCID = vs_CIDHost v, SrcPort = guestPort, DstPort = hostPort,
     pk_Type = vs_TypeStream v, pk_Op = vs_OpRequest v, pk_Data = []\<rparr>"

definition vsock_run :: "'s vsock_driver \<Rightarrow> u16 \<times> u16 \<Rightarrow> vsock_info \<Rightarrow> ('s guest, unit) io" where
  "vsock_run v ids info =
     andThen (say ''VSOCK-VALIDATE: VSOCK=%#04x:%#04x guest_cid=%d features=%#x''
       [ANum (uint (fst ids)), ANum (uint (snd ids)), ANum (uint (GuestCID info)), ANum (uint (vs_Features info))])
     (if GuestCID info < 3
      then andThen (say ''VSOCK-VALIDATE: FAIL guest_cid=%d is reserved (no real CID assigned)'' [ANum (uint (GuestCID info))]) halt
      else let req = vsock_request v info in
      check_io (on_machine (vs_SendPacket v req)) (\<lambda>e. andThen (say ''VSOCK-VALIDATE: FAIL SendPacket(OpRequest): %v'' [AErr e]) halt) (\<lambda>_.
      andThen (say ''VSOCK-VALIDATE: sent OpRequest src=%d:%d dst=%d:%d (tx descriptor consumed)''
        [ANum (uint (SrcCID req)), ANum (uint (SrcPort req)), ANum (uint (DstCID req)), ANum (uint (DstPort req))])
      (check_io (on_machine (vs_ReceivePacket v rxPoll)) (\<lambda>e. andThen (say ''VSOCK-VALIDATE: FAIL ReceivePacket: %v'' [AErr e]) halt) (\<lambda>resp.
      andThen (say ''VSOCK-VALIDATE: recv op=%d src_cid=%d dst_cid=%d src_port=%d dst_port=%d len=%d''
        [ANum (uint (pk_Op resp)), ANum (uint (SrcCID resp)), ANum (uint (DstCID resp)), ANum (uint (SrcPort resp)),
         ANum (uint (DstPort resp)), ANum (int (length (pk_Data resp)))])
      (if DstCID resp \<noteq> GuestCID info
       then andThen (say ''VSOCK-VALIDATE: FAIL reply dst_cid=%d is not our guest_cid=%d (did not round-trip to us)''
              [ANum (uint (DstCID resp)), ANum (uint (GuestCID info))]) halt
       else andThen (say ''VSOCK-VALIDATE: PASS packet round-tripped: sent OpRequest, received reply addressed to guest_cid=%d''
              [ANum (uint (GuestCID info))]) halt)))))"

definition vsock_main :: "'s platform \<Rightarrow> 's vsock_driver \<Rightarrow> ('s guest, unit) io" where
  "vsock_main pf v = bring_up pf (''VSOCK-VALIDATE: FAIL no virtio-vsock-pci device found (host lacks vhost_vsock?)'', [])
     ''VSOCK-VALIDATE: FAIL OpenVirtioVsock: %v'' (vs_Open v) (vsock_run v)"

section \<open>Hosts\<close>

text \<open>\<open>pending m\<close> are the packets waiting for the guest; a packet that can be sent makes the host's
  answer, a list of packets, wait behind them.\<close>

locale socket_host = boots pf "vs_Open v" info for pf :: "'s platform" and v :: "'s vsock_driver" and info :: vsock_info +
  fixes pending :: "'s machine \<Rightarrow> Packet list" and sendable :: "Packet \<Rightarrow> bool" and answer :: "Packet \<Rightarrow> Packet list"
  assumes sends: "sendable p \<Longrightarrow> \<exists>m'. vs_SendPacket v p m = Some (Ok (), m') \<and> pending m' = pending m @ answer p"
    and refuses: "\<not> sendable p \<Longrightarrow> \<exists>e m'. vs_SendPacket v p m = Some (Err e, m')"
    and receives: "pending m = q # qs \<Longrightarrow> \<exists>m'. vs_ReceivePacket v n m = Some (Ok q, m') \<and> pending m' = qs"
    and silent: "pending m = [] \<Longrightarrow> \<exists>e m'. vs_ReceivePacket v n m = Some (Err e, m')"

text \<open>What \<open>PASS\<close> asks of the host, with the packets that waited before the request.\<close>

definition answered :: "'s vsock_driver \<Rightarrow> vsock_info \<Rightarrow> (Packet \<Rightarrow> bool) \<Rightarrow> (Packet \<Rightarrow> Packet list) \<Rightarrow> Packet list \<Rightarrow> bool" where
  "answered v info sendable answer waiting \<longleftrightarrow> 3 \<le> GuestCID info \<and> sendable (vsock_request v info) \<and>
     (case waiting @ answer (vsock_request v info) of q # _ \<Rightarrow> DstCID q = GuestCID info | [] \<Rightarrow> False)"

context socket_host
begin

lemma vsock_exchange:
  assumes "3 \<le> GuestCID info" "sendable (vsock_request v info)"
  shows "\<exists>s'. vsock_run v ids info s = Some (Ok (), s') \<and> (says_pass ''VSOCK-VALIDATE'' (g_serial s') \<longleftrightarrow>
    says_pass ''VSOCK-VALIDATE'' (g_serial s) \<or> answered v info sendable answer (pending (g_machine s)))"
proof -
  let ?p = "vsock_request v info"
  have c: "\<not> GuestCID info < 3" using assms(1) by simp
  obtain m1 where m1: "vs_SendPacket v ?p (g_machine s) = Some (Ok (), m1)" "pending m1 = pending (g_machine s) @ answer ?p"
    using sends[OF assms(2)] by blast
  show ?thesis
  proof (cases "pending (g_machine s) @ answer ?p")
    case Nil
    then obtain e m2 where "vs_ReceivePacket v rxPoll m1 = Some (Err e, m2)" using silent[of m1 rxPoll] m1(2) by auto
    with m1(1) c Nil show ?thesis by (simp add: vsock_run_def on_machine_def Let_def says_pass_def answered_def)
  next
    case (Cons q qs)
    then obtain m2 where "vs_ReceivePacket v rxPoll m1 = Some (Ok q, m2)" using receives[of m1 q qs rxPoll] m1(2) by auto
    with m1(1) c Cons assms show ?thesis
      by (cases "DstCID q = GuestCID info") (simp_all add: vsock_run_def on_machine_def Let_def says_pass_def answered_def)
  qed
qed

lemma vsock_main_verdict:
  "\<exists>s'. vsock_main pf v s = Some (Ok (), s') \<and> (says_pass ''VSOCK-VALIDATE'' (g_serial s') \<longleftrightarrow>
     says_pass ''VSOCK-VALIDATE'' (g_serial s) \<or>
     answered v info sendable answer (pending (booted pf (vs_Open v) (g_machine s))))"
proof -
  let ?m = "booted pf (vs_Open v) (g_machine s)"
  obtain ids where up: "vsock_main pf v s = vsock_run v ids info (s\<lparr>g_machine := ?m\<rparr>)"
    unfolding vsock_main_def using bring_up_run by blast
  consider "GuestCID info < 3" | "3 \<le> GuestCID info" "\<not> sendable (vsock_request v info)" |
      "3 \<le> GuestCID info" "sendable (vsock_request v info)" by fastforce
  then show ?thesis
  proof cases
    case 1
    then show ?thesis unfolding up by (simp add: vsock_run_def says_pass_def answered_def flip: not_less)
  next
    case 2
    then obtain e m1 where "vs_SendPacket v (vsock_request v info) ?m = Some (Err e, m1)" using refuses by blast
    moreover have "\<not> GuestCID info < 3" using 2(1) by simp
    ultimately show ?thesis using 2(2) unfolding up by (simp add: vsock_run_def on_machine_def Let_def says_pass_def answered_def)
  next
    case 3
    then show ?thesis using vsock_exchange[of ids "s\<lparr>g_machine := ?m\<rparr>"] unfolding up by simp
  qed
qed

end

text \<open>C38. Against any host the harness reaches its verdict, and it is \<open>PASS\<close> exactly when the guest has
  an unreserved id, the connection request can be sent, and the first packet that waits for the guest
  then, stale ones included, is addressed to that id. Nothing else of it counts: a host that resets the
  connection passes as well as one that accepts it.\<close>

theorem vsock_verdict:
  assumes "socket_host pf v info pending sendable answer" "\<not> says_pass ''VSOCK-VALIDATE'' (g_serial s)"
  shows "\<exists>s'. vsock_main pf v s = Some (Ok (), s') \<and> (says_pass ''VSOCK-VALIDATE'' (g_serial s') \<longleftrightarrow>
    answered v info sendable answer (pending (booted pf (vs_Open v) (g_machine s))))"
  using socket_host.vsock_main_verdict[OF assms(1), of s] assms(2) by simp

text \<open>A host that answers every packet with a reset: operation 3, the addresses exchanged.\<close>

definition reset :: "Packet \<Rightarrow> Packet list" where
  "reset p = [\<lparr>SrcCID = DstCID p, DstCID = SrcCID p, SrcPort = DstPort p, DstPort = SrcPort p, pk_Type = pk_Type p, pk_Op = 3, pk_Data = []\<rparr>]"

definition host_driver :: "(Packet \<Rightarrow> Packet list) \<Rightarrow> vsock_info \<Rightarrow> (Packet list) vsock_driver" where
  "host_driver ans info = \<lparr>vs_CIDHost = 2, vs_TypeStream = 1, vs_OpRequest = 1, vs_Open = \<lambda>t m. Some (Ok info, m),
     vs_SendPacket = \<lambda>p m. Some (Ok (), m\<lparr>hw := hw m @ ans p\<rparr>),
     vs_ReceivePacket = \<lambda>n m. Some (case hw m of q # _ \<Rightarrow> Ok q | [] \<Rightarrow> Err EOF, m\<lparr>hw := tl (hw m)\<rparr>)\<rparr>"

interpretation host: socket_host bare_platform "host_driver ans info" info hw "\<lambda>_. True" ans
  by unfold_locales (auto simp: host_driver_def)

definition host_info :: vsock_info where "host_info = \<lparr>GuestCID = 3, vs_Features = 0\<rparr>"

definition idle_guest :: "(Packet list) guest" where
  "idle_guest = \<lparr>g_machine = \<lparr>phys = \<lambda>_. 0, hw = []\<rparr>, g_serial = []\<rparr>"

theorem vsock_verdict_witness:
  "(\<exists>s'. vsock_main bare_platform (host_driver reset host_info) idle_guest = Some (Ok (), s') \<and> says_pass ''VSOCK-VALIDATE'' (g_serial s')) \<and>
   (\<exists>s'. vsock_main bare_platform (host_driver (\<lambda>p. [p]) host_info) idle_guest = Some (Ok (), s') \<and> \<not> says_pass ''VSOCK-VALIDATE'' (g_serial s'))"
proof -
  have n: "\<not> says_pass ''VSOCK-VALIDATE'' (g_serial idle_guest)" by (simp add: says_pass_def idle_guest_def)
  have b: "hw (booted bare_platform (vs_Open (host_driver f host_info)) (g_machine idle_guest)) = []" for f
    by (subst bare_booted[where info = host_info]) (simp_all add: host_driver_def idle_guest_def)
  have "answered (host_driver reset host_info) host_info (\<lambda>_. True) reset []"
    "\<not> answered (host_driver (\<lambda>p. [p]) host_info) host_info (\<lambda>_. True) (\<lambda>p. [p]) []"
    by (simp_all add: answered_def reset_def vsock_request_def host_driver_def host_info_def)
  then show ?thesis
    using vsock_verdict[OF host.socket_host_axioms[of reset host_info] n]
      vsock_verdict[OF host.socket_host_axioms[of "\<lambda>p. [p]" host_info] n] unfolding b by auto
qed

end
