(* ===== verification/Guest_Balloon.thy ===== *)
theory Guest_Balloon
  imports Guest_Base
begin

text \<open>
  The balloon harness of \<open>guest/cmd/balloonvalidate/main.go\<close>. The driver \<open>go-virtio/balloon\<close> is a
  parameter; the field \<open>Actual\<close> of its handle, which its requests change, is read from the machine.
\<close>

section \<open>The driver\<close>

record balloon_info =
  bl_NumPages :: u32
  bl_Features :: u64

record 's balloon_driver =
  bl_Open :: "'s Transport \<Rightarrow> ('s machine, balloon_info) io"
  bl_Actual :: "'s machine \<Rightarrow> u32"
  bl_HasQueues :: "'s machine \<Rightarrow> bool \<times> bool"
  bl_Inflate :: "nat \<Rightarrow> ('s machine, unit) io"
  bl_Deflate :: "nat \<Rightarrow> ('s machine, unit) io"

section \<open>The harness\<close>

definition inflatePages :: nat where "inflatePages = 64"
definition inflatePages2 :: nat where "inflatePages2 = 300"

text \<open>One request with the check of \<open>Actual\<close> after it.\<close>

definition balloon_step :: "'s balloon_driver \<Rightarrow> ('s machine, unit) io \<Rightarrow> serial_line \<Rightarrow> string \<Rightarrow> nat \<Rightarrow> farg list \<Rightarrow>
    ('s guest, unit) io \<Rightarrow> ('s guest, unit) io" where
  "balloon_step b request failLine actualFmt want wantArgs k =
     check_io (on_machine request) (\<lambda>e. andThen (say (fst failLine) (snd failLine @ [AErr e])) halt) (\<lambda>_.
     see (bl_Actual b) (\<lambda>actual.
     if actual \<noteq> of_nat want then andThen (say actualFmt (ANum (uint actual) # wantArgs)) halt else k))"

definition balloon_rounds :: "'s balloon_driver \<Rightarrow> ('s guest, unit) io" where
  "balloon_rounds b =
     balloon_step b (bl_Inflate b inflatePages) (''BALLOON-VALIDATE: FAIL Inflate(%d): %v'', [ANum (int inflatePages)])
       ''BALLOON-VALIDATE: FAIL after inflate Actual=%d want %d'' inflatePages [ANum (int inflatePages)]
     (see (bl_Actual b) (\<lambda>actual.
      andThen (say ''BALLOON-VALIDATE: inflate1 ok pages=%d actual=%d (device consumed inflateq buffer)'' [ANum (int inflatePages), ANum (uint actual)])
     (balloon_step b (bl_Deflate b inflatePages) (''BALLOON-VALIDATE: FAIL Deflate(%d): %v'', [ANum (int inflatePages)])
       ''BALLOON-VALIDATE: FAIL after deflate Actual=%d want 0'' 0 []
     (see (bl_Actual b) (\<lambda>actual.
      andThen (say ''BALLOON-VALIDATE: deflate ok pages=%d actual=%d (device consumed deflateq buffer)'' [ANum (int inflatePages), ANum (uint actual)])
     (balloon_step b (bl_Inflate b inflatePages2) (''BALLOON-VALIDATE: FAIL Inflate(%d, multi-buffer): %v'', [ANum (int inflatePages2)])
       ''BALLOON-VALIDATE: FAIL after inflate2 Actual=%d want %d'' inflatePages2 [ANum (int inflatePages2)]
     (see (bl_Actual b) (\<lambda>actual.
      andThen (say ''BALLOON-VALIDATE: inflate2 ok pages=%d actual=%d (multi-buffer split consumed)'' [ANum (int inflatePages2), ANum (uint actual)])
     (balloon_step b (bl_Deflate b inflatePages2) (''BALLOON-VALIDATE: FAIL Deflate(%d) round 2: %v'', [ANum (int inflatePages2)])
       ''BALLOON-VALIDATE: FAIL after final deflate Actual=%d want 0'' 0 []
      (andThen (say ''BALLOON-VALIDATE: PASS inflate/deflate consumed off the used ring (pages %d then %d, multi-buffer; back to actual=0)''
        [ANum (int inflatePages), ANum (int inflatePages2)]) halt))))))))))"

definition balloon_run :: "'s balloon_driver \<Rightarrow> u16 \<times> u16 \<Rightarrow> balloon_info \<Rightarrow> ('s guest, unit) io" where
  "balloon_run b ids info =
     see (bl_Actual b) (\<lambda>actual.
     andThen (say ''BALLOON-VALIDATE: BALLOON=%#04x:%#04x num_pages=%d features=%#x actual=%d''
       [ANum (uint (fst ids)), ANum (uint (snd ids)), ANum (uint (bl_NumPages info)), ANum (uint (bl_Features info)), ANum (uint actual)])
     (see (bl_HasQueues b) (\<lambda>(inq, outq).
      if \<not> inq \<or> \<not> outq then andThen (say ''BALLOON-VALIDATE: FAIL inflate/deflate queue not set up'' []) halt
      else balloon_rounds b)))"

definition balloon_main :: "'s platform \<Rightarrow> 's balloon_driver \<Rightarrow> ('s guest, unit) io" where
  "balloon_main pf b = bring_up pf (''BALLOON-VALIDATE: FAIL no virtio-balloon-pci device found'', [])
     ''BALLOON-VALIDATE: FAIL OpenVirtioBalloon: %v'' (bl_Open b) (balloon_run b)"

section \<open>Devices\<close>

text \<open>What a request makes of \<open>Actual\<close>; \<open>None\<close> is a request the device does not take from the ring.\<close>

locale balloon_device = boots pf "bl_Open b" info for pf :: "'s platform" and b :: "'s balloon_driver" and info :: balloon_info +
  fixes queues :: "bool \<times> bool" and inflated :: "nat \<Rightarrow> u32 \<Rightarrow> u32 option" and deflated :: "nat \<Rightarrow> u32 \<Rightarrow> u32 option"
  assumes set_up: "bl_HasQueues b m = queues"
    and inflates: "inflated n (bl_Actual b m) = Some a \<Longrightarrow> \<exists>m'. bl_Inflate b n m = Some (Ok (), m') \<and> bl_Actual b m' = a"
    and stuck_inflate: "inflated n (bl_Actual b m) = None \<Longrightarrow> \<exists>e m'. bl_Inflate b n m = Some (Err e, m')"
    and deflates: "deflated n (bl_Actual b m) = Some a \<Longrightarrow> \<exists>m'. bl_Deflate b n m = Some (Ok (), m') \<and> bl_Actual b m' = a"
    and stuck_deflate: "deflated n (bl_Actual b m) = None \<Longrightarrow> \<exists>e m'. bl_Deflate b n m = Some (Err e, m')"

text \<open>A run that ends, with the verdict line exactly when \<open>P\<close> holds.\<close>

definition concludes :: "('s guest, unit) io \<Rightarrow> 's guest \<Rightarrow> bool \<Rightarrow> bool" where
  "concludes run s P \<longleftrightarrow> (\<exists>s'. run s = Some (Ok (), s') \<and>
     (says_pass ''BALLOON-VALIDATE'' (g_serial s') \<longleftrightarrow> says_pass ''BALLOON-VALIDATE'' (g_serial s) \<or> P))"

lemma concludes_stop: "\<not> prefix ''BALLOON-VALIDATE: PASS'' fmt \<Longrightarrow> concludes (andThen (say fmt args) halt) s False"
  by (simp add: concludes_def says_pass_def)

lemma concludes_machine: "concludes run (s\<lparr>g_machine := m\<rparr>) P \<Longrightarrow> run' s = run (s\<lparr>g_machine := m\<rparr>) \<Longrightarrow> concludes run' s P"
  by (simp add: concludes_def)

lemma concludes_say:
  "\<not> prefix ''BALLOON-VALIDATE: PASS'' fmt \<Longrightarrow> concludes k (s\<lparr>g_serial := g_serial s @ [(fmt, args)]\<rparr>) P \<Longrightarrow> concludes (andThen (say fmt args) k) s P"
  by (simp add: concludes_def says_pass_def)

lemma concludes_see: "concludes (k (f (g_machine s))) s P \<Longrightarrow> concludes (see f k) s P"
  by (simp add: concludes_def)

text \<open>One request: the run goes on exactly when \<open>Actual\<close> then has the wanted value.\<close>

lemma concludes_step:
  assumes ok: "\<And>a. response (bl_Actual b (g_machine s)) = Some a \<Longrightarrow> \<exists>m'. request (g_machine s) = Some (Ok (), m') \<and> bl_Actual b m' = a"
    and stuck: "response (bl_Actual b (g_machine s)) = None \<Longrightarrow> \<exists>e m'. request (g_machine s) = Some (Err e, m')"
    and fmts: "\<not> prefix ''BALLOON-VALIDATE: PASS'' (fst failLine)" "\<not> prefix ''BALLOON-VALIDATE: PASS'' actualFmt"
    and rest: "\<And>m'. bl_Actual b m' = of_nat want \<Longrightarrow> concludes k (s\<lparr>g_machine := m'\<rparr>) P"
  shows "concludes (balloon_step b request failLine actualFmt want wantArgs k) s (response (bl_Actual b (g_machine s)) = Some (of_nat want) \<and> P)"
proof (cases "response (bl_Actual b (g_machine s))")
  case None
  then obtain e m' where "request (g_machine s) = Some (Err e, m')" using stuck by blast
  then have "balloon_step b request failLine actualFmt want wantArgs k s = andThen (say (fst failLine) (snd failLine @ [AErr e])) halt (s\<lparr>g_machine := m'\<rparr>)"
    by (simp add: balloon_step_def on_machine_def)
  with None fmts(1) show ?thesis by (simp add: concludes_def says_pass_def)
next
  case (Some a)
  then obtain m' where m': "request (g_machine s) = Some (Ok (), m')" "bl_Actual b m' = a" using ok by blast
  show ?thesis
  proof (cases "a = of_nat want")
    case True
    then have "balloon_step b request failLine actualFmt want wantArgs k s = k (s\<lparr>g_machine := m'\<rparr>)"
      using m' by (simp add: balloon_step_def on_machine_def)
    moreover have "concludes k (s\<lparr>g_machine := m'\<rparr>) P" using rest m'(2) True by simp
    ultimately show ?thesis using Some True by (simp add: concludes_def)
  next
    case False
    then have "balloon_step b request failLine actualFmt want wantArgs k s = andThen (say actualFmt (ANum (uint a) # wantArgs)) halt (s\<lparr>g_machine := m'\<rparr>)"
      using m' by (simp add: balloon_step_def on_machine_def)
    with Some False fmts(2) show ?thesis by (simp add: concludes_def says_pass_def)
  qed
qed

text \<open>What \<open>PASS\<close> asks of the device, from the value of \<open>Actual\<close> at the start.\<close>

definition counts_pages :: "(nat \<Rightarrow> u32 \<Rightarrow> u32 option) \<Rightarrow> (nat \<Rightarrow> u32 \<Rightarrow> u32 option) \<Rightarrow> u32 \<Rightarrow> bool" where
  "counts_pages inflated deflated a \<longleftrightarrow> inflated 64 a = Some 64 \<and> deflated 64 64 = Some 0 \<and> inflated 300 0 = Some 300 \<and> deflated 300 300 = Some 0"

context balloon_device
begin

lemma inflate_step:
  assumes "bl_Actual b (g_machine s) = a"
    "\<not> prefix ''BALLOON-VALIDATE: PASS'' (fst failLine)" "\<not> prefix ''BALLOON-VALIDATE: PASS'' actualFmt"
    "\<And>m'. bl_Actual b m' = of_nat want \<Longrightarrow> concludes k (s\<lparr>g_machine := m'\<rparr>) P"
  shows "concludes (balloon_step b (bl_Inflate b n) failLine actualFmt want args k) s (inflated n a = Some (of_nat want) \<and> P)"
  unfolding assms(1)[symmetric]
  by (rule concludes_step[where response = "inflated n", OF inflates stuck_inflate assms(2,3)]) (simp_all add: assms(4))

lemma deflate_step:
  assumes "bl_Actual b (g_machine s) = a"
    "\<not> prefix ''BALLOON-VALIDATE: PASS'' (fst failLine)" "\<not> prefix ''BALLOON-VALIDATE: PASS'' actualFmt"
    "\<And>m'. bl_Actual b m' = of_nat want \<Longrightarrow> concludes k (s\<lparr>g_machine := m'\<rparr>) P"
  shows "concludes (balloon_step b (bl_Deflate b n) failLine actualFmt want args k) s (deflated n a = Some (of_nat want) \<and> P)"
  unfolding assms(1)[symmetric]
  by (rule concludes_step[where response = "deflated n", OF deflates stuck_deflate assms(2,3)]) (simp_all add: assms(4))

lemma balloon_rounds_verdict:
  "concludes (balloon_rounds b) s (counts_pages inflated deflated (bl_Actual b (g_machine s)))"
proof -
  have last: "concludes (andThen (say ''BALLOON-VALIDATE: PASS inflate/deflate consumed off the used ring (pages %d then %d, multi-buffer; back to actual=0)'' args) halt) s True" for args s
    by (simp add: concludes_def says_pass_def)
  have "concludes (balloon_rounds b) s (inflated inflatePages (bl_Actual b (g_machine s)) = Some (of_nat inflatePages) \<and>
      deflated inflatePages (of_nat inflatePages) = Some (of_nat 0) \<and> inflated inflatePages2 (of_nat 0) = Some (of_nat inflatePages2) \<and>
      deflated inflatePages2 (of_nat inflatePages2) = Some (of_nat 0) \<and> True)"
    unfolding balloon_rounds_def
    by (rule last inflate_step deflate_step concludes_see concludes_say | simp)+
  then show ?thesis by (simp add: counts_pages_def inflatePages_def inflatePages2_def)
qed

lemma balloon_main_verdict:
  "concludes (balloon_main pf b) s (queues = (True, True) \<and> counts_pages inflated deflated (bl_Actual b (booted pf (bl_Open b) (g_machine s))))"
proof -
  let ?m = "booted pf (bl_Open b) (g_machine s)"
  obtain ids where up: "balloon_main pf b s = balloon_run b ids info (s\<lparr>g_machine := ?m\<rparr>)"
    unfolding balloon_main_def using bring_up_run by blast
  have "concludes (balloon_run b ids info) (s\<lparr>g_machine := ?m\<rparr>) (queues = (True, True) \<and> counts_pages inflated deflated (bl_Actual b ?m))"
    unfolding balloon_run_def
  proof (intro concludes_see concludes_say)
    fix args
    let ?s = "s\<lparr>g_machine := ?m, g_serial := g_serial (s\<lparr>g_machine := ?m\<rparr>) @ [(''BALLOON-VALIDATE: BALLOON=%#04x:%#04x num_pages=%d features=%#x actual=%d'', args)]\<rparr>"
    show "concludes (case bl_HasQueues b (g_machine ?s) of (inq, outq) \<Rightarrow>
        if \<not> inq \<or> \<not> outq then andThen (say ''BALLOON-VALIDATE: FAIL inflate/deflate queue not set up'' []) halt else balloon_rounds b) ?s
        (queues = (True, True) \<and> counts_pages inflated deflated (bl_Actual b ?m))"
      using balloon_rounds_verdict[of ?s] concludes_stop[of "''BALLOON-VALIDATE: FAIL inflate/deflate queue not set up''" "[]" ?s]
      by (auto simp: set_up split: prod.split)
  qed simp
  then show ?thesis by (rule concludes_machine) (rule up)
qed

end

text \<open>C17. Against any device the harness reaches its verdict, and it is \<open>PASS\<close> exactly when both queues
  are set up, the device takes all four requests, and \<open>Actual\<close> follows them: 64 pages, none, 300
  pages (more than one buffer), none.\<close>

theorem balloon_verdict:
  assumes "balloon_device pf b info queues inflated deflated" "\<not> says_pass ''BALLOON-VALIDATE'' (g_serial s)"
  shows "\<exists>s'. balloon_main pf b s = Some (Ok (), s') \<and> (says_pass ''BALLOON-VALIDATE'' (g_serial s') \<longleftrightarrow>
    queues = (True, True) \<and> counts_pages inflated deflated (bl_Actual b (booted pf (bl_Open b) (g_machine s))))"
  using balloon_device.balloon_main_verdict[OF assms(1), of s] assms(2) by (simp add: concludes_def)

text \<open>A device that counts at most \<open>chunk\<close> pages of a request: a driver that forgets the buffers after
  the first one has \<open>chunk = 256\<close>.\<close>

definition chunk_driver :: "nat \<Rightarrow> balloon_info \<Rightarrow> u32 balloon_driver" where
  "chunk_driver chunk info = \<lparr>bl_Open = \<lambda>t m. Some (Ok info, m), bl_Actual = hw, bl_HasQueues = \<lambda>m. (True, True),
     bl_Inflate = \<lambda>n m. Some (Ok (), m\<lparr>hw := hw m + of_nat (min chunk n)\<rparr>),
     bl_Deflate = \<lambda>n m. Some (Ok (), m\<lparr>hw := hw m - of_nat (min chunk n)\<rparr>)\<rparr>"

interpretation chunked: balloon_device bare_platform "chunk_driver chunk info" info "(True, True)"
  "\<lambda>n a. Some (a + of_nat (min chunk n))" "\<lambda>n a. Some (a - of_nat (min chunk n))"
  by unfold_locales (auto simp: chunk_driver_def)

theorem balloon_verdict_witness:
  "(\<exists>s'. balloon_main bare_platform (chunk_driver 1024 \<lparr>bl_NumPages = 0, bl_Features = 0\<rparr>) \<lparr>g_machine = \<lparr>phys = \<lambda>_. 0, hw = 0\<rparr>, g_serial = []\<rparr> = Some (Ok (), s') \<and>
      says_pass ''BALLOON-VALIDATE'' (g_serial s')) \<and>
   (\<exists>s'. balloon_main bare_platform (chunk_driver 256 \<lparr>bl_NumPages = 0, bl_Features = 0\<rparr>) \<lparr>g_machine = \<lparr>phys = \<lambda>_. 0, hw = 0\<rparr>, g_serial = []\<rparr> = Some (Ok (), s') \<and>
      \<not> says_pass ''BALLOON-VALIDATE'' (g_serial s'))"
proof -
  let ?s = "\<lparr>g_machine = \<lparr>phys = \<lambda>_. 0, hw = 0\<rparr>, g_serial = []\<rparr> :: u32 guest" and ?i = "\<lparr>bl_NumPages = 0, bl_Features = 0\<rparr>"
  have n: "\<not> says_pass ''BALLOON-VALIDATE'' (g_serial ?s)" by (simp add: says_pass_def)
  have b: "booted bare_platform (bl_Open (chunk_driver c ?i)) m = m" for c m
    by (rule bare_booted[where info = ?i]) (simp add: chunk_driver_def)
  have "bl_Actual (chunk_driver c ?i) (g_machine ?s) = 0" for c by (simp add: chunk_driver_def)
  then show ?thesis
    using balloon_verdict[OF chunked.balloon_device_axioms[of 1024 ?i] n] balloon_verdict[OF chunked.balloon_device_axioms[of 256 ?i] n]
    by (simp add: b counts_pages_def)
qed

end
