(* ===== verification/Guest_Fs.thy ===== *)
theory Guest_Fs
  imports Guest_Base
begin

text \<open>
  The file-system harness of \<open>guest/cmd/fsvalidate/main.go\<close>. The driver \<open>go-virtio/fs\<close> is a
  parameter.
\<close>

section \<open>The driver\<close>

record fs_info =
  fs_Tag :: string
  fs_NumRequestQueues :: u32
  fs_Features :: u64

record entry =
  NodeID :: u64
  attr_Size :: u64
  attr_Mode :: u32

record 's fs_driver =
  fs_OpenReadWrite :: u32
  fs_OpenDevice :: "'s Transport \<Rightarrow> ('s machine, fs_info) io"
  fs_Init :: "('s machine, u32 \<times> u32 \<times> u32) io"
  fs_Lookup :: "u64 \<Rightarrow> string \<Rightarrow> ('s machine, entry) io"
  fs_Open :: "u64 \<Rightarrow> ('s machine, u64) io"
  fs_Read :: "u64 \<Rightarrow> u64 \<Rightarrow> u64 \<Rightarrow> u32 \<Rightarrow> ('s machine, bytes) io"
  fs_Release :: "u64 \<Rightarrow> u64 \<Rightarrow> ('s machine, unit) io"
  fs_Create :: "u64 \<Rightarrow> string \<Rightarrow> u32 \<Rightarrow> u32 \<Rightarrow> ('s machine, entry \<times> u64) io"
  fs_Write :: "u64 \<Rightarrow> u64 \<Rightarrow> u64 \<Rightarrow> bytes \<Rightarrow> ('s machine, nat) io"
  fs_Fsync :: "u64 \<Rightarrow> u64 \<Rightarrow> bool \<Rightarrow> ('s machine, unit) io"

section \<open>The harness\<close>

definition fuseRoot :: u64 where "fuseRoot = 1"
definition readName :: string where "readName = ''hello.txt''"
definition readWant :: string where "readWant = ''GO-VIRTIO-FS-VALIDATE-OK''"
definition writeName :: string where "writeName = ''guest-wrote.txt''"
definition writeToken :: string where "writeToken = ''GUEST-WROTE-THIS-1A2B3C4D''"

definition fs_write_proof :: "'s fs_driver \<Rightarrow> bytes \<Rightarrow> ('s guest, unit) io" where
  "fs_write_proof f got =
     check_io (on_machine (fs_Create f fuseRoot writeName 420 (fs_OpenReadWrite f)))
       (\<lambda>e. andThen (say ''FS-VALIDATE: FAIL Create(%q): %v'' [AStr writeName, AErr e]) halt) (\<lambda>(wEnt, wfh).
     check_io (on_machine (fs_Write f (NodeID wEnt) wfh 0 (to_bytes writeToken)))
       (\<lambda>e. andThen (say ''FS-VALIDATE: FAIL Write(%q): %v'' [AStr writeName, AErr e]) halt) (\<lambda>n.
     if n \<noteq> length writeToken
     then andThen (say ''FS-VALIDATE: FAIL short write %q: wrote %d want %d'' [AStr writeName, ANum (int n), ANum (int (length writeToken))]) halt
     else ignore (fs_Fsync f (NodeID wEnt) wfh False)
     (check_io (on_machine (fs_Read f (NodeID wEnt) wfh 0 (of_nat (length writeToken))))
       (\<lambda>e. andThen (say ''FS-VALIDATE: FAIL Read-back of own write %q: %v'' [AStr writeName, AErr e]) halt) (\<lambda>rb.
     ignore (fs_Release f (NodeID wEnt) wfh)
     (if to_string rb \<noteq> writeToken
      then andThen (say ''FS-VALIDATE: FAIL own-write read-back mismatch: got %q want %q'' [AStr (to_string rb), AStr writeToken]) halt
      else andThen (say ''FS-VALIDATE: wrote %q nodeid=%d bytes=%d token=%q'' [AStr writeName, ANum (uint (NodeID wEnt)), ANum (int n), AStr writeToken])
        (andThen (say ''FS-VALIDATE: HOST-CHECK file=%s expect=%s'' [AStr writeName, AStr writeToken])
        (andThen (say ''FS-VALIDATE: PASS read %q byte-equal (%d B) + wrote %q (%d B, read-back equal)''
          [AStr readName, ANum (int (length got)), AStr writeName, ANum (int n)]) halt)))))))"

definition fs_run :: "'s fs_driver \<Rightarrow> u16 \<times> u16 \<Rightarrow> fs_info \<Rightarrow> ('s guest, unit) io" where
  "fs_run f ids info =
     andThen (say ''FS-VALIDATE: FS=%#04x:%#04x tag=%q num_request_queues=%d features=%#x''
       [ANum (uint (fst ids)), ANum (uint (snd ids)), AStr (fs_Tag info), ANum (uint (fs_NumRequestQueues info)), ANum (uint (fs_Features info))])
     (check_io (on_machine (fs_Init f)) (\<lambda>e. andThen (say ''FS-VALIDATE: FAIL Init (FUSE_INIT): %v'' [AErr e]) halt) (\<lambda>(major, minor, flags).
     andThen (say ''FS-VALIDATE: FUSE negotiated major=%d minor=%d flags=%#x'' [ANum (uint major), ANum (uint minor), ANum (uint flags)])
     (check_io (on_machine (fs_Lookup f fuseRoot readName))
       (\<lambda>e. andThen (say ''FS-VALIDATE: FAIL Lookup(%q): %v'' [AStr readName, AErr e]) halt) (\<lambda>ent.
     andThen (say ''FS-VALIDATE: lookup %q nodeid=%d size=%d mode=%#o''
       [AStr readName, ANum (uint (NodeID ent)), ANum (uint (attr_Size ent)), ANum (uint (attr_Mode ent))])
     (if NodeID ent = 0
      then andThen (say ''FS-VALIDATE: FAIL Lookup(%q) negative (file absent in shared dir)'' [AStr readName]) halt
      else if attr_Size ent \<noteq> of_nat (length readWant)
      then andThen (say ''FS-VALIDATE: FAIL size mismatch: got %d want %d'' [ANum (uint (attr_Size ent)), ANum (int (length readWant))]) halt
      else check_io (on_machine (fs_Open f (NodeID ent)))
       (\<lambda>e. andThen (say ''FS-VALIDATE: FAIL Open(%q): %v'' [AStr readName, AErr e]) halt) (\<lambda>fh.
     check_io (on_machine (fs_Read f (NodeID ent) fh 0 (of_nat (length readWant))))
       (\<lambda>e. andThen (say ''FS-VALIDATE: FAIL Read(%q): %v'' [AStr readName, AErr e]) halt) (\<lambda>got.
     ignore (fs_Release f (NodeID ent) fh)
     (andThen (say ''FS-VALIDATE: read %q bytes=%d data=%q'' [AStr readName, ANum (int (length got)), AStr (to_string got)])
     (if to_string got \<noteq> readWant
      then andThen (say ''FS-VALIDATE: FAIL read-back mismatch: got %q want %q'' [AStr (to_string got), AStr readWant]) halt
      else fs_write_proof f got)))))))))"

definition fs_main :: "'s platform \<Rightarrow> 's fs_driver \<Rightarrow> ('s guest, unit) io" where
  "fs_main pf f = bring_up pf (''FS-VALIDATE: FAIL no virtio-fs-pci device found'', [])
     ''FS-VALIDATE: FAIL OpenVirtioFS: %v'' (fs_OpenDevice f) (fs_run f)"

section \<open>Servers\<close>

text \<open>\<open>dir m\<close> is the shared directory, \<open>data m\<close> the contents of its nodes. A write stores
  \<open>stored p\<close>, which is \<open>p\<close> for an honest server. Releasing and syncing may fail.\<close>

locale file_server = boots pf "fs_OpenDevice f" info for pf :: "'s platform" and f :: "'s fs_driver" and info :: fs_info +
  fixes dir :: "'s machine \<Rightarrow> string \<rightharpoonup> u64" and data :: "'s machine \<Rightarrow> u64 \<Rightarrow> bytes" and stored :: "bytes \<Rightarrow> bytes"
  assumes nodes: "dir m name = Some n \<Longrightarrow> n \<noteq> 0 \<and> length (data m n) < 2 ^ 63"
    and length_stored: "length (stored p) = length p"
    and inits: "\<exists>v m'. fs_Init f m = Some (Ok v, m') \<and> dir m' = dir m \<and> data m' = data m"
    and finds: "dir m name = Some n \<Longrightarrow> \<exists>e m'. fs_Lookup f fuseRoot name m = Some (Ok e, m') \<and> NodeID e = n \<and>
      attr_Size e = of_nat (length (data m n)) \<and> dir m' = dir m \<and> data m' = data m"
    and misses: "dir m name = None \<Longrightarrow> \<exists>e m'. fs_Lookup f fuseRoot name m = Some (Ok e, m') \<and> NodeID e = 0"
    and opens_file: "\<exists>fh m'. fs_Open f n m = Some (Ok fh, m') \<and> dir m' = dir m \<and> data m' = data m"
    and reads: "\<exists>m'. fs_Read f n fh off len m = Some (Ok (take (unat len) (drop (unat off) (data m n))), m') \<and> dir m' = dir m \<and> data m' = data m"
    and releases: "\<exists>x m'. fs_Release f n fh m = Some (x, m') \<and> x \<noteq> Panic \<and> dir m' = dir m \<and> data m' = data m"
    and syncs: "\<exists>x m'. fs_Fsync f n fh d m = Some (x, m') \<and> x \<noteq> Panic \<and> dir m' = dir m \<and> data m' = data m"
    and creates: "\<exists>e fh m'. fs_Create f fuseRoot name mode flags m = Some (Ok (e, fh), m') \<and> dir m' name = Some (NodeID e)"
    and writes: "length p < 2 ^ 32 \<Longrightarrow> \<exists>m'. fs_Write f n fh 0 p m = Some (Ok (length p), m') \<and> dir m' = dir m \<and> data m' n = stored p @ drop (length p) (data m n)"

lemma ignore_run: "m (g_machine s) = Some (x, m') \<Longrightarrow> x \<noteq> Panic \<Longrightarrow> ignore m k s = k (s\<lparr>g_machine := m'\<rparr>)"
  by (cases x) (simp_all add: ignore_def on_machine_def)

lemma to_string_eq_iff: "to_string b = str \<longleftrightarrow> b = to_bytes str"
proof -
  have "char_of (unat x) = c \<longleftrightarrow> x = of_nat (of_char c)" for x :: byte and c
  proof -
    have "unat x < 256" using unsigned_less[of x, where 'a = nat] by simp
    then have "take_bit 8 (unat x) = unat x" by (simp add: take_bit_nat_eq_self)
    then have "char_of (unat x) = c \<longleftrightarrow> unat x = of_char c" by (simp add: char_of_eq_iff)
    moreover have "(of_char c :: nat) < 256" by simp
    then have "unat (of_nat (of_char c) :: byte) = of_char c" by (simp add: unat_of_nat take_bit_nat_eq_self)
    ultimately show ?thesis by (metis unsigned_word_eqI)
  qed
  then show ?thesis
    unfolding to_string_def to_bytes_def list_eq_iff_nth_eq by auto
qed

lemma to_bytes_length [simp]: "length (to_bytes str) = length str"
  by (simp add: to_bytes_def)

text \<open>The file the host has to see after the run.\<close>

definition token_written :: "(string \<rightharpoonup> u64) \<Rightarrow> (u64 \<Rightarrow> bytes) \<Rightarrow> bool" where
  "token_written d c \<longleftrightarrow> (\<exists>n. d writeName = Some n \<and> take (length writeToken) (c n) = to_bytes writeToken)"

context file_server
begin

lemma fs_write_proof_run:
  "\<exists>s'. fs_write_proof f got s = Some (Ok (), s') \<and>
     (says_pass ''FS-VALIDATE'' (g_serial s') \<longleftrightarrow> says_pass ''FS-VALIDATE'' (g_serial s) \<or> stored (to_bytes writeToken) = to_bytes writeToken) \<and>
     (stored (to_bytes writeToken) = to_bytes writeToken \<longrightarrow> token_written (dir (g_machine s')) (data (g_machine s')))"
proof -
  let ?t = "to_bytes writeToken"
  obtain e fh m1 where c: "fs_Create f fuseRoot writeName 420 (fs_OpenReadWrite f) (g_machine s) = Some (Ok (e, fh), m1)"
      "dir m1 writeName = Some (NodeID e)" using creates by blast
  obtain m2 where w: "fs_Write f (NodeID e) fh 0 ?t m1 = Some (Ok (length writeToken), m2)" "dir m2 = dir m1"
      "data m2 (NodeID e) = stored ?t @ drop (length ?t) (data m1 (NodeID e))" using writes[of ?t "NodeID e" fh m1] by (auto simp: writeToken_def)
  obtain x3 m3 where y: "fs_Fsync f (NodeID e) fh False m2 = Some (x3, m3)" "x3 \<noteq> Panic" "dir m3 = dir m2" "data m3 = data m2"
    using syncs by blast
  have len: "unat (of_nat (length writeToken) :: u32) = length writeToken" by (simp add: writeToken_def)
  obtain m4 where r: "fs_Read f (NodeID e) fh 0 (of_nat (length writeToken)) m3 = Some (Ok (stored ?t), m4)" "dir m4 = dir m3" "data m4 = data m3"
    using reads[of "NodeID e" fh 0 "of_nat (length writeToken)" m3] w(3) y(4) length_stored[of ?t] by (auto simp: len)
  obtain x5 m5 where l: "fs_Release f (NodeID e) fh m4 = Some (x5, m5)" "x5 \<noteq> Panic" "dir m5 = dir m4" "data m5 = data m4"
    using releases by blast
  have "stored ?t = ?t \<longrightarrow> token_written (dir m5) (data m5)"
    using c(2) w(2,3) y(3,4) r(2,3) l(3,4) by (simp add: token_written_def)
  then show ?thesis
    using c(1) w(1) r(1) y(1,2) l(1,2)
    by (cases "stored ?t = ?t")
      (simp_all add: fs_write_proof_def on_machine_run ignore_run to_string_eq_iff says_pass_def)
qed

definition seed_present :: "'s machine \<Rightarrow> bool" where
  "seed_present m \<longleftrightarrow> (\<exists>n. dir m readName = Some n \<and> data m n = to_bytes readWant)"

lemma fs_found_run:
  assumes "dir (g_machine s) readName = Some n" "fs_Init f (g_machine s) = Some (Ok v, m1)" "dir m1 = dir (g_machine s)" "data m1 = data (g_machine s)"
  shows "\<exists>s1. says_pass ''FS-VALIDATE'' (g_serial s1) = says_pass ''FS-VALIDATE'' (g_serial s) \<and>
    (if data (g_machine s) n = to_bytes readWant then fs_run f ids info s = fs_write_proof f (to_bytes readWant) s1
     else fs_run f ids info s = Some (Ok (), s1))"
proof -
  obtain v1 v2 v3 where v: "v = (v1, v2, v3)" by (cases v)
  obtain e m2 where e: "fs_Lookup f fuseRoot readName m1 = Some (Ok e, m2)" "NodeID e = n"
      "attr_Size e = of_nat (length (data m1 n))" "dir m2 = dir m1" "data m2 = data m1"
    using finds[of m1 readName n] assms(1,3) by auto
  have n: "n \<noteq> 0" "length (data (g_machine s) n) < 2 ^ 63" using nodes[OF assms(1)] by auto
  obtain fh m3 where o: "fs_Open f n m2 = Some (Ok fh, m3)" "dir m3 = dir m2" "data m3 = data m2" using opens_file by blast
  have len: "unat (of_nat (length readWant) :: u32) = length readWant" by (simp add: readWant_def)
  obtain m4 where r: "fs_Read f n fh 0 (of_nat (length readWant)) m3 = Some (Ok (take (length readWant) (data (g_machine s) n)), m4)"
    using reads[of n fh 0 "of_nat (length readWant)" m3] assms(4) e(5) o(3) by (auto simp: len)
  obtain x5 m5 where l: "fs_Release f n fh m4 = Some (x5, m5)" "x5 \<noteq> Panic" using releases by blast
  have size: "attr_Size e = of_nat (length readWant) \<longleftrightarrow> length (data (g_machine s) n) = length readWant"
  proof -
    have "length (data (g_machine s) n) < 2 ^ 64" "length readWant < 2 ^ 64" using n(2) by (simp_all add: readWant_def)
    then show ?thesis unfolding e(3) assms(4) by (metis unat_of_nat_u64)
  qed
  show ?thesis
  proof (cases "attr_Size e = of_nat (length readWant)")
    case False
    then have "data (g_machine s) n \<noteq> to_bytes readWant" using size by auto
    with False n(1) e(1,2) assms(2) show ?thesis by (simp add: fs_run_def v on_machine_run says_pass_def)
  next
    case True
    then have "take (length readWant) (data (g_machine s) n) = data (g_machine s) n" using size by simp
    note run = this True n(1) e(1,2) o(1) r l assms(2)
    show ?thesis
    proof (cases "data (g_machine s) n = to_bytes readWant")
      case True
      with run show ?thesis
        by (simp add: fs_run_def v on_machine_run ignore_run to_string_eq_iff) (rule exI, rule conjI[rotated], rule refl, simp add: says_pass_def)
    next
      case False
      with run show ?thesis by (simp add: fs_run_def v on_machine_run ignore_run to_string_eq_iff says_pass_def)
    qed
  qed
qed

lemma fs_missing_run:
  assumes "dir (g_machine s) readName = None" "fs_Init f (g_machine s) = Some (Ok v, m1)" "dir m1 = dir (g_machine s)"
  shows "\<exists>s'. fs_run f ids info s = Some (Ok (), s') \<and> says_pass ''FS-VALIDATE'' (g_serial s') = says_pass ''FS-VALIDATE'' (g_serial s)"
proof -
  obtain v1 v2 v3 where v: "v = (v1, v2, v3)" by (cases v)
  obtain e m2 where "fs_Lookup f fuseRoot readName m1 = Some (Ok e, m2)" "NodeID e = 0"
    using misses[of m1 readName] assms(1,3) by auto
  with assms(2) show ?thesis by (simp add: fs_run_def v on_machine_run says_pass_def)
qed

lemma fs_main_verdict:
  "\<exists>s'. fs_main pf f s = Some (Ok (), s') \<and>
     (says_pass ''FS-VALIDATE'' (g_serial s') \<longleftrightarrow> says_pass ''FS-VALIDATE'' (g_serial s) \<or>
       seed_present (booted pf (fs_OpenDevice f) (g_machine s)) \<and> stored (to_bytes writeToken) = to_bytes writeToken) \<and>
     (seed_present (booted pf (fs_OpenDevice f) (g_machine s)) \<and> stored (to_bytes writeToken) = to_bytes writeToken \<longrightarrow>
       token_written (dir (g_machine s')) (data (g_machine s')))"
proof -
  let ?m = "booted pf (fs_OpenDevice f) (g_machine s)"
  let ?s = "s\<lparr>g_machine := ?m\<rparr>"
  obtain ids where up: "fs_main pf f s = fs_run f ids info ?s" unfolding fs_main_def using bring_up_run by blast
  obtain v m1 where i: "fs_Init f ?m = Some (Ok v, m1)" "dir m1 = dir ?m" "data m1 = data ?m" using inits by blast
  show ?thesis
  proof (cases "dir ?m readName")
    case None
    then show ?thesis using fs_missing_run[of ?s v m1 ids] i unfolding up by (auto simp: seed_present_def)
  next
    case (Some n)
    then obtain s1 where s1: "says_pass ''FS-VALIDATE'' (g_serial s1) = says_pass ''FS-VALIDATE'' (g_serial s)"
      "if data ?m n = to_bytes readWant then fs_run f ids info ?s = fs_write_proof f (to_bytes readWant) s1 else fs_run f ids info ?s = Some (Ok (), s1)"
      using fs_found_run[of ?s n v m1 ids] i by auto
    have p: "seed_present ?m \<longleftrightarrow> data ?m n = to_bytes readWant" using Some by (simp add: seed_present_def)
    show ?thesis
      using s1 fs_write_proof_run[of "to_bytes readWant" s1] unfolding up p by (cases "data ?m n = to_bytes readWant") simp_all
  qed
qed

end

text \<open>C16. Against any server the harness reaches its verdict, and it is \<open>PASS\<close> exactly when the shared
  directory holds \<open>hello.txt\<close> with exactly the expected bytes and what is stored by the write is
  what was written; then \<open>guest-wrote.txt\<close> exists in the directory and begins with the token. A
  file that is longer, shorter or absent is rejected, and a failed release or sync is not.\<close>

theorem fs_verdict:
  assumes "file_server pf f info dir data stored" "\<not> says_pass ''FS-VALIDATE'' (g_serial s)"
    "m = booted pf (fs_OpenDevice f) (g_machine s)"
  shows "\<exists>s'. fs_main pf f s = Some (Ok (), s') \<and>
    (says_pass ''FS-VALIDATE'' (g_serial s') \<longleftrightarrow> (\<exists>n. dir m readName = Some n \<and> data m n = to_bytes readWant) \<and>
      stored (to_bytes writeToken) = to_bytes writeToken) \<and>
    (says_pass ''FS-VALIDATE'' (g_serial s') \<longrightarrow> token_written (dir (g_machine s')) (data (g_machine s')))"
  using file_server.fs_main_verdict[OF assms(1), of s] assms(2,3) file_server.seed_present_def[OF assms(1)] by auto

text \<open>A server that keeps the names that exist and the contents of its nodes, \<open>hello.txt\<close> at node 2 and
  every other file at node 3, none longer than \<open>2 ^ 32\<close> bytes.\<close>

type_synonym shared = "(string \<Rightarrow> bool) \<times> (u64 \<Rightarrow> bytes)"

definition shared_node :: "string \<Rightarrow> u64" where
  "shared_node name = (if name = readName then 2 else 3)"

definition shared_dir :: "shared machine \<Rightarrow> string \<rightharpoonup> u64" where
  "shared_dir m name = (if fst (hw m) name then Some (shared_node name) else None)"

definition shared_data :: "shared machine \<Rightarrow> u64 \<Rightarrow> bytes" where
  "shared_data m n = take 4294967296 (snd (hw m) n)"

definition shared_entry :: "u64 \<Rightarrow> shared machine \<Rightarrow> entry" where
  "shared_entry n m = \<lparr>NodeID = n, attr_Size = of_nat (length (shared_data m n)), attr_Mode = 420\<rparr>"

definition server_driver :: "(bytes \<Rightarrow> bytes) \<Rightarrow> fs_info \<Rightarrow> shared fs_driver" where
  "server_driver st info = \<lparr>fs_OpenReadWrite = 2, fs_OpenDevice = \<lambda>t m. Some (Ok info, m), fs_Init = \<lambda>m. Some (Ok (7, 31, 0), m),
     fs_Lookup = \<lambda>p name m. Some (Ok (shared_entry (if fst (hw m) name then shared_node name else 0) m), m),
     fs_Open = \<lambda>n m. Some (Ok n, m),
     fs_Read = \<lambda>n fh off len m. Some (Ok (take (unat len) (drop (unat off) (shared_data m n))), m),
     fs_Release = \<lambda>n fh m. Some (Err EOF, m),
     fs_Create = \<lambda>p name mode flags m. Some (Ok (shared_entry (shared_node name) m, 0), m\<lparr>hw := ((fst (hw m))(name := True), snd (hw m))\<rparr>),
     fs_Write = \<lambda>n fh off p m. Some (Ok (length p), m\<lparr>hw := (fst (hw m), (snd (hw m))(n := st p @ drop (length p) (shared_data m n)))\<rparr>),
     fs_Fsync = \<lambda>n fh d m. Some (Ok (), m)\<rparr>"

definition faulty :: "bool \<Rightarrow> bytes \<Rightarrow> bytes" where
  "faulty f p = (if f then rev p else p)"

interpretation server: file_server bare_platform "server_driver (faulty fault) info" info shared_dir shared_data "faulty fault"
proof
  fix m :: "shared machine" and n fh p
  assume "length (p :: bytes) < 2 ^ 32"
  then show "\<exists>m'. fs_Write (server_driver (faulty fault) info) n fh 0 p m = Some (Ok (length p), m') \<and> shared_dir m' = shared_dir m \<and>
      shared_data m' n = faulty fault p @ drop (length p) (shared_data m n)"
    by (auto simp: server_driver_def shared_dir_def shared_data_def faulty_def fun_eq_iff)
qed (auto simp: server_driver_def shared_dir_def shared_data_def shared_entry_def shared_node_def faulty_def split: if_splits)

definition served :: "shared guest" where
  "served = \<lparr>g_machine = \<lparr>phys = \<lambda>_. 0, hw = (\<lambda>name. name = readName, \<lambda>n. to_bytes readWant)\<rparr>, g_serial = []\<rparr>"

theorem fs_verdict_witness:
  "(\<exists>s'. fs_main bare_platform (server_driver (faulty False) \<lparr>fs_Tag = ''share'', fs_NumRequestQueues = 1, fs_Features = 0\<rparr>) served = Some (Ok (), s') \<and>
      says_pass ''FS-VALIDATE'' (g_serial s')) \<and>
   (\<exists>s'. fs_main bare_platform (server_driver (faulty True) \<lparr>fs_Tag = ''share'', fs_NumRequestQueues = 1, fs_Features = 0\<rparr>) served = Some (Ok (), s') \<and>
      \<not> says_pass ''FS-VALIDATE'' (g_serial s'))"
proof -
  let ?i = "\<lparr>fs_Tag = ''share'', fs_NumRequestQueues = 1, fs_Features = 0\<rparr>"
  have n: "\<not> says_pass ''FS-VALIDATE'' (g_serial served)" by (simp add: served_def says_pass_def)
  have b: "g_machine served = booted bare_platform (fs_OpenDevice (server_driver (faulty x) ?i)) (g_machine served)" for x
    by (rule bare_booted[where info = ?i, symmetric]) (simp add: server_driver_def)
  have "shared_dir (g_machine served) readName = Some 2" "shared_data (g_machine served) 2 = to_bytes readWant"
    by (simp_all add: served_def shared_dir_def shared_node_def shared_data_def readWant_def)
  moreover have "rev (to_bytes writeToken) \<noteq> to_bytes writeToken" by (simp add: writeToken_def to_bytes_def)
  ultimately show ?thesis
    using fs_verdict[OF server.file_server_axioms[of False ?i] n b] fs_verdict[OF server.file_server_axioms[of True ?i] n b]
    by (auto simp: faulty_def)
qed

end
