(* ===== verification/Guest_Gpu.thy ===== *)
theory Guest_Gpu
  imports Guest_Base Complex_Main
begin

text \<open>
  The display harness of \<open>guest/cmd/gpuvalidate/main.go\<close>: it draws a cube and prints statistics of
  the frame. The driver \<open>go-virtio/gpu\<close> and its renderer \<open>soft3d\<close> are parameters.
\<close>

section \<open>The driver\<close>

record gpu_info =
  gp_NumScanouts :: u32
  gp_Features :: u64

record framebuffer =
  fb_Width :: u32
  fb_Height :: u32
  fb_ResourceID :: u32

record 's gpu_driver =
  gp_Open :: "'s Transport \<Rightarrow> ('s machine, gpu_info) io"
  gp_DisplayInfo :: "('s machine, unit) io"
  gp_SetupFramebuffer :: "u32 \<Rightarrow> u32 \<Rightarrow> u32 \<Rightarrow> ('s machine, framebuffer) io"
  gp_RenderCube :: "framebuffer \<Rightarrow> goint \<Rightarrow> goint \<Rightarrow> rat \<Rightarrow> ('s machine, unit) io"
  gp_Flush :: "framebuffer \<Rightarrow> ('s machine, unit) io"
  gp_Pix :: "framebuffer \<Rightarrow> 's machine \<Rightarrow> bytes"

section \<open>The harness\<close>

definition fbWidth :: u32 where "fbWidth = 320"
definition fbHeight :: u32 where "fbHeight = 240"

text \<open>The loop of \<open>pixStats\<close>: checksum, pixels off the background, and the set of values seen.\<close>

record pix_stats =
  ps_sum :: u32
  ps_nonBg :: nat
  ps_seen :: "u32 list"

definition pixel_value :: "bytes \<Rightarrow> nat \<Rightarrow> u32" where
  "pixel_value pix i = ucast (pix ! i) OR push_bit 8 (ucast (pix ! (i + 1))) OR push_bit 16 (ucast (pix ! (i + 2)))
     OR push_bit 24 (ucast (pix ! (i + 3)))"

definition pix_step :: "bytes \<Rightarrow> nat \<Rightarrow> pix_stats \<Rightarrow> pix_stats" where
  "pix_step pix i st = (
     let b = pix ! i; gr = pix ! (i + 1); r = pix ! (i + 2); p = pixel_value pix i;
         st = st\<lparr>ps_sum := ps_sum st * 31 + p\<rparr>;
         st = (if \<not> (b = 20 \<and> gr = 10 \<and> r = 10) then st\<lparr>ps_nonBg := ps_nonBg st + 1\<rparr> else st)
     in if length (ps_seen st) < 4096 then st\<lparr>ps_seen := List.insert p (ps_seen st)\<rparr> else st)"

function pix_loop :: "bytes \<Rightarrow> nat \<Rightarrow> pix_stats \<Rightarrow> pix_stats" where
  "pix_loop pix i st = (if i + 3 < length pix then pix_loop pix (i + 4) (pix_step pix i st) else st)"
  by pat_completeness auto
termination by (relation "measure (\<lambda>(pix, i, st). length pix - i)") auto

declare pix_loop.simps [simp del]

definition pixStats :: "bytes \<Rightarrow> u32 \<times> nat \<times> nat" where
  "pixStats pix = (let st = pix_loop pix 0 \<lparr>ps_sum = 0, ps_nonBg = 0, ps_seen = []\<rparr> in (ps_sum st, ps_nonBg st, length (ps_seen st)))"

definition gpu_run :: "'s gpu_driver \<Rightarrow> u16 \<times> u16 \<Rightarrow> gpu_info \<Rightarrow> ('s guest, unit) io" where
  "gpu_run g ids info =
     check_io (on_machine (gp_DisplayInfo g)) (\<lambda>e. andThen (say ''VALIDATE: FAIL DisplayInfo: %v'' [AErr e]) halt) (\<lambda>_.
     check_io (on_machine (gp_SetupFramebuffer g 0 fbWidth fbHeight)) (\<lambda>e. andThen (say ''VALIDATE: FAIL SetupFramebuffer: %v'' [AErr e]) halt) (\<lambda>fb.
     andThen (on_machine (gp_RenderCube g fb (ucast (fb_Width fb)) (ucast (fb_Height fb)) (6 / 10)))
     (check_io (on_machine (gp_Flush g fb)) (\<lambda>e. andThen (say ''VALIDATE: FAIL Flush: %v'' [AErr e]) halt) (\<lambda>_.
     see (gp_Pix g fb) (\<lambda>pix.
     let (chk, nonZero, distinct) = pixStats pix in
     andThen (say ''VALIDATE: GPU=%#04x:%#04x scanouts=%d features=%#x''
       [ANum (uint (fst ids)), ANum (uint (snd ids)), ANum (uint (gp_NumScanouts info)), ANum (uint (gp_Features info))])
     (andThen (say ''VALIDATE: fb %dx%d resource=%d pixbytes=%d''
       [ANum (uint (fb_Width fb)), ANum (uint (fb_Height fb)), ANum (uint (fb_ResourceID fb)), ANum (int (length pix))])
     (andThen (say ''VALIDATE: checksum=%#08x nonzero_pixels=%d distinct_colors=%d'' [ANum (uint chk), ANum (int nonZero), ANum (int distinct)])
     (andThen (say ''VALIDATE: DONE render+flush complete; host may now screendump'' []) halt))))))))"

definition gpu_main :: "'s platform \<Rightarrow> 's gpu_driver \<Rightarrow> ('s guest, unit) io" where
  "gpu_main pf g = bring_up pf (''VALIDATE: FAIL no virtio-gpu-pci device found'', [])
     ''VALIDATE: FAIL OpenVirtioGPU: %v'' (gp_Open g) (gpu_run g)"

section \<open>The statistics\<close>

definition pixel_list :: "bytes \<Rightarrow> u32 list" where
  "pixel_list pix = map (\<lambda>k. pixel_value pix (4 * k)) [0..<length pix div 4]"

definition off_background :: "bytes \<Rightarrow> nat \<Rightarrow> bool" where
  "off_background pix k \<longleftrightarrow> [pix ! (4 * k), pix ! (4 * k + 1), pix ! (4 * k + 2)] \<noteq> [20, 10, 10]"

lemma pix_loop_fold:
  "k \<le> length pix div 4 \<Longrightarrow> pix_loop pix (4 * k) st = fold (\<lambda>k. pix_step pix (4 * k)) [k..<length pix div 4] st"
proof (induction "length pix div 4 - k" arbitrary: k st)
  case 0
  then have "\<not> 4 * k + 3 < length pix" by linarith
  with 0 show ?case by (simp add: pix_loop.simps[of pix "4 * k"])
next
  case (Suc n)
  then have k: "k < length pix div 4" by linarith
  then have "4 * k + 3 < length pix" by linarith
  then have "pix_loop pix (4 * k) st = pix_loop pix (4 * Suc k) (pix_step pix (4 * k) st)"
    by (subst pix_loop.simps) (simp add: add.commute)
  also have "\<dots> = fold (\<lambda>k. pix_step pix (4 * k)) [Suc k..<length pix div 4] (pix_step pix (4 * k) st)"
    using Suc(1)[of "Suc k"] Suc(2) k by simp
  finally show ?case using k by (simp add: upt_conv_Cons)
qed

lemma pix_step_fields:
  "ps_sum (pix_step pix (4 * k) st) = ps_sum st * 31 + pixel_value pix (4 * k)"
  "ps_nonBg (pix_step pix (4 * k) st) = ps_nonBg st + of_bool (off_background pix k)"
  "ps_seen (pix_step pix (4 * k) st) = (if length (ps_seen st) < 4096 then List.insert (pixel_value pix (4 * k)) (ps_seen st) else ps_seen st)"
  by (simp_all add: pix_step_def Let_def off_background_def)

lemma fold_sum: "ps_sum (fold (\<lambda>k. pix_step pix (4 * k)) ks st) = fold (\<lambda>p a. a * 31 + p) (map (\<lambda>k. pixel_value pix (4 * k)) ks) (ps_sum st)"
  by (induction ks arbitrary: st) (simp_all add: pix_step_fields)

lemma fold_nonBg: "ps_nonBg (fold (\<lambda>k. pix_step pix (4 * k)) ks st) = ps_nonBg st + length (filter (off_background pix) ks)"
  by (induction ks arbitrary: st) (simp_all add: pix_step_fields)

definition seen_ok :: "u32 set \<Rightarrow> u32 list \<Rightarrow> bool" where
  "seen_ok V seen \<longleftrightarrow> distinct seen \<and> length seen = min 4096 (card V) \<and> finite V \<and> (length seen < 4096 \<longrightarrow> set seen = V)"

lemma seen_ok_step:
  assumes "seen_ok V seen"
  shows "seen_ok (insert p V) (if length seen < 4096 then List.insert p seen else seen)"
proof (cases "length seen < 4096")
  case True
  then have V: "set seen = V" "distinct seen" "finite V" using assms by (auto simp: seen_ok_def)
  then have "length (List.insert p seen) = card (insert p V)"
    using distinct_card[of "List.insert p seen"] by simp
  moreover have "card V = length seen" using V distinct_card by fastforce
  then have "card (insert p V) \<le> 4096" using True V(3) by (simp add: card_insert_if)
  ultimately show ?thesis using True V by (simp add: seen_ok_def min_def)
next
  case False
  then have "4096 \<le> card V" "finite V" using assms by (auto simp: seen_ok_def)
  then have "4096 \<le> card (insert p V)" using card_insert_le[of V p] by linarith
  with False assms show ?thesis by (auto simp: seen_ok_def)
qed

lemma fold_seen:
  "seen_ok V (ps_seen st) \<Longrightarrow>
   seen_ok (V \<union> (\<lambda>k. pixel_value pix (4 * k)) ` set ks) (ps_seen (fold (\<lambda>k. pix_step pix (4 * k)) ks st))"
proof (induction ks arbitrary: V st)
  case (Cons k ks)
  have "seen_ok (insert (pixel_value pix (4 * k)) V) (ps_seen (pix_step pix (4 * k) st))"
    using seen_ok_step[OF Cons.prems] by (simp add: pix_step_fields)
  from Cons.IH[OF this] show ?case by simp
qed simp

text \<open>C39. The statistics of the frame are those of its whole pixels: the checksum is the polynomial in
  31 over the pixel values, the first count the pixels whose blue, green and red bytes are not
  20, 10, 10, the second the number of different pixel values, at most 4096. Bytes after the
  last whole pixel do not count.\<close>

theorem pix_stats_spec:
  "pixStats pix = (fold (\<lambda>p a. a * 31 + p) (pixel_list pix) 0,
     length (filter (off_background pix) [0..<length pix div 4]), min 4096 (card (set (pixel_list pix))))"
proof -
  let ?st = "\<lparr>ps_sum = 0, ps_nonBg = 0, ps_seen = []\<rparr>" and ?ks = "[0..<length pix div 4]"
  have "pix_loop pix 0 ?st = fold (\<lambda>k. pix_step pix (4 * k)) ?ks ?st" using pix_loop_fold[of 0 pix ?st] by simp
  moreover have "seen_ok {} (ps_seen ?st)" by (simp add: seen_ok_def)
  from fold_seen[OF this, of pix ?ks] have "length (ps_seen (fold (\<lambda>k. pix_step pix (4 * k)) ?ks ?st)) = min 4096 (card (set (pixel_list pix)))"
    by (simp add: seen_ok_def pixel_list_def)
  ultimately show ?thesis by (simp add: pixStats_def Let_def fold_sum fold_nonBg pixel_list_def)
qed

end
