(* ===== verification/Guest_Board.thy ===== *)
theory Guest_Board
  imports Go_Base
begin

text \<open>
  The board of \<open>guest/board/board.go\<close>: the runtime's output hook and the order in which the hardware is
  set up. The devices belong to tamago; a call to one of them is an entry of the trace.
\<close>

datatype board_call =
    CPU_Init | CPU_EnableExceptions | CPU_InitSMP int | IOAPIC_Init u64 | Outb u16 byte | UART_Init u16 | UART_Tx byte
  | Dma_Init u64 u64 | Set_Exit

definition dmaStart :: u64 where "dmaStart = 0x50000000"
definition dmaSize :: u64 where "dmaSize = 0x10000000"
definition COM1 :: u16 where "COM1 = 0x3f8"
definition IOAPIC0_BASE :: u64 where "IOAPIC0_BASE = 0xfec00000"
definition ramSize :: u64 where "ramSize = 0x40000000"

text \<open>The instances the board declares.\<close>

record cpu = TimerMultiplier :: int

record io_apic = ioapic_Base :: u64

record serial =
  uart_Index :: int
  uart_Base :: u16

definition AMD64 :: cpu where "AMD64 = \<lparr>TimerMultiplier = 1\<rparr>"
definition IOAPIC0 :: io_apic where "IOAPIC0 = \<lparr>ioapic_Base = IOAPIC0_BASE\<rparr>"
definition UART0 :: serial where "UART0 = \<lparr>uart_Index = 1, uart_Base = COM1\<rparr>"

definition printk :: "byte \<Rightarrow> board_call list" where
  "printk c = UART_Tx c # (if c = 0x0a then [UART_Tx 0x0d] else [])"

definition board_Init :: "board_call list" where
  "board_Init = [CPU_Init, IOAPIC_Init (ioapic_Base IOAPIC0), Outb 0x21 0xff, UART_Init (uart_Base UART0), Set_Exit]"

definition board_init :: "board_call list" where
  "board_init = [CPU_EnableExceptions, CPU_InitSMP (-1), Dma_Init dmaStart dmaSize]"

text \<open>The hooks the board gives the runtime: the clock is the processor's, which is a parameter, and the
  exit hook is an empty loop.\<close>

definition nanotime :: "(cpu \<Rightarrow> 's \<Rightarrow> 64 word \<times> 's) \<Rightarrow> 's \<Rightarrow> 64 word \<times> 's" where
  "nanotime GetTime = GetTime AMD64"

partial_function (option) goos_Exit :: "32 word \<Rightarrow> 's \<Rightarrow> (unit res \<times> 's) option" where
  "goos_Exit code s = goos_Exit code s"

text \<open>The harness stops the guest from the outside: its exit hook never returns.\<close>

lemma goos_Exit_never_returns: "goos_Exit code s = None"
proof -
  have False if "goos_Exit code s = Some y" for y
    by (rule goos_Exit.raw_induct[OF _ that, where P = "\<lambda>_ _ _. False"])
  then show ?thesis by (cases "goos_Exit code s") auto
qed

text \<open>The bytes on the serial line for a printed text.\<close>

definition line_bytes :: "bytes \<Rightarrow> bytes" where
  "line_bytes msg = map (\<lambda>c. case c of UART_Tx b \<Rightarrow> b | _ \<Rightarrow> 0) (concat (map printk msg))"

lemma line_bytes_simps [simp]:
  "line_bytes [] = []"
  "line_bytes (c # msg) = (if c = 0x0a then [0x0a, 0x0d] else [c]) @ line_bytes msg"
  by (simp_all add: line_bytes_def printk_def)

text \<open>The host recovers the text by dropping the carriage returns, and sees one of them for every line
  feed, after it.\<close>

theorem printk_roundtrip:
  assumes "0x0d \<notin> set msg"
  shows "filter (\<lambda>b. b \<noteq> 0x0d) (line_bytes msg) = msg"
    "length (line_bytes msg) = length msg + count_list msg 0x0a"
  using assms by (induction msg) auto

text \<open>The legacy interrupt controller is masked before the serial port, and with it any output, is set
  up, and no serial byte is sent during the set-up.\<close>

theorem pic_masked_first:
  "\<exists>before after. board_Init = before @ Outb 0x21 0xff # after \<and> UART_Init COM1 \<notin> set before \<and> UART_Init COM1 \<in> set after \<and>
     (\<forall>b. UART_Tx b \<notin> set (board_init @ board_Init))"
  by (intro exI[of _ "[CPU_Init, IOAPIC_Init IOAPIC0_BASE]"] exI[of _ "[UART_Init COM1, Set_Exit]"])
    (simp add: board_Init_def board_init_def IOAPIC0_def UART0_def)

end
