(* ===== verification/Mkseed.thy ===== *)
theory Mkseed
  imports Go_Base
begin

text \<open>
  The command \<open>cmd/mkseed/main.go\<close>: it reads the user data, builds the seed image and writes it. The
  file system and the package \<open>weft-cidata\<close> are parameters; the result is the exit code.
\<close>

record 's seed_env =
  se_Stdin :: "('s, bytes) io"
  se_ReadFile :: "string \<Rightarrow> ('s, bytes) io"
  se_BuildCloudInitISO :: "string \<Rightarrow> string \<Rightarrow> bytes \<Rightarrow> go_error + bytes"
  se_WriteFile :: "string \<Rightarrow> bytes \<Rightarrow> ('s, unit) io"

record seed_flags =
  instanceID :: string
  hostname :: string
  userData :: string
  out_path :: string

definition readUserData :: "'s seed_env \<Rightarrow> string \<Rightarrow> ('s, bytes) io" where
  "readUserData env path = (if path = '''' \<or> path = ''-'' then se_Stdin env else se_ReadFile env path)"

text \<open>\<open>fail\<close> prints the error and exits with 1.\<close>

definition seed_fail :: "go_error \<Rightarrow> ('s, nat) io" where
  "seed_fail e = return_io 1"

definition mkseed_main :: "'s seed_env \<Rightarrow> seed_flags \<Rightarrow> ('s, nat) io" where
  "mkseed_main env fl =
     check_io (readUserData env (userData fl)) seed_fail (\<lambda>ud.
     case se_BuildCloudInitISO env (instanceID fl) (hostname fl) ud of
       Inl e \<Rightarrow> seed_fail e
     | Inr img \<Rightarrow> check_io (se_WriteFile env (out_path fl) img) seed_fail (\<lambda>_. return_io 0))"

text \<open>Exit code 0 means that the image built from the user data was written; when reading or building
  fails nothing is written.\<close>

theorem mkseed_exit_codes:
  assumes "readUserData env (userData fl) s = Some (x, s1)" "x \<noteq> Panic"
  shows "(\<exists>ud img s2. x = Ok ud \<and> se_BuildCloudInitISO env (instanceID fl) (hostname fl) ud = Inr img \<and>
      se_WriteFile env (out_path fl) img s1 = Some (Ok (), s2)) \<longleftrightarrow> (\<exists>s'. mkseed_main env fl s = Some (Ok 0, s'))"
    "(\<forall>ud. x \<noteq> Ok ud) \<or> (\<exists>ud e. x = Ok ud \<and> se_BuildCloudInitISO env (instanceID fl) (hostname fl) ud = Inl e) \<Longrightarrow>
      mkseed_main env fl s = Some (Ok 1, s1)"
  using assms
  by (auto simp: mkseed_main_def check_io_def seed_fail_def return_io_def split: res.splits sum.splits option.splits)

end
