(* ===== verification/Spec2Isabelle.thy ===== *)
theory Spec2Isabelle
  imports Venus_Mains Resource_Safety Validator_Props Guest_Rng_Props Guest_Console Guest_Net Guest_Vsock Guest_Balloon Guest_Fs Guest_Gpu Guest_Board Mkseed
begin

text \<open>
  Verification of go-virtio/validate.

  \<^bold>\<open>The program.\<close> The repository validates virtio drivers against real devices. Its host half speaks the
  \<open>vtest\<close> protocol of virglrenderer over a socket: a client for the classic commands
  (\<open>vtest/client.go\<close>, \<open>vtest/protocol.go\<close>), its extension for Venus (\<open>vtest/venus.go\<close>), hand-written Venus
  command streams (\<open>vtest/venuscs.go\<close>), a command ring in shared memory (\<open>vtest/venusring.go\<close>,
  \<open>vtest/venusring_linux.go\<close>), and a driver that walks a host GPU through clearing an image and reads
  the pixels back (\<open>vtest/venusclear_linux.go\<close>). A reference renderer and a comparator
  (\<open>vtest/refrender\<close>) judge the pictures, and the commands of \<open>vtest/cmd\<close> turn the verdicts into exit
  codes. Its guest half (\<open>guest\<close>) are bare-metal programs, one per device, that drive a virtio device
  through a PCI transport (\<open>guest/transport\<close>) and print \<open>PASS\<close> or \<open>FAIL\<close> on the serial console.

  \<^bold>\<open>How code is modelled.\<close> A Go function with effects is a function from a state to an optional result
  and state (\<open>io\<close> of \<open>Go_Base\<close>): \<open>None\<close> is a call that never returns, \<open>Panic\<close> a run-time panic, \<open>Err\<close> a
  returned error with its format string and arguments. Integers are words of their width, slices are
  byte lists, structs are records with the source's field names, floats are rationals rounded after
  every operation (\<open>Go_Float\<close>), so infinities and \<open>NaN\<close> are outside the model and \<open>int(math.Floor(x))\<close> is
  the floor without a bound, and whether the compiler fuses a product into a sum is a parameter. A
  dash in a message of the source is written \<open>--\<close>.
  Code outside the repository (the peers, drivers, encoders and allocators it calls) is a parameter;
  what a property needs of it is a locale, interpreted on a concrete instance. A \<open>defer\<close> is \<open>afterwards\<close>
  of \<open>Frames\<close>, or an entry of the stack of deferred calls where a function defers several.

  \<^bold>\<open>Theories, in the order of the code.\<close>

  \<^item> \<open>Go_Base\<close>, \<open>Frames\<close>, \<open>Codec\<close>, \<open>Go_Float\<close>, \<open>Pixel_Grid\<close>: the prelude. Computations and their
    elimination rules, deferred calls, frame conditions, little-endian coding and parsers, rounding,
    loops over a pixel grid.
  \<^item> \<open>Vtest_Wire\<close>: every \<open>encode*\<close> function. Each encoded command parses back under the server's
    documented layout, and sessions are uniquely decodable.
  \<^item> \<open>Vtest_Client\<close>, \<open>Raw_Conn\<close>: the methods of \<open>Client\<close> over any \<open>io.ReadWriter\<close>, and the raw socket with
    \<open>EINTR\<close>, short transfers and passed descriptors. Results do not depend on how the kernel cuts
    the byte stream.
  \<^item> \<open>Venus_CS\<close>, \<open>Clear_CS\<close>: the command streams, byte for byte, with decoders as specification.
  \<^item> \<open>Shm_World\<close>, \<open>Venus_Ring\<close>: mappings shared with a scripted host, and every operation of
    \<open>MappedRing\<close>. A well-formed ring never panics; \<open>Submit\<close> refines a byte queue across the end of
    the buffer and the overflow of the cursors; \<open>WaitHead\<close> always returns.
  \<^item> \<open>Ring_Round_Trip\<close>: \<open>VenusRingRoundTrip\<close> with every early return. The heads it reports are the head
    word of the shared memory at the first poll and at the last.
  \<^item> \<open>Venus_Clear\<close>, \<open>Clear_Props\<close>, \<open>Clear_Verdict\<close>, \<open>Driver_Frames\<close>, \<open>Clear_Texels\<close>, \<open>Clear_Demo\<close>: \<open>VenusClearImage\<close>, one definition per step
    of the walk. Its error and its verdict agree, a verdict rests on acknowledged commands and on
    the bytes of the device memory (\<open>Clear_Texels\<close>), stale replies are rejected, and a complete walk is run against a scripted host.
    \<open>Driver_Frames\<close> proves once, in the locale \<open>world_frame\<close>, that every operation on the ring and every
    step of the walk respects a relation on worlds that host actions, time and stores respect.
  \<^item> \<open>Resource_Safety\<close>: both Venus drivers close every descriptor they open and unmap every mapping they
    make, on every way out. Steps that acquire nothing keep a frame; the others have a specification
    with one postcondition for success and one for every other outcome.
  \<^item> \<open>Ref_Compare\<close>, \<open>Compare_Props\<close>: the comparator and what its verdict means.
  \<^item> \<open>Ref_Render\<close>, \<open>Render_Props\<close>: the rasteriser and the texture sampler; on binary grids the floating
    point rasteriser is the exact closed triangle.
  \<^item> \<open>Validator\<close>, \<open>Validator_Props\<close>, \<open>Venus_Mains\<close>, \<open>Mkseed\<close>: the commands, as what they print and their
    exit codes; a whole session of the validator against a conforming server.
  \<^item> \<open>Guest_Transport\<close>: configuration space, BAR accesses as little-endian memory accesses, DMA pages.
  \<^item> \<open>Guest_Base\<close>, \<open>Guest_Board\<close>: the machine, the serial console, bringing up a device (locale
    \<open>boots\<close>, extended by every device below), the board's output hook.
  \<^item> \<open>Guest_Blk\<close>, \<open>Guest_Blk_Props\<close>, \<open>Guest_Rng\<close>, \<open>Guest_Rng_Props\<close>, \<open>Guest_Console\<close>, \<open>Guest_Net\<close>,
    \<open>Guest_Vsock\<close>, \<open>Guest_Balloon\<close>, \<open>Guest_Fs\<close>, \<open>Guest_Gpu\<close>: the harnesses. For each device a locale says
    what it does with requests, faults included, and the theorem says for which devices the harness
    prints \<open>PASS\<close>.

  \<^bold>\<open>Bounds and termination.\<close> Loops that poll a clock are recursive functions with a measure: every poll
  advances the scripted clock by at least the sleep of the loop, so they end without fuel. The read
  loop of the console harness has no bound of its own; it is a \<open>partial_function\<close>, and the theorem
  proves that it returns. Statements about pictures are for targets of at most 256 by 256 pixels,
  where all intermediate values of the rasteriser are exact.

  \<^bold>\<open>Not modelled.\<close> The parsing of flags and the rendering of formats, which are the standard
  library's (a printed line is its format string and arguments); the generated package \<open>clearcs\<close>, the
  drivers \<open>go-virtio/*\<close>, tamago, \<open>soft3d\<close> and \<open>weft-cidata\<close>, which are not in the repository and are
  parameters; the assembly of \<open>outb\<close> and the halt loops of the harnesses, at which a run has its final
  state; the kernel, of which the outcomes of the system calls are scripts (\<open>recvmsg\<close> delivers
  the control data its script says, cut or not) and only the table of
  open descriptors and the list of live mappings are state; the shell scripts that start QEMU.
\<close>

end
